(* ===== verification/Prelude.thy ===== *)
theory Prelude
  imports Complex_Main "HOL-Library.Multiset" "HOL-Library.Sublist"
begin

text \<open>
  Shared ground of the development: the exceptions the services throw and the result type of
  fallible operations, the fact collections the component theories fill, and generic lemmas on
  lists, options and maps.
\<close>

named_theorems ks_simps "effect of the Redis commands on the abstract keyspace"
named_theorems store_simps "effect of the database operations on the stored documents"
named_theorems js_simps "evaluation of JavaScript primitives"

section \<open>Exceptions and results\<close>

text \<open>
  The NestJS HTTP exceptions the code raises, by class; an \<^verbatim>\<open>RpcException\<close> of the gRPC side;
  and any other JavaScript error (a TypeError, a driver error), by its message.
\<close>

datatype http_kind = BadRequest | Unauthorized | NotFound | Conflict | InternalServerError

datatype exn =
    HttpException http_kind string
  | RpcException string
  | JsError string

fun http_status :: "http_kind \<Rightarrow> nat" where
  "http_status BadRequest = 400"
| "http_status Unauthorized = 401"
| "http_status NotFound = 404"
| "http_status Conflict = 409"
| "http_status InternalServerError = 500"

fun exn_message :: "exn \<Rightarrow> string" where
  "exn_message (HttpException k m) = m"
| "exn_message (RpcException m) = m"
| "exn_message (JsError m) = m"

type_synonym 'a result = "exn + 'a"

instantiation http_kind :: linorder
begin

definition less_eq_http_kind :: "http_kind \<Rightarrow> http_kind \<Rightarrow> bool" where
  "a \<le> b \<longleftrightarrow> http_status a \<le> http_status b"

definition less_http_kind :: "http_kind \<Rightarrow> http_kind \<Rightarrow> bool" where
  "a < b \<longleftrightarrow> http_status a < http_status b"

instance
proof
  fix a b :: http_kind
  show "a \<le> b \<Longrightarrow> b \<le> a \<Longrightarrow> a = b"
    by (cases a; cases b) (simp_all add: less_eq_http_kind_def)
qed (auto simp: less_eq_http_kind_def less_http_kind_def)

end

lemma http_status_client_or_server:
  "http_status k \<in> {400, 401, 404, 409, 500}"
  by (cases k) simp_all

section \<open>Lists\<close>

lemma take_rev_Cons: "take n (rev (xs @ [x])) = (if n = 0 then [] else x # take (n - 1) (rev xs))"
  by (cases n) simp_all

lemma filter_concat_map: "filter P (concat (map f xs)) = concat (map (\<lambda>x. filter P (f x)) xs)"
  by (induction xs) simp_all

lemma concat_map_if_singleton:
  "concat (map (\<lambda>x. if P x then [f x] else []) xs) = map f (filter P xs)"
  by (induction xs) simp_all

lemma count_list_filter: "count_list xs x = length (filter ((=) x) xs)"
  by (induction xs) auto

lemma sum_list_filter_split:
  fixes f :: "'a \<Rightarrow> int"
  shows "sum_list (map f xs) = sum_list (map f (filter P xs)) + sum_list (map f (filter (\<lambda>x. \<not> P x) xs))"
  by (induction xs) simp_all

lemma prefix_append_disjoint:
  assumes "length p \<le> length q" and "take (length p) q \<noteq> p"
  shows "p @ xs \<noteq> q @ ys"
proof
  assume "p @ xs = q @ ys"
  then have "take (length p) (p @ xs) = take (length p) (q @ ys)" by simp
  with assms show False by simp
qed

lemma append_sep_inject:
  assumes "sep \<notin> set xs" and "sep \<notin> set ys" and "xs @ sep # us = ys @ sep # vs"
  shows "xs = ys \<and> us = vs"
  using assms
proof (induction xs arbitrary: ys)
  case Nil
  then show ?case by (cases ys) auto
next
  case (Cons x xs)
  then show ?case by (cases ys) auto
qed

lemma find_SomeD: "Some x = find P xs \<Longrightarrow> x \<in> set xs \<and> P x"
  by (induction xs) (auto split: if_splits)

lemma find_NoneD: "None = find P xs \<Longrightarrow> \<forall>x \<in> set xs. \<not> P x"
  by (induction xs) (auto split: if_splits)

fun update_first :: "('a \<Rightarrow> bool) \<Rightarrow> ('a \<Rightarrow> 'a) \<Rightarrow> 'a list \<Rightarrow> 'a list" where
  "update_first p f [] = []"
| "update_first p f (x # xs) = (if p x then f x # xs else x # update_first p f xs)"

fun remove_first :: "('a \<Rightarrow> bool) \<Rightarrow> 'a list \<Rightarrow> 'a list" where
  "remove_first p [] = []"
| "remove_first p (x # xs) = (if p x then xs else x # remove_first p xs)"

lemma map_update_first: "(\<And>x. g (f x) = g x) \<Longrightarrow> map g (update_first p f xs) = map g xs"
  by (induction xs) auto

lemma find_update_first:
  "(\<And>x. p (f x) = p x) \<Longrightarrow> find p (update_first p f xs) = map_option f (find p xs)"
  by (induction xs) auto

lemma find_update_first_other:
  "(\<And>x. p x \<Longrightarrow> \<not> q x \<and> \<not> q (f x)) \<Longrightarrow> find q (update_first p f xs) = find q xs"
  by (induction xs) auto

lemma set_remove_first: "set (remove_first p xs) \<subseteq> set xs"
  by (induction xs) auto

lemma filter_remove_first:
  "(\<And>x. p x \<Longrightarrow> \<not> q x) \<Longrightarrow> filter q (remove_first p xs) = filter q xs"
  by (induction xs) auto

section \<open>Folding a state-passing step over a list\<close>

lemma fold_invariant_list:
  assumes "I s" and "\<And>x s. x \<in> set xs \<Longrightarrow> I s \<Longrightarrow> I (f x s)"
  shows "I (fold f xs s)"
  using assms by (induction xs arbitrary: s) auto

lemma fold_abs_commute:
  assumes "\<And>x s. a (f x s) = g x (a s)"
  shows "a (fold f xs s) = fold g xs (a s)"
  using assms by (induction xs arbitrary: s) auto

end
