(* ===== verification/JS.thy ===== *)
theory JS
  imports Prelude
begin

text \<open>
  The JavaScript language and library features the sources use: numbers with NaN, decimal
  printing and \<^verbatim>\<open>parseInt\<close>, JSON values with truthiness and property access, plain objects with
  their enumeration order and prototype names, \<^verbatim>\<open>Array.prototype.sort\<close>, \<^verbatim>\<open>String.prototype.split\<close>.
  Strings are lists of characters; the code only concatenates, compares and splits them.
\<close>

section \<open>Numbers with NaN\<close>

datatype 'a jsnum = NaN | Num 'a

instantiation jsnum :: (comm_monoid_add) comm_monoid_add
begin

definition zero_jsnum :: "'a jsnum" where "0 = Num 0"

fun plus_jsnum :: "'a jsnum \<Rightarrow> 'a jsnum \<Rightarrow> 'a jsnum" where
  "Num a + Num b = Num (a + b)"
| "NaN + b = NaN"
| "a + NaN = NaN"

instance
proof
  fix a b c :: "'a jsnum"
  show "a + b + c = a + (b + c)"
    by (cases a; cases b; cases c) (simp_all add: add.assoc)
  show "a + b = b + a"
    by (cases a; cases b) (simp_all add: add.commute)
  show "0 + a = a"
    by (cases a) (simp_all add: zero_jsnum_def)
qed

end

text \<open>Comparisons with NaN are false.\<close>

fun num_gt :: "'a::linorder jsnum \<Rightarrow> 'a jsnum \<Rightarrow> bool" where
  "num_gt (Num a) (Num b) = (b < a)"
| "num_gt _ _ = False"

fun num_ge :: "'a::linorder jsnum \<Rightarrow> 'a jsnum \<Rightarrow> bool" where
  "num_ge (Num a) (Num b) = (b \<le> a)"
| "num_ge _ _ = False"

fun num_val :: "int jsnum \<Rightarrow> int" where
  "num_val (Num a) = a"
| "num_val NaN = 0"

lemma sum_list_Num: "sum_list (map (\<lambda>x. Num (f x)) xs) = Num (sum_list (map f xs))"
  by (induction xs) (simp_all add: zero_jsnum_def)

text \<open>\<^verbatim>\<open>Math.round\<close>: to the nearest integer, halves towards plus infinity.\<close>

definition math_round :: "rat \<Rightarrow> int" where
  "math_round x = \<lfloor>x + 1 / 2\<rfloor>"

section \<open>Printing and parsing integers\<close>

definition digit_char :: "nat \<Rightarrow> char" where
  "digit_char d = char_of (48 + d)"

fun show_nat :: "nat \<Rightarrow> string" where
  "show_nat n = (if n < 10 then [digit_char n] else show_nat (n div 10) @ [digit_char (n mod 10)])"

declare show_nat.simps [simp del]

definition show_int :: "int \<Rightarrow> string" where
  "show_int i = (if i < 0 then CHR ''-'' # show_nat (nat (- i)) else show_nat (nat i))"

text \<open>\<^verbatim>\<open>Number.prototype.toString\<close> on the integers the code prints, and on NaN.\<close>

fun show_num :: "int jsnum \<Rightarrow> string" where
  "show_num NaN = ''NaN''"
| "show_num (Num i) = show_int i"

definition digit_val :: "char \<Rightarrow> nat option" where
  "digit_val c =
     (let n = of_char c :: nat in
      if 48 \<le> n \<and> n \<le> 57 then Some (n - 48)
      else if 97 \<le> n \<and> n \<le> 122 then Some (n - 87)
      else if 65 \<le> n \<and> n \<le> 90 then Some (n - 55)
      else None)"

definition is_digit :: "nat \<Rightarrow> char \<Rightarrow> bool" where
  "is_digit radix c = (case digit_val c of None \<Rightarrow> False | Some d \<Rightarrow> d < radix)"

definition digits_val :: "nat \<Rightarrow> string \<Rightarrow> int" where
  "digits_val radix s = foldl (\<lambda>a c. int radix * a + int (the (digit_val c))) 0 s"

definition is_space :: "char \<Rightarrow> bool" where
  "is_space c = (c \<in> set [CHR '' '', CHR 0x09, CHR 0x0A, CHR 0x0B, CHR 0x0C, CHR 0x0D])"

definition parse_digits :: "nat \<Rightarrow> bool \<Rightarrow> string \<Rightarrow> int jsnum" where
  "parse_digits radix neg s =
     (let ds = takeWhile (is_digit radix) s in
      if ds = [] then NaN else Num (if neg then - digits_val radix ds else digits_val radix ds))"

definition split_sign :: "string \<Rightarrow> bool \<times> string" where
  "split_sign s = (case s of
       [] \<Rightarrow> (False, [])
     | c # cs \<Rightarrow> if c = CHR ''-'' then (True, cs) else if c = CHR ''+'' then (False, cs) else (False, s))"

text \<open>\<^verbatim>\<open>parseInt(s, 10)\<close>, and \<^verbatim>\<open>parseInt(s)\<close>, which also reads a hexadecimal prefix.\<close>

definition parseInt10 :: "string \<Rightarrow> int jsnum" where
  "parseInt10 s = (let (neg, t) = split_sign (dropWhile is_space s) in parse_digits 10 neg t)"

definition parseInt :: "string \<Rightarrow> int jsnum" where
  "parseInt s = (let (neg, t) = split_sign (dropWhile is_space s) in
     if take 2 t = ''0x'' \<or> take 2 t = ''0X'' then parse_digits 16 neg (drop 2 t)
     else parse_digits 10 neg t)"

lemma digit_val_digit_char: "d < 10 \<Longrightarrow> digit_val (digit_char d) = Some d"
  by (simp add: digit_val_def digit_char_def Let_def)

lemma is_digit_digit_char: "d < 10 \<Longrightarrow> is_digit 10 (digit_char d)"
  by (simp add: is_digit_def digit_val_digit_char)

lemma show_nat_nonempty: "show_nat n \<noteq> []"
  by (subst show_nat.simps) simp

lemma show_nat_digits: "c \<in> set (show_nat n) \<Longrightarrow> is_digit 10 c"
proof (induction n rule: show_nat.induct)
  case (1 n)
  show ?case
  proof (cases "n < 10")
    case True
    with "1.prems" show ?thesis by (subst (asm) show_nat.simps) (simp add: is_digit_digit_char)
  next
    case False
    with "1.prems" have "c \<in> set (show_nat (n div 10)) \<or> c = digit_char (n mod 10)"
      by (subst (asm) show_nat.simps) auto
    with "1.IH" [OF False] show ?thesis by (auto intro: is_digit_digit_char)
  qed
qed

lemma digits_val_append:
  "digits_val r (xs @ [c]) = int r * digits_val r xs + int (the (digit_val c))"
  by (simp add: digits_val_def)

lemma digits_val_show_nat: "digits_val 10 (show_nat n) = int n"
proof (induction n rule: show_nat.induct)
  case (1 n)
  show ?case
  proof (cases "n < 10")
    case True
    then show ?thesis
      by (subst show_nat.simps) (simp add: digits_val_def digit_val_digit_char)
  next
    case False
    have "digits_val 10 (show_nat n) = 10 * int (n div 10) + int (n mod 10)"
      using False "1.IH" [OF False]
      by (subst show_nat.simps) (simp add: digits_val_append digit_val_digit_char)
    then show ?thesis by presburger
  qed
qed

lemma digit_no_sign: "is_digit 10 c \<Longrightarrow> c \<noteq> CHR ''-'' \<and> c \<noteq> CHR ''+'' \<and> \<not> is_space c
    \<and> c \<noteq> CHR ''x'' \<and> c \<noteq> CHR ''X'' \<and> c \<noteq> CHR '':''"
  by (auto simp: is_digit_def digit_val_def is_space_def Let_def split: if_splits)

lemma show_nat_Cons: obtains c cs where "show_nat n = c # cs" and "is_digit 10 c"
  using show_nat_nonempty [of n] show_nat_digits [of _ n]
  by (cases "show_nat n") auto

lemma takeWhile_show_nat: "takeWhile (is_digit 10) (show_nat n) = show_nat n"
  by (simp add: takeWhile_eq_all_conv show_nat_digits)

lemma parse_digits_show_nat: "parse_digits 10 neg (show_nat n) = Num (if neg then - int n else int n)"
  by (simp add: parse_digits_def takeWhile_show_nat show_nat_nonempty digits_val_show_nat Let_def)

lemma show_nat_no_hex: "take 2 (show_nat n) \<noteq> [CHR ''0'', CHR ''x''] \<and> take 2 (show_nat n) \<noteq> [CHR ''0'', CHR ''X'']"
proof -
  have "set (take 2 (show_nat n)) \<subseteq> set (show_nat n)" by (rule set_take_subset)
  moreover have "CHR ''x'' \<notin> set (show_nat n)" "CHR ''X'' \<notin> set (show_nat n)"
    using show_nat_digits digit_no_sign by blast+
  ultimately show ?thesis by (metis list.set_intros(1,2) subsetD)
qed

lemma split_sign_show_nat: "split_sign (dropWhile is_space (show_nat n)) = (False, show_nat n)"
proof -
  obtain c cs where s: "show_nat n = c # cs" and c: "is_digit 10 c" by (rule show_nat_Cons)
  then show ?thesis using digit_no_sign [OF c] by (simp add: split_sign_def)
qed

lemma minus_not_space [simp]: "\<not> is_space CHR ''-''"
  by (simp add: is_space_def)

lemma split_sign_show_neg: "split_sign (CHR ''-'' # show_nat n) = (True, show_nat n)"
  by (simp add: split_sign_def)

text \<open>Printing an integer and reading it back gives it.\<close>

lemma parseInt10_show_int [simp, js_simps]: "parseInt10 (show_int i) = Num i"
  by (simp add: parseInt10_def show_int_def split_sign_show_nat split_sign_show_neg
      parse_digits_show_nat)

lemma parseInt_show_int [simp, js_simps]: "parseInt (show_int i) = Num i"
  by (simp add: parseInt_def show_int_def split_sign_show_nat split_sign_show_neg
      parse_digits_show_nat show_nat_no_hex)

lemma show_int_inject [simp]: "show_int i = show_int j \<longleftrightarrow> i = j"
  by (metis parseInt_show_int jsnum.inject)

lemma show_int_nonempty [simp]: "show_int i \<noteq> []"
  by (simp add: show_int_def show_nat_nonempty)

lemma show_int_no_colon [simp]: "CHR '':'' \<notin> set (show_int i)"
  using show_nat_digits digit_no_sign by (auto simp: show_int_def)

section \<open>JSON values\<close>

text \<open>
  What \<^verbatim>\<open>JSON.parse\<close> returns. An object is the list of its own properties; a missing
  property is \<^term>\<open>None\<close> (undefined), and reading a property of null raises a TypeError.
\<close>

datatype json =
    JNull
  | JBool bool
  | JNum rat
  | JStr string
  | JArr "json list"
  | JObj "(string \<times> json) list"

fun truthy :: "json \<Rightarrow> bool" where
  "truthy JNull = False"
| "truthy (JBool b) = b"
| "truthy (JNum q) = (q \<noteq> 0)"
| "truthy (JStr s) = (s \<noteq> [])"
| "truthy (JArr xs) = True"
| "truthy (JObj kvs) = True"

definition null_property_error :: exn where
  "null_property_error = JsError ''Cannot read properties of null''"

fun get_prop :: "json \<Rightarrow> string \<Rightarrow> json option result" where
  "get_prop JNull f = Inl null_property_error"
| "get_prop (JObj kvs) f = Inr (map_of kvs f)"
| "get_prop _ f = Inr None"

text \<open>The idiom \<^verbatim>\<open>payload.f || d\<close>.\<close>

definition prop_or :: "json \<Rightarrow> string \<Rightarrow> json \<Rightarrow> json result" where
  "prop_or p f d = (case get_prop p f of
       Inl e \<Rightarrow> Inl e
     | Inr None \<Rightarrow> Inr d
     | Inr (Some v) \<Rightarrow> Inr (if truthy v then v else d))"

section \<open>Plain objects used as dictionaries\<close>

text \<open>
  A \<^verbatim>\<open>Record<string, string>\<close> is its list of own properties in the order of \<^verbatim>\<open>Object.entries\<close>:
  array-index keys in ascending order, then the others in the order of their creation.
  Reading a key that is not an own property finds the properties every object inherits.
\<close>

type_synonym dict = "(string \<times> string) list"

definition index_key :: "string \<Rightarrow> int option" where
  "index_key k = (case parseInt10 k of
       NaN \<Rightarrow> None
     | Num i \<Rightarrow> if 0 \<le> i \<and> i < 4294967295 \<and> show_int i = k then Some i else None)"

definition entry_before :: "string \<Rightarrow> string \<Rightarrow> bool" where
  "entry_before k k' = (case index_key k of
       None \<Rightarrow> False
     | Some i \<Rightarrow> (case index_key k' of None \<Rightarrow> True | Some j \<Rightarrow> i < j))"

fun dict_put :: "string \<Rightarrow> string \<Rightarrow> dict \<Rightarrow> dict" where
  "dict_put k v [] = [(k, v)]"
| "dict_put k v ((k', v') # d) = (if k = k' then (k, v) # d else (k', v') # dict_put k v d)"

fun dict_insert :: "string \<Rightarrow> string \<Rightarrow> dict \<Rightarrow> dict" where
  "dict_insert k v [] = [(k, v)]"
| "dict_insert k v ((k', v') # d) =
     (if entry_before k k' then (k, v) # (k', v') # d else (k', v') # dict_insert k v d)"

definition inherited_names :: "string list" where
  "inherited_names = [''constructor'', ''__defineGetter__'', ''__defineSetter__'', ''hasOwnProperty'',
     ''__lookupGetter__'', ''__lookupSetter__'', ''isPrototypeOf'', ''propertyIsEnumerable'',
     ''toString'', ''valueOf'', ''toLocaleString'', ''__proto__'']"

text \<open>
  \<^verbatim>\<open>target[key] = value\<close> for a string value: assigning a string to \<^verbatim>\<open>__proto__\<close> does nothing.
\<close>

definition dict_set :: "string \<Rightarrow> string \<Rightarrow> dict \<Rightarrow> dict" where
  "dict_set k v d =
     (if k = ''__proto__'' then d
      else if map_of d k = None then dict_insert k v d else dict_put k v d)"

lemma map_of_dict_put [simp]: "map_of (dict_put k v d) = (map_of d)(k \<mapsto> v)"
  by (induction d) auto

lemma map_of_dict_insert: "map_of d k = None \<Longrightarrow> map_of (dict_insert k v d) = (map_of d)(k \<mapsto> v)"
  by (induction d) (auto split: if_splits)

lemma map_of_dict_set [js_simps]:
  "map_of (dict_set k v d) = (if k = ''__proto__'' then map_of d else (map_of d)(k \<mapsto> v))"
  by (simp add: dict_set_def map_of_dict_insert)

lemma set_dict_insert: "set (dict_insert k v d) = insert (k, v) (set d)"
  by (induction d rule: dict_insert.induct) (auto split: if_splits)

lemma fst_dict_put: "map_of d k \<noteq> None \<Longrightarrow> map fst (dict_put k v d) = map fst d"
  by (induction d) auto

lemma distinct_dict_insert:
  "distinct (map fst d) \<Longrightarrow> k \<notin> set (map fst d) \<Longrightarrow> distinct (map fst (dict_insert k v d))"
  by (induction d) (auto simp: set_dict_insert)

lemma distinct_dict_set: "distinct (map fst d) \<Longrightarrow> distinct (map fst (dict_set k v d))"
  by (simp add: dict_set_def fst_dict_put distinct_dict_insert map_of_eq_None_iff del: not_None_eq)

section \<open>Sorting\<close>

text \<open>
  \<^verbatim>\<open>xs.sort((a, b) => f(b) - f(a))\<close>: stable, descending; a NaN difference counts as equal.
  For comparators without NaN every stable sort gives the same list, so insertion is
  as good as the engine's algorithm.
\<close>

fun insert_desc :: "('a \<Rightarrow> int jsnum) \<Rightarrow> 'a \<Rightarrow> 'a list \<Rightarrow> 'a list" where
  "insert_desc f x [] = [x]"
| "insert_desc f x (y # ys) = (if num_gt (f y) (f x) then y # insert_desc f x ys else x # y # ys)"

definition sort_desc :: "('a \<Rightarrow> int jsnum) \<Rightarrow> 'a list \<Rightarrow> 'a list" where
  "sort_desc f xs = foldr (insert_desc f) xs []"

lemma mset_insert_desc: "mset (insert_desc f x xs) = add_mset x (mset xs)"
  by (induction xs) auto

lemma mset_sort_desc [simp]: "mset (sort_desc f xs) = mset xs"
  by (induction xs) (simp_all add: sort_desc_def mset_insert_desc)

lemma set_insert_desc: "set (insert_desc f x xs) = insert x (set xs)"
  by (induction xs) auto

lemma set_sort_desc [simp]: "set (sort_desc f xs) = set xs"
  using mset_sort_desc [of f xs] by (metis set_mset_mset)

lemma length_sort_desc [simp]: "length (sort_desc f xs) = length xs"
  using mset_sort_desc [of f xs] by (metis size_mset)

definition desc_by :: "('a \<Rightarrow> int jsnum) \<Rightarrow> 'a list \<Rightarrow> bool" where
  "desc_by f xs = sorted_wrt (\<lambda>a b. num_ge (f a) (f b)) xs"

definition all_num :: "('a \<Rightarrow> int jsnum) \<Rightarrow> 'a list \<Rightarrow> bool" where
  "all_num f xs = list_all (\<lambda>x. f x \<noteq> NaN) xs"

lemma num_ge_total: "a \<noteq> NaN \<Longrightarrow> b \<noteq> NaN \<Longrightarrow> \<not> num_gt a b \<Longrightarrow> num_ge b a"
  by (cases a; cases b) simp_all

lemma num_gt_ge: "num_gt a b \<Longrightarrow> num_ge a b"
  by (cases a; cases b) simp_all

lemma num_ge_trans: "num_ge a b \<Longrightarrow> num_ge b c \<Longrightarrow> num_ge a c"
  by (cases a; cases b; cases c) simp_all

lemma insert_desc_sorted:
  "all_num f (x # xs) \<Longrightarrow> desc_by f xs \<Longrightarrow> desc_by f (insert_desc f x xs)"
proof (induction xs)
  case Nil
  then show ?case by (simp add: desc_by_def)
next
  case (Cons y ys)
  show ?case
  proof (cases "num_gt (f y) (f x)")
    case True
    with Cons show ?thesis
      by (auto simp: desc_by_def all_num_def set_insert_desc num_gt_ge)
  next
    case False
    with Cons.prems have "num_ge (f x) (f y)"
      by (auto simp: all_num_def intro: num_ge_total)
    with False Cons.prems show ?thesis
      by (auto simp: desc_by_def intro: num_ge_trans)
  qed
qed

lemma sort_desc_sorted: "all_num f xs \<Longrightarrow> desc_by f (sort_desc f xs)"
proof (induction xs)
  case Nil
  then show ?case by (simp add: sort_desc_def desc_by_def)
next
  case (Cons x xs)
  then have "all_num f (x # sort_desc f xs)" by (simp add: all_num_def list_all_iff)
  with Cons show ?case
    by (simp add: sort_desc_def insert_desc_sorted all_num_def)
qed

section \<open>Splitting strings\<close>

text \<open>\<^verbatim>\<open>s.split(c)\<close> for a one-character separator: never empty, separators removed.\<close>

fun split_on :: "char \<Rightarrow> string \<Rightarrow> string list" where
  "split_on c [] = [[]]"
| "split_on c (x # xs) =
     (if x = c then [] # split_on c xs
      else (case split_on c xs of [] \<Rightarrow> [[x]] | w # ws \<Rightarrow> (x # w) # ws))"

lemma split_on_nonempty [simp]: "split_on c s \<noteq> []"
  by (induction s) (auto split: list.splits)

lemma split_on_no_sep: "c \<notin> set s \<Longrightarrow> split_on c s = [s]"
  by (induction s) auto

lemma split_on_append: "c \<notin> set s \<Longrightarrow> split_on c (s @ c # t) = s # split_on c t"
  by (induction s) auto

lemma split_on_words: "w \<in> set (split_on c s) \<Longrightarrow> c \<notin> set w"
  by (induction s arbitrary: w) (auto split: if_splits list.splits)

end
