(* ===== verification/Users.thy ===== *)
theory Users
  imports JS
begin

text \<open>
  The user accounts: the schema (src/src/users/schemas/user.schema.ts), the repository
  (src/src/users/repository/user.repository.ts), and, as a parameter, the Mongoose model the
  repository queries. The locale \<open>user_collection\<close> states what is documented of the model: a
  query that succeeds answers from the stored documents, the schema's setters normalise the
  email in documents and in filters, the unique indexes hold, and an unacknowledged write
  (\<^verbatim>\<open>w: 0\<close> in app.module.ts) that violates the index is silently dropped.
\<close>

section \<open>Documents\<close>

record user =
  u_id :: string
  u_name :: string
  u_email :: string
  u_password :: string
  isEmailVerified :: bool
  u_role :: string

record iuser =
  iu_name :: string
  iu_email :: string
  iu_password :: string

text \<open>The setters \<^verbatim>\<open>lowercase\<close> and \<^verbatim>\<open>trim\<close> of the email field.\<close>

definition lower_char :: "char \<Rightarrow> char" where
  "lower_char c = (let n = of_char c :: nat in if 65 \<le> n \<and> n \<le> 90 then char_of (n + 32) else c)"

definition trim :: "string \<Rightarrow> string" where
  "trim s = rev (dropWhile is_space (rev (dropWhile is_space s)))"

definition norm_email :: "string \<Rightarrow> string" where
  "norm_email e = trim (map lower_char e)"

lemma lower_char_space [simp]: "is_space (lower_char c) = is_space c"
  by (auto simp: is_space_def lower_char_def char_of_eq_iff take_bit_eq_mod Let_def split: if_splits)

lemma lower_char_idem [simp]: "lower_char (lower_char c) = lower_char c"
  by (simp add: lower_char_def Let_def of_char_of)

lemma trim_map_lower: "trim (map lower_char s) = map lower_char (trim s)"
  by (simp add: trim_def dropWhile_map comp_def rev_map)

lemma hd_trim: "trim s \<noteq> [] \<Longrightarrow> \<not> is_space (hd (trim s))"
proof -
  assume t: "trim s \<noteq> []"
  let ?y = "dropWhile is_space s"
  obtain ts where y: "?y = trim s @ ts"
    using takeWhile_dropWhile_id [of is_space "rev ?y"] unfolding trim_def
    by (metis rev_append rev_rev_ident)
  with t have "?y \<noteq> []" and "hd ?y = hd (trim s)" by auto
  then show ?thesis using hd_dropWhile [of is_space s] by simp
qed

lemma trim_idem [simp]: "trim (trim s) = trim s"
proof (cases "trim s")
  case Nil
  show ?thesis unfolding Nil by (simp add: trim_def)
next
  case (Cons c cs)
  then have "\<not> is_space c" using hd_trim [of s] by simp
  with Cons have "dropWhile is_space (trim s) = trim s" by simp
  then have "trim (trim s) = rev (dropWhile is_space (rev (trim s)))" by (simp add: trim_def)
  also have "\<dots> = trim s" unfolding trim_def by simp
  finally show ?thesis .
qed

lemma norm_email_idem [simp]: "norm_email (norm_email e) = norm_email e"
  by (simp add: norm_email_def trim_map_lower comp_def flip: map_map) (simp add: trim_map_lower comp_def)

section \<open>The Mongoose model as a parameter\<close>

record 'u user_model =
  um_findById :: "string \<Rightarrow> 'u \<Rightarrow> user option result"
  um_findOne :: "string \<Rightarrow> 'u \<Rightarrow> user option result"
  um_updateOne :: "string \<Rightarrow> bool \<Rightarrow> 'u \<Rightarrow> unit result \<times> 'u"
  um_save :: "iuser \<Rightarrow> string \<Rightarrow> 'u \<Rightarrow> user result \<times> 'u"
  um_find :: "'u \<Rightarrow> user list result"

definition with_email :: "string \<Rightarrow> user \<Rightarrow> bool" where
  "with_email e d = (u_email d = norm_email e)"

definition unique_users :: "user list \<Rightarrow> bool" where
  "unique_users ds = (distinct (map u_id ds) \<and> distinct (map u_email ds))"

definition new_document :: "iuser \<Rightarrow> string \<Rightarrow> user \<Rightarrow> bool" where
  "new_document nu role d = (u_name d = iu_name nu \<and> u_email d = norm_email (iu_email nu)
     \<and> u_password d = iu_password nu \<and> \<not> isEmailVerified d \<and> u_role d = role)"

locale user_collection =
  fixes M :: "'u user_model" and docs :: "'u \<Rightarrow> user list"
  assumes um_findById: "um_findById M i u = Inr x \<Longrightarrow> x = find (\<lambda>d. u_id d = i) (docs u)"
    and um_findOne: "um_findOne M e u = Inr x \<Longrightarrow> x = find (with_email e) (docs u)"
    and um_find: "um_find M u = Inr ds \<Longrightarrow> ds = docs u"
    and um_updateOne: "um_updateOne M e b u = (r, u') \<Longrightarrow>
          docs u' = update_first (with_email e) (isEmailVerified_update (\<lambda>_. b)) (docs u)
          \<or> isl r \<and> docs u' = docs u"
    and um_save_Inr: "um_save M nu role u = (Inr d, u') \<Longrightarrow> new_document nu role d
          \<and> (docs u' = docs u @ [d] \<or> u_email d \<in> u_email ` set (docs u) \<and> docs u' = docs u)"
    and um_save_Inl: "um_save M nu role u = (Inl err, u') \<Longrightarrow> docs u' = docs u"
    and um_unique: "unique_users (docs u)"

section \<open>The repository\<close>

text \<open>
  The repository returns the query's promise without awaiting it inside its \<^verbatim>\<open>try\<close>, so a
  rejected query keeps its own error: the \<^verbatim>\<open>InternalServerErrorException\<close> of the \<^verbatim>\<open>catch\<close> is only
  thrown for an awaited operation, \<^verbatim>\<open>updateEmailVerificationStatus\<close>.
\<close>

definition findById :: "'u user_model \<Rightarrow> string \<Rightarrow> 'u \<Rightarrow> user option result" where
  "findById M userId u = um_findById M userId u"

definition findByEmail :: "'u user_model \<Rightarrow> string \<Rightarrow> 'u \<Rightarrow> user option result" where
  "findByEmail M email u = um_findOne M email u"

definition updateEmailVerificationStatus ::
  "'u user_model \<Rightarrow> string \<Rightarrow> bool \<Rightarrow> 'u \<Rightarrow> unit result \<times> 'u" where
  "updateEmailVerificationStatus M email isVerified u =
     (case um_updateOne M email isVerified u of
        (Inl e, u') \<Rightarrow> (Inl (HttpException InternalServerError (exn_message e)), u')
      | (Inr x, u') \<Rightarrow> (Inr x, u'))"

definition createUser :: "'u user_model \<Rightarrow> iuser \<Rightarrow> 'u \<Rightarrow> user result \<times> 'u" where
  "createUser M createUserDto u = um_save M createUserDto ''user'' u"

text \<open>\<^verbatim>\<open>UsersService.foo\<close>, behind the unauthenticated \<^verbatim>\<open>GET users\<close>.\<close>

definition users_foo :: "'u user_model \<Rightarrow> 'u \<Rightarrow> user list result" where
  "users_foo M u = um_find M u"

section \<open>Lemmas on the stored documents\<close>

lemma update_first_ids: "map u_id (update_first p (isEmailVerified_update f) ds) = map u_id ds"
  by (induction ds) auto

lemma update_first_emails: "map u_email (update_first p (isEmailVerified_update f) ds) = map u_email ds"
  by (induction ds) auto

lemma find_id_unique:
  "distinct (map u_id ds) \<Longrightarrow> d \<in> set ds \<Longrightarrow> find (\<lambda>x. u_id x = u_id d) ds = Some d"
  by (induction ds) (auto simp: image_iff)

lemma update_first_verified:
  "find p ds = Some d \<Longrightarrow>
   d\<lparr>isEmailVerified := b\<rparr> \<in> set (update_first p (isEmailVerified_update (\<lambda>_. b)) ds)"
  by (induction ds) (auto split: if_splits)

text \<open>Setting the flag never un-verifies a user.\<close>

definition verified_ids :: "user list \<Rightarrow> string set" where
  "verified_ids ds = u_id ` set (filter isEmailVerified ds)"

lemma verified_ids_update_first:
  "verified_ids ds \<subseteq> verified_ids (update_first p (isEmailVerified_update (\<lambda>_. True)) ds)"
  by (induction ds) (auto simp: verified_ids_def split: if_splits)

lemma verified_ids_append [simp]: "verified_ids (ds @ es) = verified_ids ds \<union> verified_ids es"
  by (auto simp: verified_ids_def)

context user_collection
begin

lemma findById_Some: "findById M i u = Inr (Some d) \<Longrightarrow> d \<in> set (docs u) \<and> u_id d = i"
  by (drule um_findById [folded findById_def]) (auto dest: find_SomeD)

lemma findByEmail_Some:
  "findByEmail M e u = Inr (Some d) \<Longrightarrow> d \<in> set (docs u) \<and> u_email d = norm_email e"
  by (drule um_findOne [folded findByEmail_def]) (auto simp: with_email_def dest: find_SomeD)

lemma findByEmail_None:
  "findByEmail M e u = Inr None \<Longrightarrow> norm_email e \<notin> u_email ` set (docs u)"
  by (drule um_findOne [folded findByEmail_def]) (auto simp: with_email_def dest!: find_NoneD)

text \<open>A user found by id whose id is verified is a verified document.\<close>

lemma findById_verified:
  assumes "findById M i u = Inr (Some d)" and "i \<in> verified_ids (docs u)"
  shows "isEmailVerified d"
proof -
  obtain d' where d': "d' \<in> set (docs u)" "isEmailVerified d'" "u_id d' = i"
    using assms(2) by (auto simp: verified_ids_def)
  have "find (\<lambda>x. u_id x = u_id d') (docs u) = Some d'"
    using um_unique [of u] d'(1) by (intro find_id_unique) (auto simp: unique_users_def)
  then have "d' = d" using um_findById [folded findById_def, OF assms(1)] d'(3) by simp
  with d'(2) show ?thesis by simp
qed

lemma updateStatus_docs:
  "updateEmailVerificationStatus M e b u = (r, u') \<Longrightarrow>
     docs u' = update_first (with_email e) (isEmailVerified_update (\<lambda>_. b)) (docs u)
     \<or> isl r \<and> docs u' = docs u"
  unfolding updateEmailVerificationStatus_def
  by (cases "um_updateOne M e b u"; cases "fst (um_updateOne M e b u)")
    (auto dest: um_updateOne)

lemma updateStatus_verified_mono:
  "updateEmailVerificationStatus M e True u = (r, u') \<Longrightarrow> verified_ids (docs u) \<subseteq> verified_ids (docs u')"
  by (drule updateStatus_docs) (auto dest: subsetD [OF verified_ids_update_first])

lemma createUser_verified_mono:
  "createUser M nu u = (r, u') \<Longrightarrow> verified_ids (docs u) \<subseteq> verified_ids (docs u')"
  unfolding createUser_def
  by (cases r) (auto dest: um_save_Inr um_save_Inl)

lemmas user_mono = updateStatus_verified_mono createUser_verified_mono

end

section \<open>A reference collection\<close>

text \<open>
  A list of documents whose inserts are acknowledged silently: a duplicate email is dropped.
  Fresh ids are longer than every id in use.
\<close>

definition fresh_id :: "user list \<Rightarrow> string" where
  "fresh_id ds = concat (map u_id ds) @ ''0''"

definition mem_save :: "iuser \<Rightarrow> string \<Rightarrow> user list \<Rightarrow> user result \<times> user list" where
  "mem_save nu role ds =
     (let d = \<lparr>u_id = fresh_id ds, u_name = iu_name nu, u_email = norm_email (iu_email nu),
               u_password = iu_password nu, isEmailVerified = False, u_role = role\<rparr> in
      if u_email d \<in> set (map u_email ds) then (Inr d, ds) else (Inr d, ds @ [d]))"

text \<open>The states of the reference collection are the lists with unique ids and emails.\<close>

typedef user_db = "{ds. unique_users ds}"
  by (rule exI [of _ "[]"]) (simp add: unique_users_def)

setup_lifting type_definition_user_db

lift_definition db_docs :: "user_db \<Rightarrow> user list" is "\<lambda>ds. ds" .

lift_definition db_empty :: user_db is "[]" by (simp add: unique_users_def)

lemma fresh_id_notin: "fresh_id ds \<notin> u_id ` set ds"
proof
  assume "fresh_id ds \<in> u_id ` set ds"
  then obtain d where d: "d \<in> set ds" "fresh_id ds = u_id d" by auto
  have "length (u_id d) \<le> length (concat (map u_id ds))"
    using d(1) by (induction ds) auto
  with d(2) arg_cong [OF fresh_id_def [of ds], of length] show False by simp
qed

lemma unique_mem_save: "unique_users ds \<Longrightarrow> unique_users (snd (mem_save nu role ds))"
  using fresh_id_notin [of ds] by (simp add: unique_users_def mem_save_def Let_def)

lift_definition db_save :: "iuser \<Rightarrow> string \<Rightarrow> user_db \<Rightarrow> user_db" is
  "\<lambda>nu role ds. snd (mem_save nu role ds)"
  by (rule unique_mem_save)

lift_definition db_update :: "string \<Rightarrow> bool \<Rightarrow> user_db \<Rightarrow> user_db" is
  "\<lambda>e b ds. update_first (with_email e) (isEmailVerified_update (\<lambda>_. b)) ds"
  by (simp add: unique_users_def update_first_ids update_first_emails)

definition mem_users :: "user_db user_model" where
  "mem_users = \<lparr>
     um_findById = (\<lambda>i u. Inr (find (\<lambda>d. u_id d = i) (db_docs u))),
     um_findOne = (\<lambda>e u. Inr (find (with_email e) (db_docs u))),
     um_updateOne = (\<lambda>e b u. (Inr (), db_update e b u)),
     um_save = (\<lambda>nu role u. (fst (mem_save nu role (db_docs u)), db_save nu role u)),
     um_find = (\<lambda>u. Inr (db_docs u)) \<rparr>"

lemma db_docs_save: "db_docs (db_save nu role u) = snd (mem_save nu role (db_docs u))"
  by transfer simp

lemma db_docs_update:
  "db_docs (db_update e b u) = update_first (with_email e) (isEmailVerified_update (\<lambda>_. b)) (db_docs u)"
  by transfer simp

lemma db_docs_unique: "unique_users (db_docs u)"
  by transfer simp

lemma db_docs_empty [simp]: "db_docs db_empty = []"
  by transfer simp

lemmas db_simps = db_docs_save db_docs_update db_docs_empty

interpretation memu: user_collection mem_users db_docs
  by unfold_locales
    (auto simp: mem_users_def db_simps db_docs_unique mem_save_def new_document_def Let_def image_iff
      split: if_splits)

end
