(* ===== verification/Redis.thy ===== *)
theory Redis
  imports JS "HOL-Library.AList"
begin

text \<open>
  The Redis server the services talk to, as a parameter: a record of the commands the code
  issues (\<^verbatim>\<open>ioredis\<close>), over an abstract server state. The locale \<open>redis_server\<close> states the
  documented behaviour of these commands on an abstract keyspace: typed values, an optional
  expiry deadline per key, and commands that only touch their own key. The order in which a
  hash or a set is listed is not fixed. A command on a key of another type fails and
  leaves the keyspace as it was. Times are milliseconds; expiry is at the deadline. The server
  counter is 64 bits wide; counts below \<open>2 ^ 63\<close> are assumed throughout.
\<close>

section \<open>The commands\<close>

record 's redis =
  rd_get :: "int \<Rightarrow> string \<Rightarrow> 's \<Rightarrow> string option"
  rd_set :: "int \<Rightarrow> string \<Rightarrow> string \<Rightarrow> 's \<Rightarrow> 's"
  rd_setex :: "int \<Rightarrow> string \<Rightarrow> int \<Rightarrow> string \<Rightarrow> 's \<Rightarrow> 's"
  rd_del :: "int \<Rightarrow> string \<Rightarrow> 's \<Rightarrow> 's"
  rd_exists :: "int \<Rightarrow> string \<Rightarrow> 's \<Rightarrow> bool"
  rd_expire :: "int \<Rightarrow> string \<Rightarrow> int \<Rightarrow> 's \<Rightarrow> 's"
  rd_hset :: "int \<Rightarrow> string \<Rightarrow> (string \<times> string) list \<Rightarrow> 's \<Rightarrow> 's"
  rd_hgetall :: "int \<Rightarrow> string \<Rightarrow> 's \<Rightarrow> dict"
  rd_hmget :: "int \<Rightarrow> string \<Rightarrow> string list \<Rightarrow> 's \<Rightarrow> string option list"
  rd_hincrby :: "int \<Rightarrow> string \<Rightarrow> string \<Rightarrow> int \<Rightarrow> 's \<Rightarrow> int \<times> 's"
  rd_sadd :: "int \<Rightarrow> string \<Rightarrow> string \<Rightarrow> 's \<Rightarrow> 's"
  rd_smembers :: "int \<Rightarrow> string \<Rightarrow> 's \<Rightarrow> string list"
  rd_lpush :: "int \<Rightarrow> string \<Rightarrow> string \<Rightarrow> 's \<Rightarrow> 's"
  rd_ltrim :: "int \<Rightarrow> string \<Rightarrow> nat \<Rightarrow> nat \<Rightarrow> 's \<Rightarrow> 's"
  rd_lrange_all :: "int \<Rightarrow> string \<Rightarrow> 's \<Rightarrow> string list"

section \<open>The abstract keyspace\<close>

datatype rval = RStr string | RHash dict | RSet "string list" | RList "string list"

type_synonym entry = "rval \<times> int option"
type_synonym keyspace = "string \<Rightarrow> entry option"

definition unexpired :: "int \<Rightarrow> int option \<Rightarrow> bool" where
  "unexpired now d = (case d of None \<Rightarrow> True | Some t \<Rightarrow> now < t)"

definition live :: "int \<Rightarrow> keyspace \<Rightarrow> string \<Rightarrow> entry option" where
  "live now K k = (case K k of None \<Rightarrow> None | Some (v, d) \<Rightarrow> if unexpired now d then Some (v, d) else None)"

text \<open>
  Changing the value of a key keeps its deadline; \<^term>\<open>None\<close> from the change is a type error.
\<close>

definition ks_update :: "int \<Rightarrow> string \<Rightarrow> (rval option \<Rightarrow> rval option) \<Rightarrow> keyspace \<Rightarrow> keyspace" where
  "ks_update now k f K = (case live now K k of
       None \<Rightarrow> (case f None of None \<Rightarrow> K | Some v' \<Rightarrow> K(k \<mapsto> (v', None)))
     | Some (v, d) \<Rightarrow> (case f (Some v) of None \<Rightarrow> K | Some v' \<Rightarrow> K(k \<mapsto> (v', d))))"

definition ks_set :: "string \<Rightarrow> string \<Rightarrow> keyspace \<Rightarrow> keyspace" where
  "ks_set k v K = K(k \<mapsto> (RStr v, None))"

definition ks_setex :: "int \<Rightarrow> string \<Rightarrow> int \<Rightarrow> string \<Rightarrow> keyspace \<Rightarrow> keyspace" where
  "ks_setex now k secs v K = K(k \<mapsto> (RStr v, Some (now + 1000 * secs)))"

definition ks_del :: "string \<Rightarrow> keyspace \<Rightarrow> keyspace" where
  "ks_del k K = K(k := None)"

definition ks_expire :: "int \<Rightarrow> string \<Rightarrow> int \<Rightarrow> keyspace \<Rightarrow> keyspace" where
  "ks_expire now k secs K = (case live now K k of
       None \<Rightarrow> K | Some (v, d) \<Rightarrow> K(k \<mapsto> (v, Some (now + 1000 * secs))))"

definition ks_get :: "int \<Rightarrow> keyspace \<Rightarrow> string \<Rightarrow> string option" where
  "ks_get now K k = (case live now K k of Some (RStr v, d) \<Rightarrow> Some v | _ \<Rightarrow> None)"

definition ks_hash :: "int \<Rightarrow> keyspace \<Rightarrow> string \<Rightarrow> dict" where
  "ks_hash now K k = (case live now K k of Some (RHash h, d) \<Rightarrow> h | _ \<Rightarrow> [])"

definition ks_members :: "int \<Rightarrow> keyspace \<Rightarrow> string \<Rightarrow> string list" where
  "ks_members now K k = (case live now K k of Some (RSet xs, d) \<Rightarrow> xs | _ \<Rightarrow> [])"

definition ks_list :: "int \<Rightarrow> keyspace \<Rightarrow> string \<Rightarrow> string list" where
  "ks_list now K k = (case live now K k of Some (RList xs, d) \<Rightarrow> xs | _ \<Rightarrow> [])"

definition hset_val :: "(string \<times> string) list \<Rightarrow> rval option \<Rightarrow> rval option" where
  "hset_val fvs r = (case r of
       None \<Rightarrow> Some (RHash (AList.updates (map fst fvs) (map snd fvs) []))
     | Some (RHash h) \<Rightarrow> Some (RHash (AList.updates (map fst fvs) (map snd fvs) h))
     | _ \<Rightarrow> None)"

text \<open>The value of a counter field: Redis only increments canonically written integers.\<close>

definition counter_val :: "string option \<Rightarrow> int option" where
  "counter_val x = (case x of
       None \<Rightarrow> Some 0
     | Some t \<Rightarrow> (case parseInt10 t of NaN \<Rightarrow> None | Num i \<Rightarrow> if show_int i = t then Some i else None))"

definition hincrby_val :: "string \<Rightarrow> int \<Rightarrow> rval option \<Rightarrow> rval option" where
  "hincrby_val f n r = (case r of
       None \<Rightarrow> Some (RHash [(f, show_int n)])
     | Some (RHash h) \<Rightarrow> (case counter_val (map_of h f) of
           None \<Rightarrow> None | Some i \<Rightarrow> Some (RHash (AList.update f (show_int (i + n)) h)))
     | _ \<Rightarrow> None)"

definition sadd_val :: "string \<Rightarrow> rval option \<Rightarrow> rval option" where
  "sadd_val x r = (case r of
       None \<Rightarrow> Some (RSet [x]) | Some (RSet xs) \<Rightarrow> Some (RSet (List.insert x xs)) | _ \<Rightarrow> None)"

definition lpush_val :: "string \<Rightarrow> rval option \<Rightarrow> rval option" where
  "lpush_val x r = (case r of
       None \<Rightarrow> Some (RList [x]) | Some (RList xs) \<Rightarrow> Some (RList (x # xs)) | _ \<Rightarrow> None)"

definition ks_hset where "ks_hset now k fvs = ks_update now k (hset_val fvs)"
definition ks_hincrby where "ks_hincrby now k f n = ks_update now k (hincrby_val f n)"
definition ks_sadd where "ks_sadd now k x = ks_update now k (sadd_val x)"
definition ks_lpush where "ks_lpush now k x = ks_update now k (lpush_val x)"

text \<open>Trimming to the elements \<open>a\<close> to \<open>b\<close>; an empty list is no key.\<close>

definition ks_ltrim :: "int \<Rightarrow> string \<Rightarrow> nat \<Rightarrow> nat \<Rightarrow> keyspace \<Rightarrow> keyspace" where
  "ks_ltrim now k a b K = (case live now K k of
       Some (RList xs, d) \<Rightarrow>
         (let ys = take (Suc b - a) (drop a xs) in if ys = [] then K(k := None) else K(k \<mapsto> (RList ys, d)))
     | _ \<Rightarrow> K)"

definition counter_of :: "dict \<Rightarrow> string \<Rightarrow> int" where
  "counter_of h f = (case counter_val (map_of h f) of None \<Rightarrow> 0 | Some i \<Rightarrow> i)"

definition hcount :: "int \<Rightarrow> keyspace \<Rightarrow> string \<Rightarrow> string \<Rightarrow> int" where
  "hcount now K k f = counter_of (ks_hash now K k) f"

text \<open>A hash whose fields are all counters, and a key that is absent or such a hash.\<close>

definition counters :: "dict \<Rightarrow> bool" where
  "counters h = (distinct (map fst h) \<and> list_all (\<lambda>fv. counter_val (Some (snd fv)) \<noteq> None) h)"

definition counter_key :: "int \<Rightarrow> keyspace \<Rightarrow> string \<Rightarrow> bool" where
  "counter_key now K k = (case live now K k of
       None \<Rightarrow> True | Some (RHash h, d) \<Rightarrow> counters h | _ \<Rightarrow> False)"

definition counter_field :: "int \<Rightarrow> keyspace \<Rightarrow> string \<Rightarrow> string \<Rightarrow> bool" where
  "counter_field now K k f = (case live now K k of
       None \<Rightarrow> True | Some (RHash h, d) \<Rightarrow> counter_val (map_of h f) \<noteq> None | _ \<Rightarrow> False)"

definition key_deadline :: "int \<Rightarrow> keyspace \<Rightarrow> string \<Rightarrow> int option" where
  "key_deadline now K k = (case live now K k of None \<Rightarrow> None | Some (v, d) \<Rightarrow> d)"

section \<open>The contract of the server\<close>

locale redis_server =
  fixes R :: "'s redis" and ks :: "'s \<Rightarrow> keyspace"
  assumes rd_get [ks_simps]: "rd_get R now k s = ks_get now (ks s) k"
    and rd_set [ks_simps]: "ks (rd_set R now k v s) = ks_set k v (ks s)"
    and rd_setex [ks_simps]: "ks (rd_setex R now k secs v s) = ks_setex now k secs v (ks s)"
    and rd_del [ks_simps]: "ks (rd_del R now k s) = ks_del k (ks s)"
    and rd_exists [ks_simps]: "rd_exists R now k s = (live now (ks s) k \<noteq> None)"
    and rd_expire [ks_simps]: "ks (rd_expire R now k secs s) = ks_expire now k secs (ks s)"
    and rd_hset [ks_simps]: "ks (rd_hset R now k fvs s) = ks_hset now k fvs (ks s)"
    and rd_hgetall: "distinct (map fst (rd_hgetall R now k s))
          \<and> map_of (rd_hgetall R now k s) = map_of (ks_hash now (ks s) k)"
    and rd_hmget [ks_simps]: "rd_hmget R now k fs s = map (map_of (ks_hash now (ks s) k)) fs"
    and rd_hincrby [ks_simps]: "ks (snd (rd_hincrby R now k f n s)) = ks_hincrby now k f n (ks s)"
    and rd_hincrby_reply: "counter_field now (ks s) k f \<Longrightarrow>
          fst (rd_hincrby R now k f n s) = hcount now (ks s) k f + n"
    and rd_sadd [ks_simps]: "ks (rd_sadd R now k x s) = ks_sadd now k x (ks s)"
    and rd_smembers: "distinct (rd_smembers R now k s)
          \<and> set (rd_smembers R now k s) = set (ks_members now (ks s) k)"
    and rd_lpush [ks_simps]: "ks (rd_lpush R now k x s) = ks_lpush now k x (ks s)"
    and rd_ltrim [ks_simps]: "ks (rd_ltrim R now k a b s) = ks_ltrim now k a b (ks s)"
    and rd_lrange_all [ks_simps]: "rd_lrange_all R now k s = ks_list now (ks s) k"
begin

lemma hgetall_map [ks_simps]: "map_of (rd_hgetall R now k s) = map_of (ks_hash now (ks s) k)"
  using rd_hgetall by simp

lemma hgetall_distinct: "distinct (map fst (rd_hgetall R now k s))"
  using rd_hgetall by simp

lemma hgetall_empty: "rd_hgetall R now k s = [] \<longleftrightarrow> ks_hash now (ks s) k = []"
  by (metis hgetall_map map_of_eq_empty_iff)

lemma smembers_set [ks_simps]: "set (rd_smembers R now k s) = set (ks_members now (ks s) k)"
  using rd_smembers by simp

end

section \<open>Lemmas on the keyspace\<close>

lemma ks_update_other [simp]: "k' \<noteq> k \<Longrightarrow> ks_update now k f K k' = K k'"
  by (simp add: ks_update_def split: option.split prod.split)

lemma live_other: "K k = K' k \<Longrightarrow> live now K k = live now K' k"
  by (simp add: live_def)

text \<open>A command leaves every other key alone.\<close>

lemma ks_frame [simp]:
  assumes "k' \<noteq> k"
  shows "ks_set k v K k' = K k'" and "ks_setex now k secs v K k' = K k'" and "ks_del k K k' = K k'"
    and "ks_expire now k secs K k' = K k'" and "ks_hset now k fvs K k' = K k'"
    and "ks_hincrby now k f n K k' = K k'" and "ks_sadd now k x K k' = K k'"
    and "ks_lpush now k x K k' = K k'" and "ks_ltrim now k a b K k' = K k'"
  using assms
  by (auto simp: ks_set_def ks_setex_def ks_del_def ks_expire_def ks_hset_def ks_hincrby_def
      ks_sadd_def ks_lpush_def ks_ltrim_def Let_def split: option.split prod.split rval.split)

lemma counter_val_show [simp]: "counter_val (Some (show_int i)) = Some i"
  by (simp add: counter_val_def)

lemma counter_val_None [simp]: "counter_val None = Some 0"
  by (simp add: counter_val_def)

lemma counters_Nil [simp]: "counters []"
  by (simp add: counters_def)

lemma counters_counter_val: "counters h \<Longrightarrow> counter_val (map_of h f) \<noteq> None"
  by (cases "map_of h f") (auto simp: counters_def list_all_iff dest: map_of_SomeD)

lemma counters_update: "counters h \<Longrightarrow> counters (AList.update f (show_int i) h)"
proof -
  assume h: "counters h"
  have "set (AList.update f (show_int i) h) \<subseteq> insert (f, show_int i) (set h)"
    by (induction h) auto
  moreover have "distinct (map fst (AList.update f (show_int i) h))"
    using h by (simp add: counters_def distinct_update)
  ultimately show ?thesis
    using h by (fastforce simp: counters_def list_all_iff)
qed

lemma counter_of_update: "counter_of (AList.update f (show_int i) h) g = (if g = f then i else counter_of h g)"
  by (simp add: counter_of_def update_conv')

lemma counter_of_Nil [simp]: "counter_of [] f = 0"
  by (simp add: counter_of_def)

lemma counter_key_field: "counter_key now K k \<Longrightarrow> counter_field now K k f"
  using counters_counter_val
  by (auto simp: counter_key_def counter_field_def split: option.splits prod.splits rval.splits)

text \<open>Incrementing a counter field adds to it, leaves the other fields, and keeps the deadline.\<close>

lemma live_hincrby:
  assumes "counter_field now K k f"
  obtains h where "live now (ks_hincrby now k f n K) k = Some (RHash h, key_deadline now K k)"
    and "map_of h = (map_of (ks_hash now K k))(f \<mapsto> show_int (hcount now K k f + n))"
    and "counter_key now K k \<Longrightarrow> counters h"
proof (cases "live now K k")
  case None
  have "live now (ks_hincrby now k f n K) k = Some (RHash [(f, show_int n)], None)"
    using None by (simp add: ks_hincrby_def ks_update_def hincrby_val_def live_def unexpired_def)
  moreover have "counters [(f, show_int n)]" by (simp add: counters_def)
  ultimately show ?thesis
    using None by (intro that [of "[(f, show_int n)]"]) (simp_all add: key_deadline_def hcount_def ks_hash_def)
next
  case (Some vd)
  then obtain h d where l: "live now K k = Some (RHash h, d)" and f: "counter_val (map_of h f) \<noteq> None"
    using assms by (cases vd; cases "fst vd") (auto simp: counter_field_def)
  obtain i where i: "counter_val (map_of h f) = Some i" using f by auto
  have d: "unexpired now d" using l by (auto simp: live_def split: option.splits if_splits)
  have "live now (ks_hincrby now k f n K) k = Some (RHash (AList.update f (show_int (i + n)) h), d)"
    using l i d by (simp add: ks_hincrby_def ks_update_def hincrby_val_def) (simp add: live_def)
  moreover have "i = hcount now K k f"
    using l i by (simp add: hcount_def ks_hash_def counter_of_def)
  moreover have "counters (AList.update f (show_int (i + n)) h)" if "counter_key now K k"
    using that l by (simp add: counter_key_def counters_update)
  ultimately show ?thesis
    using l by (intro that [of "AList.update f (show_int (i + n)) h"])
      (simp_all add: key_deadline_def ks_hash_def update_conv')
qed

lemma hash_hincrby:
  "counter_field now K k f \<Longrightarrow> map_of (ks_hash now (ks_hincrby now k f n K) k)
     = (map_of (ks_hash now K k))(f \<mapsto> show_int (hcount now K k f + n))"
  by (rule live_hincrby [where f = f and n = n]) (auto simp: ks_hash_def)

lemma hcount_hincrby:
  "counter_field now K k f \<Longrightarrow> hcount now (ks_hincrby now k f n K) k g = hcount now K k g + (if g = f then n else 0)"
  using hash_hincrby [of now K k f n] by (simp add: hcount_def counter_of_def)

lemma counter_key_hincrby:
  "counter_key now K k \<Longrightarrow> counter_key now (ks_hincrby now k f n K) k"
  by (rule live_hincrby [OF counter_key_field, where f = f and n = n]) (auto simp: counter_key_def)

lemma deadline_hincrby:
  "counter_field now K k f \<Longrightarrow> key_deadline now (ks_hincrby now k f n K) k = key_deadline now K k"
  by (rule live_hincrby [where f = f and n = n]) (auto simp: key_deadline_def)

lemma live_expire: "live t (ks_expire now k secs K) k =
   (case live now K k of
      None \<Rightarrow> live t K k
    | Some (v, d) \<Rightarrow> if t < now + 1000 * secs then Some (v, Some (now + 1000 * secs)) else None)"
  by (auto simp: ks_expire_def live_def unexpired_def split: option.split prod.split)

lemma ks_get_set: "ks_get now (ks_set k v K) k' = (if k' = k then Some v else ks_get now K k')"
  by (auto simp: ks_get_def ks_set_def live_def unexpired_def)

lemma ks_get_setex: "ks_get t (ks_setex now k secs v K) k' =
   (if k' = k then (if t < now + 1000 * secs then Some v else None) else ks_get t K k')"
  by (auto simp: ks_get_def ks_setex_def live_def unexpired_def)

lemma ks_get_del: "ks_get now (ks_del k K) k' = (if k' = k then None else ks_get now K k')"
  by (auto simp: ks_get_def ks_del_def live_def)

lemma ks_get_cong: "K k = K' k \<Longrightarrow> ks_get now K k = ks_get now K' k"
  by (simp add: ks_get_def live_def)

section \<open>A reference server\<close>

text \<open>
  The keyspace itself is a server that meets the contract, listing hashes and sets in the order
  of insertion.
\<close>

definition mem_redis :: "keyspace redis" where
  "mem_redis = \<lparr>
     rd_get = (\<lambda>now k K. ks_get now K k),
     rd_set = (\<lambda>now. ks_set),
     rd_setex = ks_setex,
     rd_del = (\<lambda>now. ks_del),
     rd_exists = (\<lambda>now k K. live now K k \<noteq> None),
     rd_expire = ks_expire,
     rd_hset = ks_hset,
     rd_hgetall = (\<lambda>now k K. AList.clearjunk (ks_hash now K k)),
     rd_hmget = (\<lambda>now k fs K. map (map_of (ks_hash now K k)) fs),
     rd_hincrby = (\<lambda>now k f n K. (hcount now K k f + n, ks_hincrby now k f n K)),
     rd_sadd = ks_sadd,
     rd_smembers = (\<lambda>now k K. remdups (ks_members now K k)),
     rd_lpush = ks_lpush,
     rd_ltrim = ks_ltrim,
     rd_lrange_all = (\<lambda>now k K. ks_list now K k) \<rparr>"

lemma mem_hgetall: "distinct (map fst (rd_hgetall mem_redis now k s))
    \<and> map_of (rd_hgetall mem_redis now k s) = map_of (ks_hash now s k)"
  by (simp add: mem_redis_def distinct_clearjunk map_of_clearjunk)

interpretation mem: redis_server mem_redis "\<lambda>K. K"
proof
  fix now k s
  show "distinct (map fst (rd_hgetall mem_redis now k s))
    \<and> map_of (rd_hgetall mem_redis now k s) = map_of (ks_hash now s k)"
    by (rule mem_hgetall)
qed (simp_all add: mem_redis_def)

end
