(* ===== verification/RedisService.thy ===== *)
theory RedisService
  imports Redis
begin

text \<open>
  The \<^verbatim>\<open>RedisService\<close> of src/src/integrations/redis/redis.service.ts: one refresh-token id per
  user and one hashed one-time password per email, each under its own key. The locales
  \<open>session_store\<close> and \<open>otp_store\<close> are what the authentication service relies on;
  \<open>auth_store\<close> adds that the two do not disturb each other. Every Redis server
  provides them through the definitions of this theory. The section on key families shows that
  the keys the different components write never coincide.
\<close>

section \<open>The service\<close>

definition getKey :: "string \<Rightarrow> string" where
  "getKey userId = ''user-'' @ userId"

definition otpKey :: "string \<Rightarrow> string" where
  "otpKey email = ''otp:'' @ email"

definition session_insert :: "'s redis \<Rightarrow> int \<Rightarrow> string \<Rightarrow> string \<Rightarrow> 's \<Rightarrow> 's" where
  "session_insert R now userId tokenId s = rd_set R now (getKey userId) tokenId s"

text \<open>The comparison is \<^verbatim>\<open>===\<close>: an undefined token id equals no stored token and not null.\<close>

definition session_validate :: "'s redis \<Rightarrow> int \<Rightarrow> string \<Rightarrow> string option \<Rightarrow> 's \<Rightarrow> bool" where
  "session_validate R now userId tokenId s =
     (case rd_get R now (getKey userId) s of
        None \<Rightarrow> False
      | Some storedToken \<Rightarrow> tokenId = Some storedToken)"

definition inValidate :: "'s redis \<Rightarrow> int \<Rightarrow> string \<Rightarrow> 's \<Rightarrow> 's" where
  "inValidate R now userId s = rd_del R now (getKey userId) s"

definition setOtp :: "'s redis \<Rightarrow> int \<Rightarrow> string \<Rightarrow> string \<Rightarrow> 's \<Rightarrow> 's" where
  "setOtp R now email hashedOtp s = rd_setex R now (otpKey email) 600 hashedOtp s"

definition getOtp :: "'s redis \<Rightarrow> int \<Rightarrow> string \<Rightarrow> 's \<Rightarrow> string option" where
  "getOtp R now email s = rd_get R now (otpKey email) s"

definition invalidateOtp :: "'s redis \<Rightarrow> int \<Rightarrow> string \<Rightarrow> 's \<Rightarrow> 's" where
  "invalidateOtp R now email s = rd_del R now (otpKey email) s"

section \<open>Key families\<close>

text \<open>
  The keys of the other components: the usage hash of an API key
  (\<^verbatim>\<open>api-key-usage.service.ts\<close>), the metric buckets and the activity stamp
  (\<^verbatim>\<open>metrics-aggregation.service.ts\<close>).
\<close>

definition getKeyName :: "string \<Rightarrow> string" where
  "getKeyName apiKeyId = ''api_key:'' @ apiKeyId"

definition metrics_prefix :: string where
  "metrics_prefix = ''metrics:''"

lemma getKey_inject [simp]: "getKey u = getKey v \<longleftrightarrow> u = v"
  by (simp add: getKey_def)

lemma otpKey_inject [simp]: "otpKey u = otpKey v \<longleftrightarrow> u = v"
  by (simp add: otpKey_def)

lemma getKeyName_inject [simp]: "getKeyName u = getKeyName v \<longleftrightarrow> u = v"
  by (simp add: getKeyName_def)

lemma key_families_disjoint [simp]:
  "getKey u \<noteq> otpKey e" "otpKey e \<noteq> getKey u"
  "getKey u \<noteq> getKeyName a" "getKeyName a \<noteq> getKey u"
  "otpKey e \<noteq> getKeyName a" "getKeyName a \<noteq> otpKey e"
  "getKey u \<noteq> metrics_prefix @ m" "metrics_prefix @ m \<noteq> getKey u"
  "otpKey e \<noteq> metrics_prefix @ m" "metrics_prefix @ m \<noteq> otpKey e"
  "getKeyName a \<noteq> metrics_prefix @ m" "metrics_prefix @ m \<noteq> getKeyName a"
  by (simp_all add: getKey_def otpKey_def getKeyName_def metrics_prefix_def)

section \<open>The contracts\<close>

locale session_store =
  fixes ins :: "int \<Rightarrow> string \<Rightarrow> string \<Rightarrow> 's \<Rightarrow> 's"
    and val :: "int \<Rightarrow> string \<Rightarrow> string option \<Rightarrow> 's \<Rightarrow> bool"
    and inv :: "int \<Rightarrow> string \<Rightarrow> 's \<Rightarrow> 's"
  assumes val_ins: "val now u' t' (ins now' u t s) = (if u' = u then t' = Some t else val now u' t' s)"
    and val_inv: "val now u' t' (inv now' u s) = (u' \<noteq> u \<and> val now u' t' s)"
    and val_some: "val now u x s \<Longrightarrow> x \<noteq> None"
    and val_unique: "val now u x s \<Longrightarrow> val now u y s \<Longrightarrow> y = x"
begin

text \<open>Replacing the token of a user: the new one is the only valid one afterwards.\<close>

lemma rotate:
  "val now u' t' (ins now' u t (inv now'' u s)) = (if u' = u then t' = Some t else val now u' t' s)"
  by (simp add: val_ins val_inv)

lemma rotate_replay:
  assumes "val now u (Some t) s" and "t' \<noteq> t"
  shows "\<not> val now2 u (Some t) (ins now1 u t' (inv now1 u s))"
  using assms by (simp add: rotate)

end

locale otp_store =
  fixes set_otp :: "int \<Rightarrow> string \<Rightarrow> string \<Rightarrow> 's \<Rightarrow> 's"
    and get_otp :: "int \<Rightarrow> string \<Rightarrow> 's \<Rightarrow> string option"
    and inv_otp :: "int \<Rightarrow> string \<Rightarrow> 's \<Rightarrow> 's"
  assumes get_set: "get_otp t e' (set_otp now e h s)
        = (if e' = e then (if t < now + 600000 then Some h else None) else get_otp t e' s)"
    and get_inv: "get_otp t e' (inv_otp now e s) = (if e' = e then None else get_otp t e' s)"
begin

lemma get_reset: "get_otp t e (set_otp now e h (inv_otp now' e' s)) = (if t < now + 600000 then Some h else None)"
  by (simp add: get_set)

end

locale auth_store = session_store ins val inv + otp_store set_otp get_otp inv_otp
  for ins :: "int \<Rightarrow> string \<Rightarrow> string \<Rightarrow> 's \<Rightarrow> 's"
    and val :: "int \<Rightarrow> string \<Rightarrow> string option \<Rightarrow> 's \<Rightarrow> bool"
    and inv :: "int \<Rightarrow> string \<Rightarrow> 's \<Rightarrow> 's"
    and set_otp :: "int \<Rightarrow> string \<Rightarrow> string \<Rightarrow> 's \<Rightarrow> 's"
    and get_otp :: "int \<Rightarrow> string \<Rightarrow> 's \<Rightarrow> string option"
    and inv_otp :: "int \<Rightarrow> string \<Rightarrow> 's \<Rightarrow> 's" +
  assumes val_set_otp: "val t u x (set_otp now e h s) = val t u x s"
    and val_inv_otp: "val t u x (inv_otp now e s) = val t u x s"
    and get_otp_ins: "get_otp t e (ins now u tok s) = get_otp t e s"
    and get_otp_inv: "get_otp t e (inv now u s) = get_otp t e s"
begin

lemmas auth_store_simps =
  val_ins val_inv get_set get_inv val_set_otp val_inv_otp get_otp_ins get_otp_inv

end

lemmas service_defs =
  session_insert_def session_validate_def inValidate_def setOtp_def getOtp_def invalidateOtp_def

sublocale redis_server \<subseteq> store: auth_store "session_insert R" "session_validate R" "inValidate R"
    "setOtp R" "getOtp R" "invalidateOtp R"
  by unfold_locales
    (auto simp: service_defs ks_simps ks_get_set ks_get_setex ks_get_del split: option.splits)

end
