(* ===== verification/Jwt.thy ===== *)
theory Jwt
  imports JS
begin

text \<open>
  Token signing and verification (\<^verbatim>\<open>@nestjs/jwt\<close>) as a parameter, the configuration of
  src/src/iam/config/jwt.config.ts, and the contract \<open>jwt_service\<close>: a signed token verifies
  under the same parameters to its own claims until its expiry, fails afterwards, and always
  stands for the same claims. Times are milliseconds, tokens carry whole seconds.
\<close>

record claims =
  c_sub :: string
  c_email :: "string option"
  c_role :: "string option"
  c_refreshTokenId :: "string option"

record jwt_params =
  jp_secret :: "string option"
  jp_audience :: "string option"
  jp_issuer :: "string option"

record jwt_config = jwt_params +
  accessTokenTtl :: "int jsnum"
  refreshTokenTtl :: "int jsnum"

text \<open>The configuration read from the process environment.\<close>

definition jwtConfig :: "(string \<rightharpoonup> string) \<Rightarrow> jwt_config" where
  "jwtConfig env = \<lparr>
     jp_secret = env ''JWT_SECRET'',
     jp_audience = env ''JWT_TOKEN_AUDIENCE'',
     jp_issuer = env ''JWT_TOKEN_ISSUER'',
     accessTokenTtl = parseInt10 (case env ''JWT_ACCESS_TOKEN_TTL'' of None \<Rightarrow> ''3600'' | Some v \<Rightarrow> v),
     refreshTokenTtl = parseInt10 (case env ''JWT_REFRESH_TOKEN_TTL'' of None \<Rightarrow> ''86400'' | Some v \<Rightarrow> v) \<rparr>"

record jwt =
  jw_sign :: "jwt_params \<Rightarrow> int jsnum \<Rightarrow> int \<Rightarrow> claims \<Rightarrow> string result"
  jw_verify :: "jwt_params \<Rightarrow> int \<Rightarrow> string \<Rightarrow> claims result"

locale jwt_service =
  fixes J :: jwt
  assumes verify_signed: "jw_sign J P (Num ttl) now c = Inr tok \<Longrightarrow> t div 1000 < now div 1000 + ttl
        \<Longrightarrow> jw_verify J P t tok = Inr c"
    and verify_expired: "jw_sign J P (Num ttl) now c = Inr tok \<Longrightarrow> now div 1000 + ttl \<le> t div 1000
        \<Longrightarrow> jw_verify J P t tok = Inl (JsError ''jwt expired'')"
    and verify_stable: "jw_verify J P t tok = Inr c \<Longrightarrow> jw_verify J P t' tok = Inr c' \<Longrightarrow> c' = c"
    and sign_NaN: "isl (jw_sign J P NaN now c)"

text \<open>
  A reference signer: the token lists the expiry and the claims, length-prefixed.
\<close>

definition enc_field :: "string \<Rightarrow> string" where
  "enc_field s = replicate (length s) CHR ''1'' @ CHR ''0'' # s"

definition dec_field :: "string \<Rightarrow> (string \<times> string) option" where
  "dec_field t = (let n = length (takeWhile (\<lambda>c. c = CHR ''1'') t); r = drop (Suc n) t in
     if n < length t \<and> n \<le> length r then Some (take n r, drop n r) else None)"

definition enc_opt :: "string option \<Rightarrow> string" where
  "enc_opt x = (case x of None \<Rightarrow> enc_field [] | Some s \<Rightarrow> enc_field (CHR ''s'' # s))"

definition dec_opt :: "string \<Rightarrow> (string option \<times> string) option" where
  "dec_opt t = (case dec_field t of None \<Rightarrow> None
     | Some (s, r) \<Rightarrow> Some (case s of [] \<Rightarrow> None | c # cs \<Rightarrow> Some cs, r))"

definition enc_token :: "int \<Rightarrow> claims \<Rightarrow> string" where
  "enc_token e c = enc_field (show_int e) @ enc_field (c_sub c) @ enc_opt (c_email c)
     @ enc_opt (c_role c) @ enc_opt (c_refreshTokenId c)"

definition dec_token :: "string \<Rightarrow> (int \<times> claims) option" where
  "dec_token t0 = (case dec_field t0 of None \<Rightarrow> None | Some (e, t1) \<Rightarrow>
     (case dec_field t1 of None \<Rightarrow> None | Some (sub, t2) \<Rightarrow>
     (case dec_opt t2 of None \<Rightarrow> None | Some (em, t3) \<Rightarrow>
     (case dec_opt t3 of None \<Rightarrow> None | Some (ro, t4) \<Rightarrow>
     (case dec_opt t4 of None \<Rightarrow> None | Some (rf, t5) \<Rightarrow>
       Some (num_val (parseInt10 e),
         \<lparr>c_sub = sub, c_email = em, c_role = ro, c_refreshTokenId = rf\<rparr>))))))"

lemma dec_enc_field [simp]: "dec_field (enc_field s @ t) = Some (s, t)"
proof -
  have "takeWhile (\<lambda>c. c = CHR ''1'') (replicate (length s) CHR ''1'' @ CHR ''0'' # s @ t)
      = replicate (length s) CHR ''1''"
    by (simp add: takeWhile_append)
  then show ?thesis by (simp add: dec_field_def enc_field_def)
qed

lemma dec_enc_field_end [simp]: "dec_field (enc_field s) = Some (s, [])"
  using dec_enc_field [of s "[]"] by simp

lemma dec_enc_opt [simp]: "dec_opt (enc_opt x @ t) = Some (x, t)" "dec_opt (enc_opt x) = Some (x, [])"
  by (auto simp: dec_opt_def enc_opt_def split: option.split)

lemma dec_enc_token [simp]: "dec_token (enc_token e c) = Some (e, c)"
  by (simp add: dec_token_def enc_token_def)

definition mem_jwt :: jwt where
  "mem_jwt = \<lparr>
     jw_sign = (\<lambda>P ttl now c. case ttl of
         NaN \<Rightarrow> Inl (JsError ''expiresIn'') | Num n \<Rightarrow> Inr (enc_token (now div 1000 + n) c)),
     jw_verify = (\<lambda>P t tok. case dec_token tok of
         None \<Rightarrow> Inl (JsError ''jwt malformed'')
       | Some (e, c) \<Rightarrow> if t div 1000 < e then Inr c else Inl (JsError ''jwt expired'')) \<rparr>"

interpretation memj: jwt_service mem_jwt
  by unfold_locales (auto simp: mem_jwt_def split: option.splits if_splits)

end
