(* ===== verification/MailText.thy ===== *)
theory MailText
  imports Prelude
begin

text \<open>
  The HTML text of the verification mail, src/src/iam/email-templates/verify-email.templete.ts: the literal around its two
  arguments, line by line. The two emoji are given by their bytes in UTF-8.
\<close>

fun lines_text :: "string list \<Rightarrow> string" where
  "lines_text [] = []"
| "lines_text [l] = l"
| "lines_text (l # k # ls) = l @ CHR 0x0A # lines_text (k # ls)"

definition html_greeting :: string where
  "html_greeting = lines_text
    [[],
     ''    <div style=\"max-width: 500px; margin: 0 auto; font-family: -apple-system, BlinkMacSystemFont, 'Segoe UI', sans-serif; color: #333; line-height: 1.6;\">'',
     ''      '',
     ''      <!-- Header -->'',
     ''      <div style=\"text-align: center; padding: 40px 20px 30px; background: #4CAF50; border-radius: 8px 8px 0 0;\">'',
     ''        <h1 style=\"color: white; margin: 0; font-size: 24px; font-weight: 600;\">Welcome to Eventify! '' @ [CHR 0xF0, CHR 0x9F, CHR 0x8E, CHR 0x89] @ ''</h1>'',
     ''      </div>'',
     [],
     ''      <!-- Content -->'',
     ''      <div style=\"padding: 30px 20px; background: white; border: 1px solid #e0e0e0; border-top: none; border-radius: 0 0 8px 8px;\">'',
     ''        <h2 style=\"color: #333; margin: 0 0 15px; font-size: 20px;\">Hi '']"

definition html_before_code :: string where
  "html_before_code = lines_text
    ['',</h2>'',
     ''        '',
     ''        <p style=\"margin: 0 0 25px; color: #555;\">Thanks for signing up! Please verify your email address to activate your account and start creating amazing events.</p>'',
     ''        '',
     ''        <!-- OTP Code -->'',
     ''        <div style=\"text-align: center; margin: 30px 0;\">'',
     ''          <p style=\"margin: 0 0 15px; color: #333; font-size: 16px; font-weight: 600;\">Your verification code:</p>'',
     ''          <div style=\"display: inline-block; '',
     ''                      background: #f8f9fa; '',
     ''                      border: 2px solid #4CAF50; '',
     ''                      padding: 20px 30px; '',
     ''                      border-radius: 8px; '',
     ''                      font-size: 28px; '',
     ''                      font-weight: 700; '',
     ''                      color: #4CAF50; '',
     ''                      letter-spacing: 8px; '',
     ''                      font-family: 'Courier New', monospace;\">'',
     ''            '']"

definition html_after_code :: string where
  "html_after_code = lines_text
    [[],
     ''          </div>'',
     ''          <p style=\"margin: 15px 0 0; color: #e53e3e; font-size: 14px; font-weight: 600;\">'',
     ''            '' @ [CHR 0xE2, CHR 0x8F, CHR 0xB0] @ '' This code expires in 10 minutes'',
     ''          </p>'',
     ''        </div>'',
     [],
     ''        <p style=\"margin: 20px 0; color: #666; font-size: 14px; text-align: center;\">'',
     ''          Enter this code in the verification form to complete your registration.'',
     ''        </p>'',
     [],
     ''        <hr style=\"border: none; border-top: 1px solid #eee; margin: 25px 0;\">'',
     ''        '',
     ''        <p style=\"margin: 0; color: #888; font-size: 12px;\">'',
     ''          If you didn't create this account, you can ignore this email.<br>'',
     ''          This is an automated message, please don't reply.'',
     ''        </p>'',
     ''      </div>'',
     ''    </div>'',
     ''  '']"

definition verification_html :: "string \<Rightarrow> string \<Rightarrow> string" where
  "verification_html username otp = html_greeting @ username @ html_before_code @ otp @ html_after_code"

end
