(* ===== verification/Auth.thy ===== *)
theory Auth
  imports Users RedisService Jwt MailText
begin

text \<open>
  The authentication service of src/src/iam/authentication/authentication.service.ts: sign-up,
  the one-time password by email, sign-in, and the rotation of refresh tokens. Its collaborators
  are gathered in \<open>auth_env\<close> (Redis, the user collection, bcrypt, the token service, SHA-256) and
  its state in \<open>auth_state\<close> (the Redis server, the collection, the notification queue). Random
  values are arguments: the one-time password, the refresh-token id, the bcrypt salt.
\<close>

section \<open>State and collaborators\<close>

record mail_job =
  mj_to :: string
  mj_subject :: string
  mj_html :: string

record ('s, 'u) auth_env =
  ae_redis :: "'s redis"
  ae_users :: "'u user_model"
  ae_hash :: "string \<Rightarrow> string \<Rightarrow> string"
  ae_compare :: "string \<Rightarrow> string \<Rightarrow> bool"
  ae_sha256 :: "string \<Rightarrow> string"
  ae_jwt :: jwt
  ae_config :: jwt_config

record ('s, 'u) auth_state =
  as_redis :: 's
  as_users :: 'u
  as_mails :: "mail_job list"

record signup_dto =
  su_name :: string
  su_email :: string
  su_password :: string

record token_pair =
  accessToken :: string
  refreshToken :: string

datatype otp_response =
    Message string
  | SentTo string string
  | Verified string

section \<open>Helpers\<close>

definition generateOtpHash :: "('s, 'u) auth_env \<Rightarrow> string \<Rightarrow> string" where
  "generateOtpHash E otp = ae_sha256 E otp"

text \<open>\<^verbatim>\<open>crypto.randomInt(100000, 999999)\<close> yields \<open>rnd\<close>: at least the first bound, below the second.\<close>

definition otp_range :: "int \<Rightarrow> bool" where
  "otp_range rnd = (100000 \<le> rnd \<and> rnd < 999999)"

definition generateFullOtp :: "('s, 'u) auth_env \<Rightarrow> int \<Rightarrow> string \<times> string" where
  "generateFullOtp E rnd = (let otp = show_int rnd in (otp, generateOtpHash E otp))"

text \<open>The job of the verification mail.\<close>

definition generateVerifyAccountEmailTemplate :: "string \<Rightarrow> string \<Rightarrow> string \<Rightarrow> mail_job" where
  "generateVerifyAccountEmailTemplate to username otp =
     \<lparr>mj_to = to,
      mj_subject = ''Welcome to Eventify, '' @ username @ ''! Please Verify Your Email'',
      mj_html = verification_html username otp\<rparr>"

definition signToken ::
  "('s, 'u) auth_env \<Rightarrow> int \<Rightarrow> int jsnum \<Rightarrow> claims \<Rightarrow> string result" where
  "signToken E now expiresIn payload =
     jw_sign (ae_jwt E) (jwt_params.truncate (ae_config E)) expiresIn now payload"

definition verifyToken :: "('s, 'u) auth_env \<Rightarrow> int \<Rightarrow> string \<Rightarrow> claims result" where
  "verifyToken E now tok = jw_verify (ae_jwt E) (jwt_params.truncate (ae_config E)) now tok"

definition generateTokens ::
  "('s, 'u) auth_env \<Rightarrow> int \<Rightarrow> string \<Rightarrow> user \<Rightarrow> ('s, 'u) auth_state \<Rightarrow> token_pair result \<times> ('s, 'u) auth_state" where
  "generateTokens E now refreshTokenId user st =
     (case signToken E now (accessTokenTtl (ae_config E))
             \<lparr>c_sub = u_id user, c_email = Some (u_email user),
              c_role = Some (if u_role user = [] then ''user'' else u_role user),
              c_refreshTokenId = None\<rparr> of
        Inl e \<Rightarrow> (Inl e, st)
      | Inr access \<Rightarrow>
     (case signToken E now (refreshTokenTtl (ae_config E))
             \<lparr>c_sub = u_id user, c_email = None, c_role = None,
              c_refreshTokenId = Some refreshTokenId\<rparr> of
        Inl e \<Rightarrow> (Inl e, st)
      | Inr refresh \<Rightarrow>
          (Inr \<lparr>accessToken = access, refreshToken = refresh\<rparr>,
           st\<lparr>as_redis := session_insert (ae_redis E) now (u_id user) refreshTokenId (as_redis st)\<rparr>)))"

section \<open>The operations\<close>

definition singUp ::
  "('s, 'u) auth_env \<Rightarrow> int \<Rightarrow> string \<Rightarrow> int \<Rightarrow> signup_dto \<Rightarrow> ('s, 'u) auth_state
     \<Rightarrow> user result \<times> ('s, 'u) auth_state" where
  "singUp E now salt rnd dto st =
     (case findByEmail (ae_users E) (su_email dto) (as_users st) of
        Inl e \<Rightarrow> (Inl e, st)
      | Inr (Some existingUser) \<Rightarrow> (Inl (HttpException Conflict ''Email already exists''), st)
      | Inr None \<Rightarrow>
          (case createUser (ae_users E)
                  \<lparr>iu_name = su_name dto, iu_email = su_email dto,
                   iu_password = ae_hash E salt (su_password dto)\<rparr> (as_users st) of
             (Inl e, us) \<Rightarrow> (Inl e, st\<lparr>as_users := us\<rparr>)
           | (Inr newUser, us) \<Rightarrow>
               (let (otp, hashedOtp) = generateFullOtp E rnd in
                (Inr newUser,
                 st\<lparr>as_users := us,
                    as_redis := setOtp (ae_redis E) now (u_email newUser) hashedOtp (as_redis st),
                    as_mails := as_mails st
                      @ [generateVerifyAccountEmailTemplate (u_email newUser) (u_name newUser) otp]\<rparr>))))"

definition resendOtp ::
  "('s, 'u) auth_env \<Rightarrow> int \<Rightarrow> int \<Rightarrow> string \<Rightarrow> ('s, 'u) auth_state
     \<Rightarrow> otp_response result \<times> ('s, 'u) auth_state" where
  "resendOtp E now rnd email st =
     (case findByEmail (ae_users E) email (as_users st) of
        Inl e \<Rightarrow> (Inl e, st)
      | Inr None \<Rightarrow> (Inl (HttpException NotFound ''No account found with this email address''), st)
      | Inr (Some user) \<Rightarrow>
          if isEmailVerified user then (Inr (Message ''Email is already verified''), st)
          else
            (let haveValidOtp = getOtp (ae_redis E) now email (as_redis st);
                 r1 = (if haveValidOtp \<noteq> None \<and> haveValidOtp \<noteq> Some []
                       then invalidateOtp (ae_redis E) now email (as_redis st) else as_redis st);
                 (otp, hashedOtp) = generateFullOtp E rnd
             in (Inr (SentTo ''Verification code sent successfully'' (u_email user)),
                 st\<lparr>as_redis := setOtp (ae_redis E) now (u_email user) hashedOtp r1,
                    as_mails := as_mails st
                      @ [generateVerifyAccountEmailTemplate (u_email user) (u_name user) otp]\<rparr>)))"

definition verifyEmail ::
  "('s, 'u) auth_env \<Rightarrow> int \<Rightarrow> string \<Rightarrow> string \<Rightarrow> ('s, 'u) auth_state
     \<Rightarrow> otp_response result \<times> ('s, 'u) auth_state" where
  "verifyEmail E now otp email st =
     (case findByEmail (ae_users E) email (as_users st) of
        Inl e \<Rightarrow> (Inl e, st)
      | Inr None \<Rightarrow> (Inl (HttpException NotFound ''No account found with this email address''), st)
      | Inr (Some user) \<Rightarrow>
          if isEmailVerified user then (Inr (Message ''Email is already verified''), st)
          else
            (let storedHashedOtp = getOtp (ae_redis E) now (u_email user) (as_redis st) in
             if storedHashedOtp = None \<or> storedHashedOtp = Some []
             then (Inl (HttpException Unauthorized
                     ''Verification code has expired. Please request a new one''), st)
             else if storedHashedOtp \<noteq> Some (generateOtpHash E otp)
             then (Inl (HttpException Unauthorized
                     ''Invalid verification code. Please check and try again''), st)
             else
               (let st1 = st\<lparr>as_redis := invalidateOtp (ae_redis E) now email (as_redis st)\<rparr> in
                case updateEmailVerificationStatus (ae_users E) (u_email user) True (as_users st1) of
                  (Inl e, us) \<Rightarrow> (Inl e, st1\<lparr>as_users := us\<rparr>)
                | (Inr _, us) \<Rightarrow> (Inr (Verified ''Email verified successfully''), st1\<lparr>as_users := us\<rparr>))))"

definition singIn ::
  "('s, 'u) auth_env \<Rightarrow> int \<Rightarrow> string \<Rightarrow> string \<Rightarrow> string \<Rightarrow> ('s, 'u) auth_state
     \<Rightarrow> token_pair result \<times> ('s, 'u) auth_state" where
  "singIn E now uuid email password st =
     (case findByEmail (ae_users E) email (as_users st) of
        Inl e \<Rightarrow> (Inl e, st)
      | Inr None \<Rightarrow> (Inl (HttpException Conflict ''Invalid email or password''), st)
      | Inr (Some existingUser) \<Rightarrow>
          if \<not> ae_compare E password (u_password existingUser)
          then (Inl (HttpException Conflict ''Invalid email or password''), st)
          else if \<not> isEmailVerified existingUser
          then (Inl (HttpException Unauthorized
            ''Email verification required. Please check your email and enter the verification code to access your account.''), st)
          else generateTokens E now uuid existingUser st)"

text \<open>
  The \<^verbatim>\<open>try\<close> of \<^verbatim>\<open>refreshToken\<close> turns every error raised before its \<^verbatim>\<open>return\<close> into a bad
  request. The returned \<^verbatim>\<open>generateTokens\<close> promise is not awaited inside it, so its errors pass.
\<close>

definition to_bad_request :: "exn \<Rightarrow> exn" where
  "to_bad_request e = HttpException BadRequest (exn_message e)"

definition refreshTokens ::
  "('s, 'u) auth_env \<Rightarrow> int \<Rightarrow> string \<Rightarrow> string \<Rightarrow> ('s, 'u) auth_state
     \<Rightarrow> token_pair result \<times> ('s, 'u) auth_state" where
  "refreshTokens E now uuid tok st =
     (case verifyToken E now tok of
        Inl e \<Rightarrow> (Inl (to_bad_request e), st)
      | Inr c \<Rightarrow>
     (case findById (ae_users E) (c_sub c) (as_users st) of
        Inl e \<Rightarrow> (Inl (to_bad_request e), st)
      | Inr None \<Rightarrow> (Inl (to_bad_request (HttpException BadRequest
             ''we can not find a user with this refresh token'')), st)
      | Inr (Some user) \<Rightarrow>
          if \<not> session_validate (ae_redis E) now (u_id user) (c_refreshTokenId c) (as_redis st)
          then (Inl (to_bad_request (HttpException Unauthorized ''Refresh token is invalid'')), st)
          else generateTokens E now uuid user
                 (st\<lparr>as_redis := inValidate (ae_redis E) now (u_id user) (as_redis st)\<rparr>)))"

end
