(* ===== verification/AuthProps.thy ===== *)
theory AuthProps
  imports Auth
begin

text \<open>
  What the authentication service guarantees, for every environment that meets the contracts of
  its collaborators (\<open>auth_service\<close>): one lemma per operation on every branch, the step relation
  of the service with the invariant that only verified accounts hold a session, the life cycle
  of a one-time password, and the rotation of refresh tokens.
\<close>

section \<open>The contract of the collaborators\<close>

locale auth_service = redis_server "ae_redis E" ks + user_collection "ae_users E" docs
    + jwt_service "ae_jwt E"
  for E :: "('s, 'u) auth_env" and ks :: "'s \<Rightarrow> keyspace" and docs :: "'u \<Rightarrow> user list"

section \<open>Branches of the operations\<close>

lemma generateTokens_Inr:
  assumes "generateTokens E now uuid user st = (Inr p, st')"
  shows "st' = st\<lparr>as_redis := session_insert (ae_redis E) now (u_id user) uuid (as_redis st)\<rparr>"
    and "signToken E now (refreshTokenTtl (ae_config E))
       \<lparr>c_sub = u_id user, c_email = None, c_role = None, c_refreshTokenId = Some uuid\<rparr> = Inr (refreshToken p)"
    and "signToken E now (accessTokenTtl (ae_config E))
       \<lparr>c_sub = u_id user, c_email = Some (u_email user),
        c_role = Some (if u_role user = [] then ''user'' else u_role user),
        c_refreshTokenId = None\<rparr> = Inr (accessToken p)"
  using assms by (auto simp: generateTokens_def split: sum.splits)

lemma generateTokens_Inl: "generateTokens E now uuid user st = (Inl e, st') \<Longrightarrow> st' = st"
  by (auto simp: generateTokens_def split: sum.splits)

lemma singUp_cases:
  assumes "singUp E now salt rnd dto st = (r, st')"
  obtains (failed) e us where "r = Inl e" and "st' = st\<lparr>as_users := us\<rparr>"
      and "us = as_users st \<or> (\<exists>nu. createUser (ae_users E) nu (as_users st) = (Inl e, us))"
  | (created) nu us d where "r = Inr d" and "createUser (ae_users E) nu (as_users st) = (Inr d, us)"
      and "st' = st\<lparr>as_users := us,
             as_redis := setOtp (ae_redis E) now (u_email d) (generateOtpHash E (show_int rnd)) (as_redis st),
             as_mails := as_mails st @ [generateVerifyAccountEmailTemplate (u_email d) (u_name d) (show_int rnd)]\<rparr>"
proof (cases "findByEmail (ae_users E) (su_email dto) (as_users st) = Inr None")
  case False
  with assms show ?thesis
    by (intro failed [of "projl r" "as_users st"]) (auto simp: singUp_def split: sum.splits option.splits)
next
  case True
  let ?nu = "\<lparr>iu_name = su_name dto, iu_email = su_email dto, iu_password = ae_hash E salt (su_password dto)\<rparr>"
  obtain x us where c: "createUser (ae_users E) ?nu (as_users st) = (x, us)"
    by (cases "createUser (ae_users E) ?nu (as_users st)")
  show ?thesis
  proof (cases x)
    case (Inl e)
    with assms True c show ?thesis by (intro failed [of e us]) (auto simp: singUp_def)
  next
    case (Inr d)
    with assms True c show ?thesis
      by (intro created [of d ?nu us]) (auto simp: singUp_def generateFullOtp_def Let_def)
  qed
qed

lemma resendOtp_cases:
  assumes "resendOtp E now rnd email st = (r, st')"
  obtains (unchanged) "st' = st" and "\<nexists>m e. r = Inr (SentTo m e)"
  | (sent) user r1 where "findByEmail (ae_users E) email (as_users st) = Inr (Some user)"
      and "\<not> isEmailVerified user"
      and "r = Inr (SentTo ''Verification code sent successfully'' (u_email user))"
      and "r1 = as_redis st \<or> r1 = invalidateOtp (ae_redis E) now email (as_redis st)"
      and "st' = st\<lparr>as_redis := setOtp (ae_redis E) now (u_email user) (generateOtpHash E (show_int rnd)) r1,
             as_mails := as_mails st @ [generateVerifyAccountEmailTemplate (u_email user) (u_name user) (show_int rnd)]\<rparr>"
  using assms
  by (fastforce simp: resendOtp_def generateFullOtp_def Let_def
      split: sum.splits option.splits prod.splits if_splits intro: that)

lemma verifyEmail_cases:
  assumes "verifyEmail E now otp email st = (r, st')"
  obtains (unchanged) "st' = st" and "\<nexists>m. r = Inr (Verified m)"
  | (accepted) user us x where "findByEmail (ae_users E) email (as_users st) = Inr (Some user)"
      and "\<not> isEmailVerified user"
      and "getOtp (ae_redis E) now (u_email user) (as_redis st) = Some (generateOtpHash E otp)"
      and "updateEmailVerificationStatus (ae_users E) (u_email user) True (as_users st) = (x, us)"
      and "r = (case x of Inl e \<Rightarrow> Inl e | Inr _ \<Rightarrow> Inr (Verified ''Email verified successfully''))"
      and "st' = st\<lparr>as_redis := invalidateOtp (ae_redis E) now email (as_redis st), as_users := us\<rparr>"
proof (cases "findByEmail (ae_users E) email (as_users st)")
  case (Inl e)
  with assms show ?thesis by (intro unchanged) (auto simp: verifyEmail_def)
next
  case (Inr uo)
  show ?thesis
  proof (cases "\<exists>user. uo = Some user \<and> \<not> isEmailVerified user
      \<and> getOtp (ae_redis E) now (u_email user) (as_redis st) = Some (generateOtpHash E otp)
      \<and> generateOtpHash E otp \<noteq> []")
    case True
    then obtain user where u: "uo = Some user" "\<not> isEmailVerified user"
      "getOtp (ae_redis E) now (u_email user) (as_redis st) = Some (generateOtpHash E otp)"
      "generateOtpHash E otp \<noteq> []" by auto
    obtain x us where x: "updateEmailVerificationStatus (ae_users E) (u_email user) True (as_users st) = (x, us)"
      by (cases "updateEmailVerificationStatus (ae_users E) (u_email user) True (as_users st)")
    show ?thesis
      using assms Inr u x
      by (intro accepted [of user x us]) (auto simp: verifyEmail_def Let_def split: sum.splits)
  next
    case False
    with assms Inr show ?thesis
      by (intro unchanged) (auto simp: verifyEmail_def Let_def split: option.splits if_splits)
  qed
qed

lemma singIn_cases:
  assumes "singIn E now uuid email password st = (r, st')"
  obtains (refused) e where "r = Inl e" and "st' = st"
  | (granted) user p where "findByEmail (ae_users E) email (as_users st) = Inr (Some user)"
      and "isEmailVerified user" and "ae_compare E password (u_password user)"
      and "r = Inr p" and "generateTokens E now uuid user st = (Inr p, st')"
  using assms
  by (cases r) (fastforce simp: singIn_def dest: generateTokens_Inl
      split: sum.splits option.splits if_splits intro: that)+

lemma refreshTokens_cases:
  assumes "refreshTokens E now uuid tok st = (r, st')"
  obtains (refused) m where "r = Inl (HttpException BadRequest m)" and "st' = st"
  | (session) c user where "verifyToken E now tok = Inr c"
      and "findById (ae_users E) (c_sub c) (as_users st) = Inr (Some user)"
      and "session_validate (ae_redis E) now (u_id user) (c_refreshTokenId c) (as_redis st)"
      and "generateTokens E now uuid user
             (st\<lparr>as_redis := inValidate (ae_redis E) now (u_id user) (as_redis st)\<rparr>) = (r, st')"
  using assms
  by (fastforce simp: refreshTokens_def to_bad_request_def
      split: sum.splits option.splits if_splits intro: that)

section \<open>The service as a state machine\<close>

text \<open>
  One step is one request, at any time and with any input, whatever its outcome; \<open>U\<close> is the set
  of values \<^verbatim>\<open>randomUUID\<close> yields for the token ids of these steps.
\<close>

inductive auth_step ::
  "('s, 'u) auth_env \<Rightarrow> string set \<Rightarrow> ('s, 'u) auth_state \<Rightarrow> ('s, 'u) auth_state \<Rightarrow> bool" for E U where
  step_singUp: "singUp E now salt rnd dto st = (r, st') \<Longrightarrow> auth_step E U st st'"
| step_resendOtp: "resendOtp E now rnd email st = (r, st') \<Longrightarrow> auth_step E U st st'"
| step_verifyEmail: "verifyEmail E now otp email st = (r, st') \<Longrightarrow> auth_step E U st st'"
| step_singIn: "uuid \<in> U \<Longrightarrow> singIn E now uuid email password st = (r, st') \<Longrightarrow> auth_step E U st st'"
| step_refresh: "uuid \<in> U \<Longrightarrow> refreshTokens E now uuid tok st = (r, st') \<Longrightarrow> auth_step E U st st'"

inductive auth_reaches ::
  "('s, 'u) auth_env \<Rightarrow> string set \<Rightarrow> ('s, 'u) auth_state \<Rightarrow> ('s, 'u) auth_state \<Rightarrow> bool" for E U where
  reaches_refl: "auth_reaches E U st st"
| reaches_step: "auth_reaches E U st st' \<Longrightarrow> auth_step E U st' st'' \<Longrightarrow> auth_reaches E U st st''"

definition sessions_verified ::
  "('s, 'u) auth_env \<Rightarrow> ('u \<Rightarrow> user list) \<Rightarrow> ('s, 'u) auth_state \<Rightarrow> bool" where
  "sessions_verified E docs st \<longleftrightarrow>
     (\<forall>t uid x. session_validate (ae_redis E) t uid x (as_redis st) \<longrightarrow> uid \<in> verified_ids (docs (as_users st)))"

context auth_service
begin

lemma sessions_verified_mono:
  assumes "sessions_verified E docs st"
    and "\<And>t uid x. session_validate (ae_redis E) t uid x (as_redis st') \<Longrightarrow>
           session_validate (ae_redis E) t uid x (as_redis st) \<or> uid \<in> verified_ids (docs (as_users st'))"
    and "verified_ids (docs (as_users st)) \<subseteq> verified_ids (docs (as_users st'))"
  shows "sessions_verified E docs st'"
  using assms unfolding sessions_verified_def by blast

lemma verified_in_ids: "d \<in> set ds \<Longrightarrow> isEmailVerified d \<Longrightarrow> u_id d \<in> verified_ids ds"
  by (auto simp: verified_ids_def)

lemma generateTokens_sessions:
  assumes "generateTokens E now uuid user st = (r, st')"
    and "u_id user \<in> verified_ids (docs (as_users st))" and "sessions_verified E docs st"
  shows "sessions_verified E docs st'"
proof (cases r)
  case (Inl e)
  with assms show ?thesis using generateTokens_Inl by metis
next
  case (Inr p)
  with assms(1) have "st' = st\<lparr>as_redis := session_insert (ae_redis E) now (u_id user) uuid (as_redis st)\<rparr>"
    using generateTokens_Inr(1) by metis
  with assms(2) show ?thesis
    by (intro sessions_verified_mono [OF assms(3)]) (auto simp: store.val_ins split: if_splits)
qed

lemma singUp_sessions:
  assumes "singUp E now salt rnd dto st = (r, st')" and "sessions_verified E docs st"
  shows "sessions_verified E docs st'"
  using assms(1)
proof (cases rule: singUp_cases)
  case (failed e us)
  then show ?thesis
    by (intro sessions_verified_mono [OF assms(2)]) (auto dest: subsetD [OF createUser_verified_mono])
next
  case (created nu us d)
  then show ?thesis
    by (intro sessions_verified_mono [OF assms(2)])
      (auto simp: store.val_set_otp dest: subsetD [OF createUser_verified_mono])
qed

lemma resendOtp_sessions:
  assumes "resendOtp E now rnd email st = (r, st')" and "sessions_verified E docs st"
  shows "sessions_verified E docs st'"
  using assms(1)
  by (cases rule: resendOtp_cases)
    (auto intro!: sessions_verified_mono [OF assms(2)] simp: store.val_set_otp store.val_inv_otp assms(2))

lemma verifyEmail_sessions:
  assumes "verifyEmail E now otp email st = (r, st')" and "sessions_verified E docs st"
  shows "sessions_verified E docs st'"
  using assms(1)
proof (cases rule: verifyEmail_cases)
  case (accepted user us x)
  have "verified_ids (docs (as_users st)) \<subseteq> verified_ids (docs us)"
    by (rule updateStatus_verified_mono [OF accepted(4)])
  then show ?thesis
    by (intro sessions_verified_mono [OF assms(2)]) (auto simp: accepted(6) store.val_inv_otp)
qed (simp add: assms(2))

lemma singIn_sessions:
  assumes "singIn E now uuid email password st = (r, st')" and "sessions_verified E docs st"
  shows "sessions_verified E docs st'"
  using assms(1)
proof (cases rule: singIn_cases)
  case (granted user p)
  have "u_id user \<in> verified_ids (docs (as_users st))"
    using findByEmail_Some [OF granted(1)] granted(2) by (intro verified_in_ids) simp_all
  then show ?thesis by (rule generateTokens_sessions [OF granted(5) _ assms(2)])
qed (simp add: assms(2))

lemma refreshTokens_sessions:
  assumes "refreshTokens E now uuid tok st = (r, st')" and "sessions_verified E docs st"
  shows "sessions_verified E docs st'"
  using assms(1)
proof (cases rule: refreshTokens_cases)
  case (session c user)
  have "u_id user \<in> verified_ids (docs (as_users st))"
    using session(3) assms(2) by (auto simp: sessions_verified_def)
  moreover have "sessions_verified E docs
      (st\<lparr>as_redis := inValidate (ae_redis E) now (u_id user) (as_redis st)\<rparr>)"
    by (intro sessions_verified_mono [OF assms(2)]) (auto simp: store.val_inv)
  ultimately show ?thesis
    by (intro generateTokens_sessions [OF session(4)]) simp_all
qed (simp add: assms(2))

lemma auth_step_sessions: "auth_step E U st st' \<Longrightarrow> sessions_verified E docs st \<Longrightarrow> sessions_verified E docs st'"
  by (induction rule: auth_step.induct)
    (auto intro: singUp_sessions resendOtp_sessions verifyEmail_sessions singIn_sessions
      refreshTokens_sessions)

lemma reaches_sessions:
  "auth_reaches E U st st' \<Longrightarrow> sessions_verified E docs st \<Longrightarrow> sessions_verified E docs st'"
  by (induction rule: auth_reaches.induct) (auto intro: auth_step_sessions)

end

text \<open>A token id that is never issued again stays without a session.\<close>

definition dead_id :: "('s, 'u) auth_env \<Rightarrow> string \<Rightarrow> string option \<Rightarrow> ('s, 'u) auth_state \<Rightarrow> bool" where
  "dead_id E uid x st \<longleftrightarrow> (\<forall>t. \<not> session_validate (ae_redis E) t uid x (as_redis st))"

lemma dead_id_mono:
  assumes "dead_id E uid x st"
    and "\<And>t. session_validate (ae_redis E) t uid x (as_redis st') \<Longrightarrow>
           session_validate (ae_redis E) t uid x (as_redis st)"
  shows "dead_id E uid x st'"
  using assms by (auto simp: dead_id_def)

context auth_service
begin

lemma generateTokens_dead:
  assumes "generateTokens E now uuid user st = (r, st')" and "x \<noteq> Some uuid" and "dead_id E uid x st"
  shows "dead_id E uid x st'"
proof (cases r)
  case (Inl e)
  with assms show ?thesis using generateTokens_Inl by metis
next
  case (Inr p)
  with assms(1) have "st' = st\<lparr>as_redis := session_insert (ae_redis E) now (u_id user) uuid (as_redis st)\<rparr>"
    using generateTokens_Inr(1) by metis
  with assms(2) show ?thesis
    by (intro dead_id_mono [OF assms(3)]) (auto simp: store.val_ins split: if_splits)
qed

lemma auth_step_dead:
  assumes "auth_step E U st st'" and "dead_id E uid x st" and "x \<notin> Some ` U"
  shows "dead_id E uid x st'"
  using assms
proof (induction rule: auth_step.induct)
  case (step_singUp now salt rnd dto st r st')
  from step_singUp(1) show ?case
    by (cases rule: singUp_cases)
      (auto intro!: dead_id_mono [OF step_singUp(2)] simp: store.val_set_otp)
next
  case (step_resendOtp now rnd email st r st')
  from step_resendOtp(1) show ?case
    by (cases rule: resendOtp_cases)
      (auto intro!: dead_id_mono [OF step_resendOtp(2)] simp: store.val_set_otp store.val_inv_otp)
next
  case (step_verifyEmail now otp email st r st')
  from step_verifyEmail(1) show ?case
    by (cases rule: verifyEmail_cases)
      (auto intro!: dead_id_mono [OF step_verifyEmail(2)] simp: store.val_inv_otp)
next
  case (step_singIn uuid now email password st r st')
  from step_singIn(2) show ?case
  proof (cases rule: singIn_cases)
    case (granted user p)
    then show ?thesis using step_singIn by (intro generateTokens_dead [OF granted(5)]) auto
  qed (use step_singIn in simp)
next
  case (step_refresh uuid now tok st r st')
  from step_refresh(2) show ?case
  proof (cases rule: refreshTokens_cases)
    case (session c user)
    have "dead_id E uid x (st\<lparr>as_redis := inValidate (ae_redis E) now (u_id user) (as_redis st)\<rparr>)"
      by (intro dead_id_mono [OF step_refresh(3)]) (simp add: store.val_inv)
    then show ?thesis using step_refresh by (intro generateTokens_dead [OF session(4)]) auto
  qed (use step_refresh in simp)
qed

lemma reaches_dead:
  "auth_reaches E U st st' \<Longrightarrow> dead_id E uid x st \<Longrightarrow> x \<notin> Some ` U \<Longrightarrow> dead_id E uid x st'"
  by (induction rule: auth_reaches.induct) (auto intro: auth_step_dead)

text \<open>After a rotation the presented id has no session.\<close>

lemma refresh_kills:
  assumes "refreshTokens E now uuid tok st = (Inr p, st1)" and "verifyToken E now tok = Inr c"
    and "c_refreshTokenId c \<noteq> Some uuid"
  shows "dead_id E (c_sub c) (c_refreshTokenId c) st1"
  using assms(1)
proof (cases rule: refreshTokens_cases)
  case (session c' user)
  with assms(2) have [simp]: "c' = c" by simp
  have sub: "u_id user = c_sub c" using findById_Some session(2) by auto
  from session(4) have "st1 = st\<lparr>as_redis := session_insert (ae_redis E) now (u_id user) uuid
      (inValidate (ae_redis E) now (u_id user) (as_redis st))\<rparr>"
    by (auto dest: generateTokens_Inr(1))
  with assms(3) sub show ?thesis by (simp add: dead_id_def store.val_ins)
qed simp

lemma dead_refresh:
  assumes "dead_id E (c_sub c) (c_refreshTokenId c) st" and "verifyToken E now tok = Inr c"
  shows "\<exists>m. refreshTokens E t uuid tok st = (Inl (HttpException BadRequest m), st)"
proof (cases "refreshTokens E t uuid tok st")
  case (Pair r st')
  then show ?thesis
  proof (cases rule: refreshTokens_cases)
    case (session c' user)
    have "c' = c"
      using verify_stable session(1) assms(2) unfolding verifyToken_def by blast
    moreover have "u_id user = c_sub c'" using findById_Some session(2) by auto
    ultimately show ?thesis using session(3) assms(1) by (simp add: dead_id_def)
  qed (auto simp: Pair)
qed

lemma token_without_id_refused:
  assumes "signToken E now0 (Num ttl) c = Inr tok" and "c_refreshTokenId c = None"
  shows "\<exists>m. refreshTokens E t uuid tok st = (Inl (HttpException BadRequest m), st)"
proof (cases "t div 1000 < now0 div 1000 + ttl")
  case True
  have "verifyToken E t tok = Inr c"
    using assms(1) True by (auto simp: signToken_def verifyToken_def intro: verify_signed)
  moreover have "dead_id E (c_sub c) (c_refreshTokenId c) st"
    using assms(2) store.val_some by (auto simp: dead_id_def)
  ultimately show ?thesis by (rule dead_refresh [rotated])
next
  case False
  then have "verifyToken E t tok = Inl (JsError ''jwt expired'')"
    using assms(1) by (auto simp: signToken_def verifyToken_def intro: verify_expired)
  then show ?thesis by (simp add: refreshTokens_def to_bad_request_def)
qed

end

context auth_service
begin

lemma no_session_start: "\<forall>u. ks (as_redis st0) (getKey u) = None \<Longrightarrow> sessions_verified E docs st0"
  by (simp add: sessions_verified_def session_validate_def ks_simps ks_get_def live_def)

lemma singIn_session:
  assumes "singIn E now uuid email password st = (Inr p, st')"
  obtains user where "user \<in> set (docs (as_users st))" and "u_email user = norm_email email"
    and "isEmailVerified user" and "ae_compare E password (u_password user)"
    and "\<And>t u x. session_validate (ae_redis E) t u x (as_redis st')
           \<longleftrightarrow> (if u = u_id user then x = Some uuid else session_validate (ae_redis E) t u x (as_redis st))"
    and "\<And>t ttl. refreshTokenTtl (ae_config E) = Num ttl \<Longrightarrow> t div 1000 < now div 1000 + ttl \<Longrightarrow>
           verifyToken E t (refreshToken p)
             = Inr \<lparr>c_sub = u_id user, c_email = None, c_role = None, c_refreshTokenId = Some uuid\<rparr>"
  using assms
proof (cases rule: singIn_cases)
  case (granted user p')
  then have [simp]: "p' = p" by simp
  note g = generateTokens_Inr [OF granted(5)]
  show ?thesis
  proof (rule that [of user])
    show "session_validate (ae_redis E) t u x (as_redis st')
        \<longleftrightarrow> (if u = u_id user then x = Some uuid else session_validate (ae_redis E) t u x (as_redis st))"
      for t u x by (simp add: g(1) store.val_ins)
    show "verifyToken E t (refreshToken p)
        = Inr \<lparr>c_sub = u_id user, c_email = None, c_role = None, c_refreshTokenId = Some uuid\<rparr>"
      if "refreshTokenTtl (ae_config E) = Num ttl" "t div 1000 < now div 1000 + ttl" for t ttl
      using g(2) that by (auto simp: signToken_def verifyToken_def intro: verify_signed)
  qed (use granted findByEmail_Some in auto)
qed simp

lemma verifyEmail_accepted:
  assumes "verifyEmail E now otp email st = (Inr (Verified m), st')"
  obtains user where "user \<in> set (docs (as_users st))" and "u_email user = norm_email email"
    and "getOtp (ae_redis E) now (u_email user) (as_redis st) = Some (generateOtpHash E otp)"
    and "u_id user \<in> verified_ids (docs (as_users st'))"
    and "\<forall>t e. getOtp (ae_redis E) t e (as_redis st') = (if e = email then None else getOtp (ae_redis E) t e (as_redis st))"
  using assms
proof (cases rule: verifyEmail_cases)
  case (accepted user us x)
  have u: "user \<in> set (docs (as_users st))" "u_email user = norm_email email"
    using findByEmail_Some accepted(1) by auto
  have same: "with_email (u_email user) = with_email email"
    by (simp add: with_email_def u(2) fun_eq_iff)
  have "\<not> isl x" using accepted(5) by (auto split: sum.splits)
  with updateStatus_docs [OF accepted(4)] have d: "docs us
      = update_first (with_email email) (isEmailVerified_update (\<lambda>_. True)) (docs (as_users st))"
    by (simp add: same)
  have "find (with_email email) (docs (as_users st)) = Some user"
    using um_findOne accepted(1) by (metis findByEmail_def)
  then have "user\<lparr>isEmailVerified := True\<rparr> \<in> set (docs us)"
    using update_first_verified d by metis
  then have "u_id user \<in> verified_ids (docs us)"
    using verified_in_ids [of "user\<lparr>isEmailVerified := True\<rparr>"] by simp
  then show ?thesis
    using accepted u by (intro that [of user]) (simp_all add: store.get_inv)
qed simp

lemma resend_otp:
  assumes "resendOtp E now rnd email st = (Inr (SentTo m e), st')"
  shows "getOtp (ae_redis E) t e (as_redis st')
    = (if t < now + 600000 then Some (generateOtpHash E (show_int rnd)) else None)"
  using assms
proof (cases rule: resendOtp_cases)
  case (sent user r1)
  then show ?thesis by (auto simp: store.get_set)
qed simp

lemma singUp_otp:
  assumes "singUp E now salt rnd dto st = (Inr d, st')"
  shows "getOtp (ae_redis E) t (u_email d) (as_redis st')
      = (if t < now + 600000 then Some (generateOtpHash E (show_int rnd)) else None)"
    and "u_email d = norm_email (su_email dto)"
    and "last (as_mails st') = generateVerifyAccountEmailTemplate (u_email d) (u_name d) (show_int rnd)"
proof -
  obtain nu us where c: "createUser (ae_users E) nu (as_users st) = (Inr d, us)"
    "nu = \<lparr>iu_name = su_name dto, iu_email = su_email dto, iu_password = ae_hash E salt (su_password dto)\<rparr>"
    "st' = st\<lparr>as_users := us,
       as_redis := setOtp (ae_redis E) now (u_email d) (generateOtpHash E (show_int rnd)) (as_redis st),
       as_mails := as_mails st @ [generateVerifyAccountEmailTemplate (u_email d) (u_name d) (show_int rnd)]\<rparr>"
    using assms by (auto simp: singUp_def generateFullOtp_def Let_def split: sum.splits option.splits prod.splits)
  show "u_email d = norm_email (su_email dto)"
    using um_save_Inr [of nu "''user''" "as_users st" d us] c by (simp add: createUser_def new_document_def)
  show "last (as_mails st') = generateVerifyAccountEmailTemplate (u_email d) (u_name d) (show_int rnd)"
    by (simp add: c(3))
  show "getOtp (ae_redis E) t (u_email d) (as_redis st')
      = (if t < now + 600000 then Some (generateOtpHash E (show_int rnd)) else None)"
    by (simp add: c(3) store.get_set)
qed

end

text \<open>What \<^verbatim>\<open>verifyEmail\<close> answers for a known unverified account, by the stored code.\<close>

lemma verifyEmail_by_code:
  assumes "findByEmail (ae_users E) email (as_users st) = Inr (Some user)" and "\<not> isEmailVerified user"
  shows "getOtp (ae_redis E) now (u_email user) (as_redis st) = None \<Longrightarrow>
      verifyEmail E now otp email st
        = (Inl (HttpException Unauthorized ''Verification code has expired. Please request a new one''), st)"
    and "getOtp (ae_redis E) now (u_email user) (as_redis st) = Some h \<Longrightarrow> h \<noteq> [] \<Longrightarrow>
      h \<noteq> generateOtpHash E otp \<Longrightarrow> verifyEmail E now otp email st
        = (Inl (HttpException Unauthorized ''Invalid verification code. Please check and try again''), st)"
    and "getOtp (ae_redis E) now (u_email user) (as_redis st) = Some (generateOtpHash E otp) \<Longrightarrow>
      generateOtpHash E otp \<noteq> [] \<Longrightarrow>
      fst (verifyEmail E now otp email st)
        = (case fst (updateEmailVerificationStatus (ae_users E) (u_email user) True (as_users st)) of
             Inl e \<Rightarrow> Inl e | Inr _ \<Rightarrow> Inr (Verified ''Email verified successfully''))"
proof -
  show "getOtp (ae_redis E) now (u_email user) (as_redis st) = None \<Longrightarrow> verifyEmail E now otp email st
      = (Inl (HttpException Unauthorized ''Verification code has expired. Please request a new one''), st)"
    by (simp add: verifyEmail_def assms)
  show "getOtp (ae_redis E) now (u_email user) (as_redis st) = Some h \<Longrightarrow> h \<noteq> [] \<Longrightarrow>
      h \<noteq> generateOtpHash E otp \<Longrightarrow> verifyEmail E now otp email st
      = (Inl (HttpException Unauthorized ''Invalid verification code. Please check and try again''), st)"
    by (simp add: verifyEmail_def assms)
  show "getOtp (ae_redis E) now (u_email user) (as_redis st) = Some (generateOtpHash E otp) \<Longrightarrow>
      generateOtpHash E otp \<noteq> [] \<Longrightarrow> fst (verifyEmail E now otp email st)
      = (case fst (updateEmailVerificationStatus (ae_users E) (u_email user) True (as_users st)) of
             Inl e \<Rightarrow> Inl e | Inr _ \<Rightarrow> Inr (Verified ''Email verified successfully''))"
    by (cases "updateEmailVerificationStatus (ae_users E) (u_email user) True (as_users st)")
      (simp add: verifyEmail_def Let_def assms split: sum.split)
qed

section \<open>A concrete environment\<close>

text \<open>
  The environment of the witnesses: the reference server, collection and signer; hashes that
  prefix the password, and a digest that prefixes the code.
\<close>

definition demo_env :: "(keyspace, user_db) auth_env" where
  "demo_env = \<lparr>ae_redis = mem_redis, ae_users = mem_users,
     ae_hash = (\<lambda>salt p. ''h'' @ p), ae_compare = (\<lambda>p h. h = ''h'' @ p),
     ae_sha256 = (\<lambda>s. ''d'' @ s), ae_jwt = mem_jwt,
     ae_config = \<lparr>jp_secret = Some ''s'', jp_audience = None, jp_issuer = None,
        accessTokenTtl = Num 3600, refreshTokenTtl = Num 86400\<rparr>\<rparr>"

definition demo_start :: "(keyspace, user_db) auth_state" where
  "demo_start = \<lparr>as_redis = Map.empty, as_users = db_empty, as_mails = []\<rparr>"

definition demo_dto :: signup_dto where
  "demo_dto = \<lparr>su_name = ''Ada'', su_email = ''Ada@x.io'', su_password = ''secret''\<rparr>"

definition demo_user :: "bool \<Rightarrow> user" where
  "demo_user b = \<lparr>u_id = ''0'', u_name = ''Ada'', u_email = ''ada@x.io'', u_password = ''hsecret'',
     isEmailVerified = b, u_role = ''user''\<rparr>"

lemma demo_service: "auth_service demo_env (\<lambda>K. K) db_docs"
  by (simp add: auth_service_def demo_env_def mem.redis_server_axioms memu.user_collection_axioms
      memj.jwt_service_axioms)

interpretation demo: auth_service demo_env "\<lambda>K. K" db_docs
  by (rule demo_service)

lemma demo_norm: "norm_email ''Ada@x.io'' = ''ada@x.io''" "norm_email ''ada@x.io'' = ''ada@x.io''"
  by (simp_all add: norm_email_def trim_def lower_char_def is_space_def char_of_def bit_0 Let_def)

lemma demo_show: "show_int 123456 = ''123456''" "show_int 654321 = ''654321''"
  by (simp_all add: show_int_def show_nat.simps digit_char_def char_of_def bit_0)

lemmas demo_eval = demo_env_def demo_start_def demo_dto_def demo_user_def demo_norm demo_show
  mem_redis_def mem_users_def mem_jwt_def db_simps mem_save_def fresh_id_def Let_def
  findByEmail_def findById_def createUser_def updateEmailVerificationStatus_def with_email_def
  generateFullOtp_def generateOtpHash_def generateTokens_def signToken_def verifyToken_def
  service_defs ks_get_set ks_get_setex ks_get_del

text \<open>Signed up, verified with the mailed code, signed in, and the tokens refreshed.\<close>

definition demo1 where "demo1 = singUp demo_env 0 [] 123456 demo_dto demo_start"
definition demo2 where "demo2 = verifyEmail demo_env 5000 ''123456'' ''ada@x.io'' (snd demo1)"
definition demo3 where "demo3 = singIn demo_env 6000 ''r1'' ''ada@x.io'' ''secret'' (snd demo2)"
definition demo_token where "demo_token = refreshToken (projr (fst demo3))"
definition demo4 where "demo4 = refreshTokens demo_env 7000 ''r2'' demo_token (snd demo3)"

lemma demo1_result: "fst demo1 = Inr (demo_user False)"
  by (simp add: demo1_def singUp_def demo_eval)

lemma demo1_docs: "db_docs (as_users (snd demo1)) = [demo_user False]"
  by (simp add: demo1_def singUp_def demo_eval)

lemma demo1_redis: "as_redis (snd demo1) = ks_setex 0 (otpKey ''ada@x.io'') 600 ''d123456'' Map.empty"
  by (simp add: demo1_def singUp_def demo_eval)

lemma demo2_result: "fst demo2 = Inr (Verified ''Email verified successfully'')"
  by (simp add: demo2_def verifyEmail_def demo1_docs demo1_redis demo_eval)

lemma demo2_docs: "db_docs (as_users (snd demo2)) = [demo_user True]"
  by (simp add: demo2_def verifyEmail_def demo1_docs demo1_redis demo_eval)

lemma demo2_redis: "as_redis (snd demo2) = ks_del (otpKey ''ada@x.io'') (as_redis (snd demo1))"
  by (simp add: demo2_def verifyEmail_def demo1_docs demo1_redis demo_eval)

lemma demo3_result: "fst demo3 = Inr \<lparr>
    accessToken = enc_token 3606 \<lparr>c_sub = ''0'', c_email = Some ''ada@x.io'', c_role = Some ''user'', c_refreshTokenId = None\<rparr>,
    refreshToken = enc_token 86406 \<lparr>c_sub = ''0'', c_email = None, c_role = None, c_refreshTokenId = Some ''r1''\<rparr>\<rparr>"
  by (simp add: demo3_def singIn_def demo2_docs demo_eval)

lemma demo3_docs: "db_docs (as_users (snd demo3)) = [demo_user True]"
  by (simp add: demo3_def singIn_def demo2_docs demo_eval)

lemma demo3_redis: "as_redis (snd demo3) = ks_set (getKey ''0'') ''r1'' (as_redis (snd demo2))"
  by (simp add: demo3_def singIn_def demo2_docs demo_eval)

lemma demo_token_eq: "demo_token = enc_token 86406
    \<lparr>c_sub = ''0'', c_email = None, c_role = None, c_refreshTokenId = Some ''r1''\<rparr>"
  by (simp add: demo_token_def demo3_result)

definition demo_resent where "demo_resent = resendOtp demo_env 1000 654321 ''ada@x.io'' (snd demo1)"

lemma demo4_ok: "isl (fst demo4) = False"
  by (simp add: demo4_def refreshTokens_def demo_token_eq demo3_docs demo3_redis demo_eval)

lemma demo_reaches: "auth_reaches demo_env {''r1''} demo_start (snd demo3)"
proof -
  have "auth_step demo_env {''r1''} demo_start (snd demo1)"
    by (rule step_singUp [OF prod.collapse [symmetric, of demo1, unfolded demo1_def], folded demo1_def])
  moreover have "auth_step demo_env {''r1''} (snd demo1) (snd demo2)"
    by (rule step_verifyEmail [OF prod.collapse [symmetric, of demo2, unfolded demo2_def], folded demo2_def])
  moreover have "auth_step demo_env {''r1''} (snd demo2) (snd demo3)"
    by (rule step_singIn [OF _ prod.collapse [symmetric, of demo3, unfolded demo3_def], folded demo3_def]) simp
  ultimately show ?thesis by (blast intro: reaches_refl reaches_step)
qed

lemma demo3_session: "session_validate mem_redis 8000 ''0'' (Some ''r1'') (as_redis (snd demo3))"
  by (simp add: demo3_redis session_validate_def mem_redis_def ks_get_set)

section \<open>Properties\<close>

text \<open>
  C1: Only verified accounts ever hold a session. From a state of the service without sessions,
  whatever requests are made in whatever order, a refresh-token id that Redis validates for a
  user id belongs to a stored account whose email is verified.
\<close>

theorem sessions_only_for_verified_accounts:
  assumes "auth_service E ks docs" and "\<forall>u. ks (as_redis st0) (getKey u) = None"
    and "auth_reaches E U st0 st"
    and "session_validate (ae_redis E) t uid x (as_redis st)"
  shows "\<exists>d \<in> set (docs (as_users st)). u_id d = uid \<and> isEmailVerified d"
proof -
  have "sessions_verified E docs st"
    using auth_service.reaches_sessions auth_service.no_session_start assms(1-3) by blast
  with assms(4) show ?thesis by (auto simp: sessions_verified_def verified_ids_def)
qed

theorem sessions_only_for_verified_accounts_witness:
  "\<exists>d \<in> set (db_docs (as_users (snd demo3))). u_id d = ''0'' \<and> isEmailVerified d"
  using sessions_only_for_verified_accounts
    [OF demo_service _ demo_reaches, of 8000 "''0''" "Some ''r1''"] demo3_session
  by (simp add: demo_start_def demo_env_def)

text \<open>
  C6: A refresh token works once. After a successful refresh, the presented token is refused
  with a bad request, and nothing changes, in every later state of the service: whatever
  requests follow, as long as no newly drawn token id equals the old one.
\<close>

theorem refresh_token_single_use:
  assumes "auth_service E ks docs"
    and "refreshTokens E now uuid tok st = (Inr p, st1)" and "verifyToken E now tok = Inr c"
    and "c_refreshTokenId c \<notin> Some ` insert uuid U" and "auth_reaches E U st1 st2"
  shows "\<exists>m. refreshTokens E t uuid' tok st2 = (Inl (HttpException BadRequest m), st2)"
proof -
  have "dead_id E (c_sub c) (c_refreshTokenId c) st1"
    using auth_service.refresh_kills [OF assms(1-3)] assms(4) by auto
  then have "dead_id E (c_sub c) (c_refreshTokenId c) st2"
    using auth_service.reaches_dead [OF assms(1) assms(5)] assms(4) by auto
  then show ?thesis using auth_service.dead_refresh [OF assms(1) _ assms(3)] by blast
qed

theorem refresh_token_single_use_witness:
  "\<exists>m. refreshTokens demo_env 9000 ''r3'' demo_token (snd demo4) = (Inl (HttpException BadRequest m), snd demo4)"
proof -
  have r: "refreshTokens demo_env 7000 ''r2'' demo_token (snd demo3) = (Inr (projr (fst demo4)), snd demo4)"
    using demo4_ok by (simp add: demo4_def [symmetric] prod_eq_iff)
  have v: "verifyToken demo_env 7000 demo_token
      = Inr \<lparr>c_sub = ''0'', c_email = None, c_role = None, c_refreshTokenId = Some ''r1''\<rparr>"
    by (simp add: demo_token_eq demo_eval)
  show ?thesis
    by (rule refresh_token_single_use [OF demo_service r v, where U = "{}"]) (simp_all add: reaches_refl)
qed

text \<open>
  C28: Sign-in. It succeeds only for a stored, verified account with the normalised email and a
  matching password; it then leaves that account exactly one session, the new one, touches no other
  account's session, and returns a refresh token that verifies to that session until its expiry.
\<close>

theorem sign_in_opens_the_only_session:
  assumes "auth_service E ks docs" and "singIn E now uuid email password st = (Inr p, st')"
  shows "\<exists>user \<in> set (docs (as_users st)). u_email user = norm_email email \<and> isEmailVerified user
      \<and> ae_compare E password (u_password user)
      \<and> (\<forall>t u x. session_validate (ae_redis E) t u x (as_redis st')
           = (if u = u_id user then x = Some uuid else session_validate (ae_redis E) t u x (as_redis st)))
      \<and> (\<forall>t ttl. refreshTokenTtl (ae_config E) = Num ttl \<and> t div 1000 < now div 1000 + ttl \<longrightarrow>
           verifyToken E t (refreshToken p)
             = Inr \<lparr>c_sub = u_id user, c_email = None, c_role = None, c_refreshTokenId = Some uuid\<rparr>)"
  by (rule auth_service.singIn_session [OF assms]) blast

theorem sign_in_opens_the_only_session_witness:
  "\<exists>user \<in> set (db_docs (as_users (snd demo2))). u_email user = ''ada@x.io'' \<and> isEmailVerified user"
proof -
  have "singIn demo_env 6000 ''r1'' ''ada@x.io'' ''secret'' (snd demo2) = (Inr (projr (fst demo3)), snd demo3)"
    using demo3_result by (simp add: demo3_def [symmetric] prod_eq_iff)
  from sign_in_opens_the_only_session [OF demo_service this] show ?thesis by (auto simp: demo_norm)
qed

text \<open>
  C15: Email verification needs the current code. A successful verification means that the
  SHA-256 of the submitted code is the unexpired hash stored for the account, and the account is verified afterwards. Only
  what is stored under the submitted spelling of the email is removed: the account's code is gone if the email was spelt as
  stored, and stays as it was if it was spelt differently.
\<close>

theorem verification_needs_current_code:
  assumes "auth_service E ks docs" and "verifyEmail E now otp email st = (Inr (Verified m), st')"
  shows "\<exists>user \<in> set (docs (as_users st)). u_email user = norm_email email
      \<and> getOtp (ae_redis E) now (u_email user) (as_redis st) = Some (ae_sha256 E otp)
      \<and> (\<exists>d \<in> set (docs (as_users st')). u_id d = u_id user \<and> isEmailVerified d)
      \<and> (\<forall>t. getOtp (ae_redis E) t (u_email user) (as_redis st')
          = (if email = u_email user then None else getOtp (ae_redis E) t (u_email user) (as_redis st)))"
proof -
  obtain user where u: "user \<in> set (docs (as_users st))" "u_email user = norm_email email"
      "getOtp (ae_redis E) now (u_email user) (as_redis st) = Some (generateOtpHash E otp)"
      "u_id user \<in> verified_ids (docs (as_users st'))"
      "\<forall>t e. getOtp (ae_redis E) t e (as_redis st') = (if e = email then None else getOtp (ae_redis E) t e (as_redis st))"
    by (rule auth_service.verifyEmail_accepted [OF assms]) blast
  then have "\<exists>d \<in> set (docs (as_users st')). u_id d = u_id user \<and> isEmailVerified d"
    by (auto simp: verified_ids_def)
  with u show ?thesis by (intro bexI [of _ user]) (auto simp: generateOtpHash_def)
qed

theorem verification_needs_current_code_witness:
  "\<exists>user \<in> set (db_docs (as_users (snd demo1))). u_email user = ''ada@x.io''
     \<and> getOtp mem_redis 5000 (u_email user) (as_redis (snd demo1)) = Some ''d123456''"
proof -
  have "verifyEmail demo_env 5000 ''123456'' ''ada@x.io'' (snd demo1)
      = (Inr (Verified ''Email verified successfully''), snd demo2)"
    using demo2_result by (simp add: demo2_def [symmetric] prod_eq_iff)
  from verification_needs_current_code [OF demo_service this] show ?thesis
    by (auto simp: demo_norm demo_env_def)
qed

text \<open>
  C29: The code mailed at sign-up is good for ten minutes. Straight after a sign-up at time \<open>now\<close>, the last mail is the template
  filled with a code with which verifying the account is accepted (up to an error of the database
  write) strictly before \<open>now + 600000\<close> milliseconds, and any code is refused as expired, with
  nothing changed, from then on.
\<close>

theorem mailed_code_lifetime:
  assumes "auth_service E ks docs" and "singUp E now salt rnd dto st = (Inr d, st1)"
    and "findByEmail (ae_users E) email (as_users st1) = Inr (Some user)"
    and "norm_email email = norm_email (su_email dto)"
    and "\<not> isEmailVerified user" and "\<forall>s. ae_sha256 E s \<noteq> []"
  shows "(\<exists>code. last (as_mails st1) = generateVerifyAccountEmailTemplate (u_email d) (u_name d) code
      \<and> (t < now + 600000 \<longrightarrow> fst (verifyEmail E t code email st1)
      = (case fst (updateEmailVerificationStatus (ae_users E) (u_email user) True (as_users st1)) of
             Inl e \<Rightarrow> Inl e | Inr _ \<Rightarrow> Inr (Verified ''Email verified successfully''))))
    \<and> (now + 600000 \<le> t \<longrightarrow> verifyEmail E t otp email st1
      = (Inl (HttpException Unauthorized ''Verification code has expired. Please request a new one''), st1))"
proof -
  note o = auth_service.singUp_otp [OF assms(1,2)]
  have "u_email user = u_email d"
    using auth_service.axioms(2) [OF assms(1), THEN user_collection.findByEmail_Some, OF assms(3)]
      assms(4) o(2) by simp
  then have g: "getOtp (ae_redis E) t (u_email user) (as_redis st1)
      = (if t < now + 600000 then Some (generateOtpHash E (show_int rnd)) else None)" for t
    by (simp add: o(1))
  have before: "t < now + 600000 \<Longrightarrow> fst (verifyEmail E t (show_int rnd) email st1)
      = (case fst (updateEmailVerificationStatus (ae_users E) (u_email user) True (as_users st1)) of
             Inl e \<Rightarrow> Inl e | Inr _ \<Rightarrow> Inr (Verified ''Email verified successfully''))"
    using verifyEmail_by_code(3) [OF assms(3,5)] g assms(6) by (simp add: generateOtpHash_def)
  have after: "now + 600000 \<le> t \<Longrightarrow> verifyEmail E t otp email st1
      = (Inl (HttpException Unauthorized ''Verification code has expired. Please request a new one''), st1)"
    using verifyEmail_by_code(1) [OF assms(3,5)] g by simp
  from before after o(3) show ?thesis by blast
qed

theorem mailed_code_lifetime_witness:
  "verifyEmail demo_env 600000 ''123456'' ''ada@x.io'' (snd demo1)
     = (Inl (HttpException Unauthorized ''Verification code has expired. Please request a new one''), snd demo1)"
proof -
  have s: "singUp demo_env 0 [] 123456 demo_dto demo_start = (Inr (demo_user False), snd demo1)"
    using demo1_result by (simp add: demo1_def [symmetric] prod_eq_iff)
  have f: "findByEmail (ae_users demo_env) ''ada@x.io'' (as_users (snd demo1)) = Inr (Some (demo_user False))"
    by (simp add: demo1_docs demo_eval)
  show ?thesis
    by (rule mailed_code_lifetime [OF demo_service s f, THEN conjunct2, rule_format]) (simp_all add: demo_eval)
qed

text \<open>
  A resent code replaces every earlier one. Straight after a successful resend, the account
  can only be verified with a code of the same SHA-256 as the new one: any other code is refused
  and changes nothing, whenever it was issued.
\<close>

theorem resend_supersedes_older_codes:
  assumes "auth_service E ks docs" and "resendOtp E now rnd email st = (Inr (SentTo m e), st1)"
    and "findByEmail (ae_users E) email' (as_users st1) = Inr (Some user)"
    and "u_email user = e" and "\<not> isEmailVerified user"
    and "ae_sha256 E otp \<noteq> ae_sha256 E (show_int rnd)" and "ae_sha256 E (show_int rnd) \<noteq> []"
  shows "\<exists>msg. verifyEmail E t otp email' st1 = (Inl (HttpException Unauthorized msg), st1)"
proof (cases "t < now + 600000")
  case True
  then have "getOtp (ae_redis E) t (u_email user) (as_redis st1) = Some (ae_sha256 E (show_int rnd))"
    using auth_service.resend_otp [OF assms(1,2)] assms(4) by (simp add: generateOtpHash_def)
  then show ?thesis
    using verifyEmail_by_code(2) [OF assms(3,5)] assms(6,7) by (auto simp: generateOtpHash_def)
next
  case False
  then have "getOtp (ae_redis E) t (u_email user) (as_redis st1) = None"
    using auth_service.resend_otp [OF assms(1,2)] assms(4) by simp
  then show ?thesis using verifyEmail_by_code(1) [OF assms(3,5)] by auto
qed

theorem resend_supersedes_older_codes_witness:
  "\<exists>msg. verifyEmail demo_env 2000 ''123456'' ''ada@x.io'' (snd demo_resent)
     = (Inl (HttpException Unauthorized msg), snd demo_resent)"
proof -
  have r: "resendOtp demo_env 1000 654321 ''ada@x.io'' (snd demo1)
      = (Inr (SentTo ''Verification code sent successfully'' ''ada@x.io''), snd demo_resent)"
    by (simp add: demo_resent_def resendOtp_def demo1_docs demo1_redis demo_eval)
  have f: "findByEmail (ae_users demo_env) ''ada@x.io'' (as_users (snd demo_resent)) = Inr (Some (demo_user False))"
    by (simp add: demo_resent_def resendOtp_def demo1_docs demo1_redis demo_eval)
  show ?thesis
    by (rule resend_supersedes_older_codes [OF demo_service r f]) (simp_all add: demo_eval)
qed

text \<open>
  An access token cannot be used to refresh. The access token that a sign-in returns carries
  no refresh-token id, so \<^verbatim>\<open>refreshToken\<close> answers a bad request and changes nothing, at any time
  and in any state.
\<close>

theorem access_token_cannot_refresh:
  assumes "auth_service E ks docs" and "singIn E now uuid email password st = (Inr p, st')"
    and "accessTokenTtl (ae_config E) = Num ttl"
  shows "\<exists>m. refreshTokens E t uuid' (accessToken p) st'' = (Inl (HttpException BadRequest m), st'')"
  using assms(2)
proof (cases rule: singIn_cases)
  case (granted user p')
  then show ?thesis
    using generateTokens_Inr(3) [OF granted(5)] assms(3)
    by (intro auth_service.token_without_id_refused [OF assms(1)]) auto
qed simp

theorem access_token_cannot_refresh_witness:
  "\<exists>m. refreshTokens demo_env 8000 ''r2'' (accessToken (projr (fst demo3))) (snd demo3)
     = (Inl (HttpException BadRequest m), snd demo3)"
proof -
  have s: "singIn demo_env 6000 ''r1'' ''ada@x.io'' ''secret'' (snd demo2) = (Inr (projr (fst demo3)), snd demo3)"
    using demo3_result by (simp add: demo3_def [symmetric] prod_eq_iff)
  show ?thesis
    by (rule access_token_cannot_refresh [OF demo_service s, of 3600]) (simp add: demo_env_def)
qed

text \<open>
  Signing up twice. Once the account of a sign-up is stored, another sign-up with an email
  that normalises to the same address answers a conflict and changes nothing: no second
  account, no new code, no mail.
\<close>

theorem duplicate_sign_up_conflicts:
  assumes "auth_service E ks docs" and "singUp E now salt rnd dto st = (Inr d, st1)"
    and "d \<in> set (docs (as_users st1))" and "norm_email (su_email dto') = norm_email (su_email dto)"
    and "findByEmail (ae_users E) (su_email dto') (as_users st1) = Inr found"
  shows "singUp E now' salt' rnd' dto' st1 = (Inl (HttpException Conflict ''Email already exists''), st1)"
proof -
  have "u_email d = norm_email (su_email dto')"
    using auth_service.singUp_otp(2) [OF assms(1,2)] assms(4) by simp
  then have "found \<noteq> None"
    using assms(3) auth_service.axioms(2) [OF assms(1), THEN user_collection.findByEmail_None] assms(5)
    by (metis image_eqI)
  then show ?thesis by (auto simp: singUp_def assms(5))
qed

theorem duplicate_sign_up_conflicts_witness:
  "singUp demo_env 100 [] 654321 demo_dto (snd demo1)
     = (Inl (HttpException Conflict ''Email already exists''), snd demo1)"
proof -
  have s: "singUp demo_env 0 [] 123456 demo_dto demo_start = (Inr (demo_user False), snd demo1)"
    using demo1_result by (simp add: demo1_def [symmetric] prod_eq_iff)
  have f: "findByEmail (ae_users demo_env) (su_email demo_dto) (as_users (snd demo1)) = Inr (Some (demo_user False))"
    by (simp add: demo1_docs demo_eval)
  show ?thesis
    by (rule duplicate_sign_up_conflicts [OF demo_service s _ _ f]) (simp_all add: demo1_docs)
qed

end
