(* ===== verification/ApiKey.thy ===== *)
theory ApiKey
  imports RedisService "HOL-Library.Word"
begin

text \<open>
  API keys: the schema, the repository and the service of src/src/api-key (creation, validation,
  activation, deletion), and the usage counter kept in Redis by api-key-usage.service.ts with its
  Lua script and its periodic write-back to the database. The Mongoose model is a parameter; the
  locale \<open>api_key_collection\<close> states its documented behaviour.
\<close>

section \<open>Documents and the Mongoose model\<close>

record api_key =
  ak_name :: string
  ak_key :: string
  ak_ownerId :: string
  ak_active :: bool
  ak_usageCount :: int
  ak_usageLimit :: int

text \<open>The defaults of the schema, for a document made of a key, an owner and a name.\<close>

definition new_api_key :: "string \<Rightarrow> string \<Rightarrow> string \<Rightarrow> api_key" where
  "new_api_key key ownerId name = \<lparr>ak_name = name, ak_key = key, ak_ownerId = ownerId,
     ak_active = True, ak_usageCount = 0, ak_usageLimit = 5000\<rparr>"

record 'd api_key_model =
  akm_findOne :: "string \<Rightarrow> 'd \<Rightarrow> api_key option result"
  akm_find :: "string \<Rightarrow> 'd \<Rightarrow> api_key list result"
  akm_updateActive :: "string \<Rightarrow> string \<Rightarrow> bool \<Rightarrow> 'd \<Rightarrow> api_key option result \<times> 'd"
  akm_updateUsage :: "string option \<Rightarrow> int jsnum \<Rightarrow> 'd \<Rightarrow> api_key option result \<times> 'd"
  akm_delete :: "string \<Rightarrow> string \<Rightarrow> 'd \<Rightarrow> api_key option result \<times> 'd"
  akm_save :: "api_key \<Rightarrow> 'd \<Rightarrow> api_key result \<times> 'd"

definition owned_key :: "string \<Rightarrow> string \<Rightarrow> api_key \<Rightarrow> bool" where
  "owned_key ownerId key d = (ak_ownerId d = ownerId \<and> ak_key d = key)"

definition has_key :: "string \<Rightarrow> api_key \<Rightarrow> bool" where
  "has_key key d = (ak_key d = key)"

definition others :: "string \<Rightarrow> api_key list \<Rightarrow> api_key list" where
  "others ow ds = filter (\<lambda>a. ak_ownerId a \<noteq> ow) ds"

lemma others_update [simp]:
  "others ow (update_first (owned_key ow k) (ak_active_update f) ds) = others ow ds"
  by (induction ds) (auto simp: others_def owned_key_def)

lemma others_remove [simp]: "others ow (remove_first (owned_key ow k) ds) = others ow ds"
  by (induction ds) (auto simp: others_def owned_key_def)

lemma others_add [simp]: "others ow (ds @ [new_api_key k ow name]) = others ow ds"
  by (simp add: others_def new_api_key_def)

locale api_key_collection =
  fixes M :: "'d api_key_model" and docs :: "'d \<Rightarrow> api_key list"
  assumes akm_findOne: "akm_findOne M k d = Inr x \<Longrightarrow> x = find (has_key k) (docs d)"
    and akm_find: "akm_find M ow d = Inr xs \<Longrightarrow> xs = filter (\<lambda>a. ak_ownerId a = ow) (docs d)"
    and akm_updateActive: "akm_updateActive M ow k b d = (r, d') \<Longrightarrow>
          docs d' = update_first (owned_key ow k) (ak_active_update (\<lambda>_. b)) (docs d) \<or> isl r \<and> docs d' = docs d"
    and akm_updateUsage: "akm_updateUsage M (Some k) (Num n) d = (r, d') \<Longrightarrow>
          docs d' = update_first (has_key k) (ak_usageCount_update (\<lambda>_. n)) (docs d) \<or> isl r \<and> docs d' = docs d"
    and akm_updateUsage_bad: "ko = None \<or> c = NaN \<Longrightarrow> docs (snd (akm_updateUsage M ko c d)) = docs d"
    and akm_delete: "akm_delete M ow k d = (r, d') \<Longrightarrow>
          docs d' = remove_first (owned_key ow k) (docs d) \<or> isl r \<and> docs d' = docs d"
    and akm_save: "akm_save M a d = (Inr a', d') \<Longrightarrow> a' = a \<and>
          (docs d' = docs d @ [a] \<or> ak_key a \<in> ak_key ` set (docs d) \<and> docs d' = docs d)"
    and akm_unique: "distinct (map ak_key (docs d))"
    and akm_save_Inl: "akm_save M a d = (Inl e, d') \<Longrightarrow> docs d' = docs d"

section \<open>The repository\<close>

text \<open>
  As in the other repositories, the queries are returned unawaited, so the \<^verbatim>\<open>catch\<close> blocks are
  inert and a failed query keeps its own error.
\<close>

definition repo_updateApiKeyActivation ::
  "'d api_key_model \<Rightarrow> string \<Rightarrow> string \<Rightarrow> bool \<Rightarrow> 'd \<Rightarrow> api_key option result \<times> 'd" where
  "repo_updateApiKeyActivation M ownerId key isActive d = akm_updateActive M ownerId key isActive d"

definition repo_deleteApiKey ::
  "'d api_key_model \<Rightarrow> string \<Rightarrow> string \<Rightarrow> 'd \<Rightarrow> api_key option result \<times> 'd" where
  "repo_deleteApiKey M ownerId key d = akm_delete M ownerId key d"

definition repo_updateApiKeyUsage ::
  "'d api_key_model \<Rightarrow> string option \<Rightarrow> int jsnum \<Rightarrow> 'd \<Rightarrow> api_key option result \<times> 'd" where
  "repo_updateApiKeyUsage M key apiKeyUsageCount d = akm_updateUsage M key apiKeyUsageCount d"

definition repo_findApiKey :: "'d api_key_model \<Rightarrow> string \<Rightarrow> 'd \<Rightarrow> api_key option result" where
  "repo_findApiKey M apiKey d = akm_findOne M apiKey d"

definition repo_findUserApiKeys :: "'d api_key_model \<Rightarrow> string \<Rightarrow> 'd \<Rightarrow> api_key list result" where
  "repo_findUserApiKeys M ownerId d = akm_find M ownerId d"

definition repo_createApiKey ::
  "'d api_key_model \<Rightarrow> string \<Rightarrow> string \<Rightarrow> string \<Rightarrow> 'd \<Rightarrow> api_key result \<times> 'd" where
  "repo_createApiKey M key ownerId name d = akm_save M (new_api_key key ownerId name) d"

lemmas repo_defs = repo_updateApiKeyActivation_def repo_deleteApiKey_def repo_updateApiKeyUsage_def
  repo_findApiKey_def repo_findUserApiKeys_def repo_createApiKey_def

section \<open>The service\<close>

definition hex_char :: "nat \<Rightarrow> char" where
  "hex_char d = (if d < 10 then char_of (48 + d) else char_of (87 + d))"

definition hex_byte :: "8 word \<Rightarrow> string" where
  "hex_byte b = [hex_char (unat b div 16), hex_char (unat b mod 16)]"

definition to_hex :: "8 word list \<Rightarrow> string" where
  "to_hex bs = concat (map hex_byte bs)"

text \<open>The random bytes are an argument: \<^verbatim>\<open>crypto.randomBytes(24)\<close> yields 24 of them.\<close>

definition generateApiKey :: "string \<Rightarrow> 8 word list \<Rightarrow> string" where
  "generateApiKey ownerId randomBytes =
     ''evntfy_'' @ take 4 ownerId @ ''_'' @ to_hex randomBytes"

definition createApiKey ::
  "'d api_key_model \<Rightarrow> 8 word list \<Rightarrow> string \<Rightarrow> string \<Rightarrow> 'd \<Rightarrow> string result \<times> 'd" where
  "createApiKey M randomBytes ownerId name d =
     (let apiKey = generateApiKey ownerId randomBytes in
      case repo_createApiKey M apiKey ownerId name d of
        (Inl e, d') \<Rightarrow> (Inl e, d')
      | (Inr _, d') \<Rightarrow> (Inr apiKey, d'))"

definition validateApiKey :: "'d api_key_model \<Rightarrow> string \<Rightarrow> 'd \<Rightarrow> api_key result" where
  "validateApiKey M dto d =
     (case repo_findApiKey M dto d of
        Inl e \<Rightarrow> Inl e
      | Inr None \<Rightarrow> Inl (HttpException BadRequest ''Invalid API key. Please provide a valid key.'')
      | Inr (Some apiKey) \<Rightarrow>
          if \<not> ak_active apiKey
          then Inl (HttpException BadRequest
            ''This API key has been deactivated. Please request a new one.'')
          else if ak_usageLimit apiKey \<le> ak_usageCount apiKey
          then Inl (HttpException BadRequest
            ''API key usage limit reached. Please upgrade your plan to continue using the service.'')
          else Inr apiKey)"

definition deleteApiKey where
  "deleteApiKey M ownerId key d = repo_deleteApiKey M ownerId key d"

definition updateApiKeyActivation where
  "updateApiKeyActivation M ownerId key isActive d = repo_updateApiKeyActivation M ownerId key isActive d"

definition findUserApiKeys where
  "findUserApiKeys M ownerId d = repo_findUserApiKeys M ownerId d"

definition updateApiKeyUsage where
  "updateApiKeyUsage M key apiKeyUsageCount d = repo_updateApiKeyUsage M (Some key) apiKeyUsageCount d"

section \<open>The usage counter\<close>

record api_key_status =
  st_key :: string
  st_ownerId :: string
  st_usageCount :: int
  st_usageLimit :: int
  st_active :: bool

definition status_of :: "api_key \<Rightarrow> api_key_status" where
  "status_of a = \<lparr>st_key = ak_key a, st_ownerId = ak_ownerId a, st_usageCount = ak_usageCount a,
     st_usageLimit = ak_usageLimit a, st_active = ak_active a\<rparr>"

record usage_report =
  ur_key :: "string option"
  ur_ownerId :: "string option"
  ur_usageCount :: "int jsnum"
  ur_usageLimit :: "int jsnum"
  ur_active :: bool
  ur_limitExceeded :: bool

record ('s, 'd) usage_state =
  us_redis :: 's
  us_sync :: "string \<rightharpoonup> nat"
  us_db :: 'd

text \<open>The driver writes numbers and booleans as their JavaScript strings.\<close>

definition show_bool :: "bool \<Rightarrow> string" where
  "show_bool b = (if b then ''true'' else ''false'')"

definition usage_fields :: "api_key_status \<Rightarrow> (string \<times> string) list" where
  "usage_fields a = [(''key'', st_key a), (''ownerId'', st_ownerId a),
     (''usageCount'', show_int (st_usageCount a)), (''usageLimit'', show_int (st_usageLimit a)),
     (''active'', show_bool (st_active a))]"

text \<open>
  \<^verbatim>\<open>initializeApiKeyUsage\<close> is two commands, an existence check and, after its reply, a write;
  \<open>initializeApiKeyUsage\<close> runs them with nothing in between.
\<close>

definition init_check :: "'s redis \<Rightarrow> int \<Rightarrow> string \<Rightarrow> 's \<Rightarrow> bool" where
  "init_check R now apiKeyId s = rd_exists R now (getKeyName apiKeyId) s"

definition init_write :: "'s redis \<Rightarrow> int \<Rightarrow> string \<Rightarrow> api_key_status \<Rightarrow> bool \<Rightarrow> 's \<Rightarrow> 's" where
  "init_write R now apiKeyId apiKeyStatus exists s =
     (if \<not> exists then rd_hset R now (getKeyName apiKeyId) (usage_fields apiKeyStatus) s else s)"

definition initializeApiKeyUsage :: "'s redis \<Rightarrow> int \<Rightarrow> string \<Rightarrow> api_key_status \<Rightarrow> 's \<Rightarrow> 's" where
  "initializeApiKeyUsage R now apiKeyId apiKeyStatus s =
     init_write R now apiKeyId apiKeyStatus (init_check R now apiKeyId s) s"

definition registerApiKey :: "'s redis \<Rightarrow> int \<Rightarrow> string \<Rightarrow> api_key_status \<Rightarrow> 's \<Rightarrow> 's" where
  "registerApiKey R now apiKeyId apiKeyStatus s =
     (let key = getKeyName apiKeyId;
          s1 = (if rd_hgetall R now key s \<noteq> [] then rd_del R now key s else s)
      in rd_hset R now key (usage_fields apiKeyStatus) s1)"

text \<open>
  The Lua script, one atomic step of the server: it increments the count and replies with the
  fields key, ownerId, the new count, usageLimit and active; a missing field is nil.
\<close>

definition increment_usage_script :: "'s redis \<Rightarrow> int \<Rightarrow> string \<Rightarrow> 's \<Rightarrow> string option list \<times> 's" where
  "increment_usage_script R now key s =
     (let (usageCount, s1) = rd_hincrby R now key ''usageCount'' 1 s;
          data = rd_hmget R now key [''usageLimit'', ''active'', ''key'', ''ownerId''] s1
      in ([data ! 2, data ! 3, Some (show_int usageCount), data ! 0, data ! 1], s1))"

definition parse_reply :: "string option \<Rightarrow> int jsnum" where
  "parse_reply x = (case x of None \<Rightarrow> NaN | Some t \<Rightarrow> parseInt10 t)"

definition sync_interval :: nat where "sync_interval = 1000"

text \<open>
  What follows the script's reply: the synchronisation counter and, at every thousandth use, the write-back. It is not
  awaited: its outcome does not reach the caller.
\<close>

definition account_usage ::
  "'d api_key_model \<Rightarrow> string \<Rightarrow> string option list \<Rightarrow> ('s, 'd) usage_state \<Rightarrow> usage_report \<times> ('s, 'd) usage_state" where
  "account_usage M apiKeyId reply st =
     (let apiKey = reply ! 0; ownerId = reply ! 1; active = reply ! 4;
          usageCount = parse_reply (reply ! 2); usageLimit = parse_reply (reply ! 3);
          currentCount = (case us_sync st apiKeyId of None \<Rightarrow> 0 | Some n \<Rightarrow> n);
          sync1 = (us_sync st)(apiKeyId \<mapsto> currentCount + 1);
          st1 = (if (currentCount + 1) mod sync_interval = 0
                 then st\<lparr>us_sync := sync1(apiKeyId \<mapsto> 0),
                         us_db := snd (repo_updateApiKeyUsage M apiKey usageCount (us_db st))\<rparr>
                 else st\<lparr>us_sync := sync1\<rparr>)
      in (\<lparr>ur_key = apiKey, ur_ownerId = ownerId, ur_usageCount = usageCount, ur_usageLimit = usageLimit,
           ur_active = (case active of None \<Rightarrow> False | Some t \<Rightarrow> t \<noteq> []),
           ur_limitExceeded = num_gt usageCount usageLimit\<rparr>, st1))"

definition incrementUsage ::
  "'s redis \<Rightarrow> 'd api_key_model \<Rightarrow> int \<Rightarrow> string \<Rightarrow> ('s, 'd) usage_state
     \<Rightarrow> usage_report \<times> ('s, 'd) usage_state" where
  "incrementUsage R M now apiKeyId st =
     (let (reply, s1) = increment_usage_script R now (getKeyName apiKeyId) (us_redis st)
      in account_usage M apiKeyId reply (st\<lparr>us_redis := s1\<rparr>))"

lemmas incrementUsage_defs = incrementUsage_def account_usage_def

definition getUsage :: "'s redis \<Rightarrow> int \<Rightarrow> string \<Rightarrow> 's \<Rightarrow> usage_report option" where
  "getUsage R now apiKeyId s =
     (let usage = rd_hgetall R now (getKeyName apiKeyId) s;
          usageCount = parse_reply (map_of usage ''usageCount'');
          usageLimit = parse_reply (map_of usage ''usageLimit'')
      in if usage = [] then None
         else Some \<lparr>ur_key = map_of usage ''key'', ur_ownerId = map_of usage ''ownerId'',
           ur_usageCount = usageCount, ur_usageLimit = usageLimit,
           ur_active = (map_of usage ''active'' = Some ''1''),
           ur_limitExceeded = num_gt usageCount usageLimit\<rparr>)"

definition resetUsage :: "'s redis \<Rightarrow> int \<Rightarrow> string \<Rightarrow> 's \<Rightarrow> 's" where
  "resetUsage R now apiKeyId s = rd_hset R now (getKeyName apiKeyId) [(''usageCount'', show_int 0)] s"

definition deleteApiKeyUsage :: "'s redis \<Rightarrow> int \<Rightarrow> string \<Rightarrow> 's \<Rightarrow> 's" where
  "deleteApiKeyUsage R now apiKeyId s = rd_del R now (getKeyName apiKeyId) s"

section \<open>A reference collection\<close>

typedef key_db = "{ds :: api_key list. distinct (map ak_key ds)}"
  by (rule exI [of _ "[]"]) simp

setup_lifting type_definition_key_db

lift_definition key_docs :: "key_db \<Rightarrow> api_key list" is "\<lambda>ds. ds" .

lift_definition key_empty :: key_db is "[]" by simp

lift_definition key_set_active :: "string \<Rightarrow> string \<Rightarrow> bool \<Rightarrow> key_db \<Rightarrow> key_db" is
  "\<lambda>ow k b ds. update_first (owned_key ow k) (ak_active_update (\<lambda>_. b)) ds"
  by (simp add: map_update_first)

lift_definition key_set_usage :: "string \<Rightarrow> int \<Rightarrow> key_db \<Rightarrow> key_db" is
  "\<lambda>k n ds. update_first (has_key k) (ak_usageCount_update (\<lambda>_. n)) ds"
  by (simp add: map_update_first)

lemma distinct_remove_first: "distinct (map f xs) \<Longrightarrow> distinct (map f (remove_first p xs))"
  using set_remove_first [of p] by (induction xs) (auto dest: subsetD)

lift_definition key_remove :: "string \<Rightarrow> string \<Rightarrow> key_db \<Rightarrow> key_db" is
  "\<lambda>ow k ds. remove_first (owned_key ow k) ds"
  by (rule distinct_remove_first)

lift_definition key_add :: "api_key \<Rightarrow> key_db \<Rightarrow> key_db" is
  "\<lambda>a ds. if ak_key a \<in> set (map ak_key ds) then ds else ds @ [a]"
  by auto

definition mem_keys :: "key_db api_key_model" where
  "mem_keys = \<lparr>
     akm_findOne = (\<lambda>k d. Inr (find (has_key k) (key_docs d))),
     akm_find = (\<lambda>ow d. Inr (filter (\<lambda>a. ak_ownerId a = ow) (key_docs d))),
     akm_updateActive = (\<lambda>ow k b d. (Inr (find (owned_key ow k) (key_docs d)), key_set_active ow k b d)),
     akm_updateUsage = (\<lambda>ko c d. case (ko, c) of
         (Some k, Num n) \<Rightarrow> (Inr (find (has_key k) (key_docs d)), key_set_usage k n d)
       | (None, c) \<Rightarrow> (Inr None, d)
       | (ko, NaN) \<Rightarrow> (Inl (JsError ''Cast to Number failed''), d)),
     akm_delete = (\<lambda>ow k d. (Inr (find (owned_key ow k) (key_docs d)), key_remove ow k d)),
     akm_save = (\<lambda>a d. (Inr a, key_add a d)) \<rparr>"

lemma key_docs_ops [simp]:
  "key_docs key_empty = []"
  "key_docs (key_set_active ow k b d) = update_first (owned_key ow k) (ak_active_update (\<lambda>_. b)) (key_docs d)"
  "key_docs (key_set_usage k n d) = update_first (has_key k) (ak_usageCount_update (\<lambda>_. n)) (key_docs d)"
  "key_docs (key_remove ow k d) = remove_first (owned_key ow k) (key_docs d)"
  "key_docs (key_add a d) = (if ak_key a \<in> ak_key ` set (key_docs d) then key_docs d else key_docs d @ [a])"
  by (transfer; simp)+

lemma key_docs_distinct: "distinct (map ak_key (key_docs d))"
  by transfer

interpretation memk: api_key_collection mem_keys key_docs
  by unfold_locales
    (auto simp: mem_keys_def key_docs_distinct image_iff split: option.splits jsnum.splits if_splits)

end
