(* ===== verification/ApiKeyProps.thy ===== *)
theory ApiKeyProps
  imports ApiKey
begin

text \<open>
  What the API-key components guarantee: the shape of generated keys, who can switch a key off,
  how the usage counter in Redis and its copy in the database move together, and where the
  reported flags of the counter differ from the stored key.
\<close>

section \<open>Generated keys\<close>

definition hex_val :: "char \<Rightarrow> nat" where
  "hex_val c = (case digit_val c of None \<Rightarrow> 0 | Some d \<Rightarrow> d)"

fun from_hex :: "string \<Rightarrow> 8 word list" where
  "from_hex (a # b # cs) = of_nat (16 * hex_val a + hex_val b) # from_hex cs"
| "from_hex _ = []"

lemma hex_val_char: "d < 16 \<Longrightarrow> hex_val (hex_char d) = d"
  by (simp add: hex_val_def hex_char_def digit_val_def Let_def)

lemma from_to_hex [simp]: "from_hex (to_hex bs) = bs"
proof (induction bs)
  case (Cons b bs)
  have "unat b < 256" using unsigned_less [of b] by simp
  then have "16 * hex_val (hex_char (unat b div 16)) + hex_val (hex_char (unat b mod 16)) = unat b"
    by (simp add: hex_val_char)
  with Cons show ?case by (simp add: to_hex_def hex_byte_def)
qed (simp add: to_hex_def)

lemma length_to_hex [simp]: "length (to_hex bs) = 2 * length bs"
  by (induction bs) (simp_all add: to_hex_def hex_byte_def)

section \<open>Run of the counter\<close>

text \<open>The increments of one key at the times \<open>ts\<close>.\<close>

fun increments ::
  "'s redis \<Rightarrow> 'd api_key_model \<Rightarrow> string \<Rightarrow> int list \<Rightarrow> ('s, 'd) usage_state \<Rightarrow> ('s, 'd) usage_state" where
  "increments R M apiKeyId [] st = st"
| "increments R M apiKeyId (now # ts) st = increments R M apiKeyId ts (snd (incrementUsage R M now apiKeyId st))"

definition usage_hash :: "keyspace \<Rightarrow> string \<Rightarrow> string \<Rightarrow> int \<Rightarrow> int \<Rightarrow> bool" where
  "usage_hash K k key limit c = (case K k of
       Some (RHash h, None) \<Rightarrow> map_of h ''key'' = Some key \<and> map_of h ''usageLimit'' = Some (show_int limit)
         \<and> map_of h ''usageCount'' = Some (show_int c)
     | _ \<Rightarrow> False)"

definition sync_count :: "('s, 'd) usage_state \<Rightarrow> string \<Rightarrow> nat" where
  "sync_count st apiKeyId = (case us_sync st apiKeyId of None \<Rightarrow> 0 | Some n \<Rightarrow> n)"

definition db_usage :: "api_key list \<Rightarrow> string \<Rightarrow> int option" where
  "db_usage ds key = map_option ak_usageCount (find (has_key key) ds)"

text \<open>The count of a key in Redis, its uses since the last write-back, and its count in the database.\<close>

definition counted ::
  "('s \<Rightarrow> keyspace) \<Rightarrow> ('d \<Rightarrow> api_key list) \<Rightarrow> string \<Rightarrow> string \<Rightarrow> int \<Rightarrow> int \<Rightarrow> nat \<Rightarrow> int \<Rightarrow> ('s, 'd) usage_state \<Rightarrow> bool" where
  "counted ks docs apiKeyId key limit c n d st \<longleftrightarrow>
     usage_hash (ks (us_redis st)) (getKeyName apiKeyId) key limit c \<and> sync_count st apiKeyId = n
     \<and> db_usage (docs (us_db st)) key = Some d"

text \<open>
  \<open>n\<close> increments after a start at count \<open>c0\<close> in step with the database.
\<close>

definition metered ::
  "('s \<Rightarrow> keyspace) \<Rightarrow> ('d \<Rightarrow> api_key list) \<Rightarrow> string \<Rightarrow> string \<Rightarrow> int \<Rightarrow> int \<Rightarrow> nat \<Rightarrow> ('s, 'd) usage_state \<Rightarrow> bool" where
  "metered ks docs apiKeyId key limit c0 n st \<longleftrightarrow>
     usage_hash (ks (us_redis st)) (getKeyName apiKeyId) key limit (c0 + int n)
     \<and> sync_count st apiKeyId = n mod sync_interval
     \<and> db_usage (docs (us_db st)) key = Some (c0 + int (sync_interval * (n div sync_interval)))"

lemma metered_counted:
  "metered ks docs apiKeyId key limit c0 n st = counted ks docs apiKeyId key limit (c0 + int n) (n mod sync_interval)
     (c0 + int (sync_interval * (n div sync_interval))) st"
  by (simp add: metered_def counted_def)

lemma updates_usage_fields:
  "map_of (AList.updates (map fst (usage_fields a)) (map snd (usage_fields a)) h) = (map_of h)
     (''key'' \<mapsto> st_key a, ''ownerId'' \<mapsto> st_ownerId a, ''usageCount'' \<mapsto> show_int (st_usageCount a),
      ''usageLimit'' \<mapsto> show_int (st_usageLimit a), ''active'' \<mapsto> show_bool (st_active a))"
  by (simp add: usage_fields_def update_conv')

locale usage_service = redis_server R ks + api_key_collection M docs
  for R :: "'s redis" and ks :: "'s \<Rightarrow> keyspace"
    and M :: "'d api_key_model" and docs :: "'d \<Rightarrow> api_key list" +
  assumes write_back_succeeds: "\<not> isl (fst (akm_updateUsage M (Some k) (Num n) d))"
begin

lemma usage_hash_live:
  "usage_hash (ks s) k key limit c \<Longrightarrow> \<exists>h. live now (ks s) k = Some (RHash h, None)
     \<and> map_of h ''key'' = Some key \<and> map_of h ''usageLimit'' = Some (show_int limit)
     \<and> map_of h ''usageCount'' = Some (show_int c)"
  by (auto simp: usage_hash_def live_def unexpired_def split: option.splits prod.splits rval.splits)

lemma live_usage_hash:
  assumes "live now (ks s) k = Some (RHash h, None)"
    and "map_of h ''key'' = Some key" and "map_of h ''usageLimit'' = Some (show_int limit)"
    and "map_of h ''usageCount'' = Some (show_int c)"
  shows "usage_hash (ks s) k key limit c"
  using assms by (auto simp: usage_hash_def live_def split: option.splits if_splits)

lemma script_effect:
  assumes "usage_hash (ks s) k key limit c"
    and "increment_usage_script R now k s = (reply, s1)"
  shows "usage_hash (ks s1) k key limit (c + 1)"
    and "reply ! 0 = Some key" and "reply ! 2 = Some (show_int (c + 1))"
    and "reply ! 3 = Some (show_int limit)"
proof -
  obtain h where h: "live now (ks s) k = Some (RHash h, None)" "map_of h ''key'' = Some key"
    "map_of h ''usageLimit'' = Some (show_int limit)" "map_of h ''usageCount'' = Some (show_int c)"
    using usage_hash_live [OF assms(1)] by blast
  have f: "counter_field now (ks s) k ''usageCount''" and hc: "hcount now (ks s) k ''usageCount'' = c"
    using h by (simp_all add: counter_field_def hcount_def ks_hash_def counter_of_def)
  obtain cnt where p: "rd_hincrby R now k ''usageCount'' 1 s = (cnt, s1)"
    and reply: "reply = (let data = rd_hmget R now k [''usageLimit'', ''active'', ''key'', ''ownerId''] s1
        in [data ! 2, data ! 3, Some (show_int cnt), data ! 0, data ! 1])"
    using assms(2) by (auto simp: increment_usage_script_def Let_def split: prod.splits)
  have cnt: "cnt = c + 1" using rd_hincrby_reply [OF f, of 1] p hc by simp
  have s1: "ks s1 = ks_hincrby now k ''usageCount'' 1 (ks s)"
    using rd_hincrby [of now k "''usageCount''" 1 s] p by simp
  obtain h1 where h1: "live now (ks s1) k = Some (RHash h1, None)"
      "map_of h1 = (map_of h)(''usageCount'' \<mapsto> show_int (c + 1))"
    using live_hincrby [OF f, of 1] h hc s1 by (auto simp: key_deadline_def ks_hash_def)
  show "usage_hash (ks s1) k key limit (c + 1)"
    by (rule live_usage_hash [OF h1(1)]) (simp_all add: h1(2) h)
  have "rd_hmget R now k fs s1 = map (map_of h1) fs" for fs
    using h1(1) by (simp add: rd_hmget ks_hash_def)
  then show "reply ! 0 = Some key" "reply ! 2 = Some (show_int (c + 1))" "reply ! 3 = Some (show_int limit)"
    by (simp_all add: reply Let_def h1(2) h cnt)
qed

text \<open>One use of a key, whatever the database holds: the count is written back when the counter of uses is full.\<close>

lemma increment_counted:
  assumes "counted ks docs apiKeyId key limit c n d st" and "n < sync_interval"
  shows "counted ks docs apiKeyId key limit (c + 1) (Suc n mod sync_interval) (if Suc n = sync_interval then c + 1 else d)
      (snd (incrementUsage R M now apiKeyId st))"
    and "ur_usageCount (fst (incrementUsage R M now apiKeyId st)) = Num (c + 1)"
    and "ur_limitExceeded (fst (incrementUsage R M now apiKeyId st)) = (limit < c + 1)"
proof -
  let ?k = "getKeyName apiKeyId" and ?inc = "incrementUsage R M now apiKeyId st"
  obtain reply s1 where p: "increment_usage_script R now ?k (us_redis st) = (reply, s1)"
    by (cases "increment_usage_script R now ?k (us_redis st)")
  have m: "usage_hash (ks (us_redis st)) ?k key limit c" "db_usage (docs (us_db st)) key = Some d"
    and cur: "(case us_sync st apiKeyId of None \<Rightarrow> 0 | Some n \<Rightarrow> n) = n"
    using assms(1) by (simp_all add: counted_def sync_count_def)
  note e = script_effect [OF m(1) p]
  show "ur_usageCount (fst ?inc) = Num (c + 1)" and "ur_limitExceeded (fst ?inc) = (limit < c + 1)"
    by (auto simp: incrementUsage_defs p e parse_reply_def Let_def)
  show "counted ks docs apiKeyId key limit (c + 1) (Suc n mod sync_interval) (if Suc n = sync_interval then c + 1 else d) (snd ?inc)"
  proof (cases "Suc n = sync_interval")
    case False
    with assms(2) have "Suc n mod sync_interval = Suc n" by simp
    then show ?thesis using e m False by (simp add: counted_def incrementUsage_defs p Let_def cur sync_count_def)
  next
    case True
    obtain r d' where u: "akm_updateUsage M (Some key) (Num (c + 1)) (us_db st) = (r, d')"
      by (cases "akm_updateUsage M (Some key) (Num (c + 1)) (us_db st)")
    have "docs d' = update_first (has_key key) (ak_usageCount_update (\<lambda>_. c + 1)) (docs (us_db st))"
      using akm_updateUsage [OF u] write_back_succeeds [of key "c + 1" "us_db st"] u by simp
    then have "db_usage (docs d') key = Some (c + 1)"
      using m(2) by (auto simp: db_usage_def find_update_first has_key_def)
    with u show ?thesis
      using e True by (simp add: counted_def incrementUsage_defs p Let_def cur sync_count_def
          repo_updateApiKeyUsage_def parse_reply_def)
  qed
qed

lemma increment_metered:
  assumes "metered ks docs apiKeyId key limit c0 n st"
  shows "metered ks docs apiKeyId key limit c0 (Suc n) (snd (incrementUsage R M now apiKeyId st))"
    and "ur_usageCount (fst (incrementUsage R M now apiKeyId st)) = Num (c0 + int (Suc n))"
    and "ur_limitExceeded (fst (incrementUsage R M now apiKeyId st)) = (limit < c0 + int (Suc n))"
proof -
  have lt: "n mod sync_interval < sync_interval" by (simp add: sync_interval_def)
  note i = increment_counted [OF assms [unfolded metered_counted] lt, of now]
  show "ur_usageCount (fst (incrementUsage R M now apiKeyId st)) = Num (c0 + int (Suc n))"
    "ur_limitExceeded (fst (incrementUsage R M now apiKeyId st)) = (limit < c0 + int (Suc n))"
    using i(2,3) by (simp_all add: algebra_simps)
  show "metered ks docs apiKeyId key limit c0 (Suc n) (snd (incrementUsage R M now apiKeyId st))"
  proof (cases "Suc (n mod sync_interval) = sync_interval")
    case True
    then have z: "Suc n mod sync_interval = 0" by (simp add: mod_Suc)
    then have "sync_interval * (Suc n div sync_interval) = Suc n" using mult_div_mod_eq [of sync_interval "Suc n"] by simp
    with i(1) True z show ?thesis by (simp add: metered_counted algebra_simps)
  next
    case False
    then have "Suc n div sync_interval = n div sync_interval" by (auto simp: div_Suc sync_interval_def mod_Suc split: if_splits)
    with i(1) False show ?thesis by (simp add: metered_counted algebra_simps mod_Suc_eq)
  qed
qed

lemma increments_metered:
  "metered ks docs apiKeyId key limit c0 n st \<Longrightarrow>
     metered ks docs apiKeyId key limit c0 (n + length ts) (increments R M apiKeyId ts st)"
proof (induction ts arbitrary: n st)
  case (Cons now ts)
  from Cons.IH [OF increment_metered(1) [OF Cons.prems]] show ?case by simp
qed simp

lemma initialize_metered:
  assumes "ks (us_redis st) (getKeyName apiKeyId) = None" and "us_sync st apiKeyId = None"
    and "find (has_key (ak_key a)) (docs (us_db st)) = Some a"
  shows "metered ks docs apiKeyId (ak_key a) (ak_usageLimit a) (ak_usageCount a) 0
     (st\<lparr>us_redis := initializeApiKeyUsage R now apiKeyId (status_of a) (us_redis st)\<rparr>)"
  using assms
  by (simp add: metered_def initializeApiKeyUsage_def init_check_def init_write_def ks_simps live_def
      ks_hset_def ks_update_def hset_val_def usage_hash_def updates_usage_fields
      sync_count_def db_usage_def sync_interval_def status_of_def)

end

section \<open>A fresh usage hash\<close>

context redis_server
begin

lemma initialized_hash:
  assumes "ks s (getKeyName apiKeyId) = None"
  obtains h where "live t (ks (initializeApiKeyUsage R now apiKeyId a s)) (getKeyName apiKeyId) = Some (RHash h, None)"
    and "map_of h = [''key'' \<mapsto> st_key a, ''ownerId'' \<mapsto> st_ownerId a, ''usageCount'' \<mapsto> show_int (st_usageCount a),
      ''usageLimit'' \<mapsto> show_int (st_usageLimit a), ''active'' \<mapsto> show_bool (st_active a)]"
proof -
  let ?h = "AList.updates (map fst (usage_fields a)) (map snd (usage_fields a)) []"
  have "live t (ks (initializeApiKeyUsage R now apiKeyId a s)) (getKeyName apiKeyId) = Some (RHash ?h, None)"
    using assms by (simp add: initializeApiKeyUsage_def init_check_def init_write_def ks_simps live_def
        ks_hset_def ks_update_def hset_val_def unexpired_def)
  then show ?thesis by (rule that) (simp add: updates_usage_fields)
qed

lemma hset_over_counter:
  assumes "live now (ks s) k = Some (RHash h, None)"
  shows "\<exists>h'. live t (ks (rd_hset R now' k (usage_fields a) s)) k = Some (RHash h', None)
     \<and> map_of h' ''usageCount'' = Some (show_int (st_usageCount a))"
proof -
  have l: "live t (ks s) k = Some (RHash h, None)" for t
    using assms by (auto simp: live_def unexpired_def split: option.splits if_splits)
  show ?thesis
    by (simp add: ks_simps ks_hset_def ks_update_def l hset_val_def) (simp add: live_def unexpired_def updates_usage_fields)
qed

text \<open>An increment of a key without a hash creates one with the count only.\<close>

lemma script_on_absent:
  assumes "ks s k = None" and "increment_usage_script R now k s = (reply, s1)"
  shows "reply = [None, None, Some (show_int 1), None, None]"
    and "\<exists>h. live t (ks s1) k = Some (RHash h, None)"
proof -
  have f: "counter_field now (ks s) k ''usageCount''" and z: "hcount now (ks s) k ''usageCount'' = 0"
    and l: "live now (ks s) k = None"
    using assms(1) by (simp_all add: counter_field_def live_def hcount_def ks_hash_def)
  obtain cnt where p: "rd_hincrby R now k ''usageCount'' 1 s = (cnt, s1)"
    and reply: "reply = (let data = rd_hmget R now k [''usageLimit'', ''active'', ''key'', ''ownerId''] s1
        in [data ! 2, data ! 3, Some (show_int cnt), data ! 0, data ! 1])"
    using assms(2) by (auto simp: increment_usage_script_def Let_def split: prod.splits)
  have cnt: "cnt = 1" using rd_hincrby_reply [OF f, of 1] p z by simp
  have s1: "ks s1 = ks_hincrby now k ''usageCount'' 1 (ks s)"
    using rd_hincrby [of now k "''usageCount''" 1 s] p by simp
  have h: "map_of (ks_hash now (ks s1) k) = [''usageCount'' \<mapsto> show_int 1]"
    using hash_hincrby [OF f, of 1] l z by (simp add: s1 ks_hash_def)
  show "reply = [None, None, Some (show_int 1), None, None]"
    by (simp add: reply rd_hmget h cnt)
  show "\<exists>h. live t (ks s1) k = Some (RHash h, None)"
    using l by (simp add: s1 ks_hincrby_def ks_update_def hincrby_val_def) (simp add: live_def unexpired_def)
qed

end

section \<open>A concrete service\<close>

definition demo_key :: api_key where
  "demo_key = (new_api_key ''k1'' ''u1'' ''n'')\<lparr>ak_usageCount := 998, ak_usageLimit := 999\<rparr>"

definition demo_usage :: "(keyspace, key_db) usage_state" where
  "demo_usage = \<lparr>us_redis = Map.empty, us_sync = Map.empty, us_db = key_add demo_key key_empty\<rparr>"

lemma demo_usage_docs: "key_docs (us_db demo_usage) = [demo_key]"
  by (simp add: demo_usage_def)

lemma demo_key_fields: "ak_key demo_key = ''k1''" "ak_usageCount demo_key = 998" "ak_usageLimit demo_key = 999"
    "ak_active demo_key" "ak_ownerId demo_key = ''u1''"
  by (simp_all add: demo_key_def new_api_key_def)

lemma demo_usage_service: "usage_service mem_redis (\<lambda>K. K) mem_keys key_docs"
  by (simp add: usage_service_def usage_service_axioms_def mem.redis_server_axioms
      memk.api_key_collection_axioms) (simp add: mem_keys_def)

interpretation demo_usage: usage_service mem_redis "\<lambda>K. K" mem_keys key_docs
  by (rule demo_usage_service)

section \<open>Properties\<close>

text \<open>
  C8: The count in Redis is exact and its copy in the database lags by less than 1000. Start from
  a stored key that has no usage hash yet and initialise it; after any \<open>n\<close> increments the hash
  counts \<open>n\<close> more than the stored count, the database holds the multiple of 1000 below that
  (relative to the start), and the next increment reports the exact count and whether it
  exceeds the limit.
\<close>

theorem usage_count_exact_and_synced:
  assumes "usage_service R ks M docs"
    and "ks (us_redis st) (getKeyName apiKeyId) = None" and "us_sync st apiKeyId = None"
    and "find (has_key (ak_key a)) (docs (us_db st)) = Some a"
    and "st' = increments R M apiKeyId ts
           (st\<lparr>us_redis := initializeApiKeyUsage R now apiKeyId (status_of a) (us_redis st)\<rparr>)"
    and "n = length ts"
  shows "usage_hash (ks (us_redis st')) (getKeyName apiKeyId) (ak_key a) (ak_usageLimit a) (ak_usageCount a + int n)
    \<and> db_usage (docs (us_db st')) (ak_key a) = Some (ak_usageCount a + int (1000 * (n div 1000)))
    \<and> ur_usageCount (fst (incrementUsage R M t apiKeyId st')) = Num (ak_usageCount a + int n + 1)
    \<and> ur_limitExceeded (fst (incrementUsage R M t apiKeyId st')) = (ak_usageLimit a < ak_usageCount a + int n + 1)"
proof -
  have m: "metered ks docs apiKeyId (ak_key a) (ak_usageLimit a) (ak_usageCount a) n st'"
    using usage_service.increments_metered [OF assms(1)
        usage_service.initialize_metered [OF assms(1-4), of now], of ts] assms(5,6) by simp
  with usage_service.increment_metered(2,3) [OF assms(1) m] show ?thesis
    by (auto simp: metered_def sync_interval_def)
qed

theorem usage_count_exact_and_synced_witness:
  "db_usage (key_docs (us_db (increments mem_redis mem_keys ''id'' [1, 2]
     (demo_usage\<lparr>us_redis := initializeApiKeyUsage mem_redis 0 ''id'' (status_of demo_key) (us_redis demo_usage)\<rparr>)))) ''k1''
   = Some 998"
  using usage_count_exact_and_synced [OF demo_usage_service _ _ _ refl refl,
      of demo_usage "''id''" demo_key "[1, 2]" 0]
  by (simp add: demo_usage_docs demo_key_fields has_key_def) (simp add: demo_usage_def)

text \<open>
  Validation reads the lagging copy. In the same situation, with the key active, the key is
  accepted exactly while the last written-back count is below the limit, whatever Redis
  has counted since: up to 999 uses beyond the limit pass.
\<close>

theorem validation_reads_last_sync:
  assumes "usage_service R ks M docs"
    and "ks (us_redis st) (getKeyName apiKeyId) = None" and "us_sync st apiKeyId = None"
    and "find (has_key (ak_key a)) (docs (us_db st)) = Some a"
    and "st' = increments R M apiKeyId ts
           (st\<lparr>us_redis := initializeApiKeyUsage R now apiKeyId (status_of a) (us_redis st)\<rparr>)"
    and "repo_findApiKey M (ak_key a) (us_db st') = Inr (Some b)" and "ak_active b"
    and "ak_usageLimit b = ak_usageLimit a"
  shows "validateApiKey M (ak_key a) (us_db st') = Inr b
     \<longleftrightarrow> ak_usageCount a + int (1000 * (length ts div 1000)) < ak_usageLimit a"
proof -
  have "metered ks docs apiKeyId (ak_key a) (ak_usageLimit a) (ak_usageCount a) (length ts) st'"
    using usage_service.increments_metered [OF assms(1)
        usage_service.initialize_metered [OF assms(1-4), of now], of ts] assms(5) by simp
  then have "db_usage (docs (us_db st')) (ak_key a) = Some (ak_usageCount a + int (1000 * (length ts div 1000)))"
    by (simp add: metered_def sync_interval_def)
  moreover have "find (has_key (ak_key a)) (docs (us_db st')) = Some b"
    using usage_service.axioms(2) [OF assms(1), THEN api_key_collection.akm_findOne] assms(6)
    by (metis repo_findApiKey_def)
  ultimately have "ak_usageCount b = ak_usageCount a + int (1000 * (length ts div 1000))"
    by (simp add: db_usage_def)
  then show ?thesis using assms(6-8) by (simp add: validateApiKey_def)
qed

text \<open>
  In the witness the stored count is 998 of 999; after five more uses the key still validates.
\<close>

theorem validation_reads_last_sync_witness:
  "\<exists>b. validateApiKey mem_keys ''k1'' (us_db (increments mem_redis mem_keys ''id'' [1, 2, 3, 4, 5]
     (demo_usage\<lparr>us_redis := initializeApiKeyUsage mem_redis 0 ''id'' (status_of demo_key) (us_redis demo_usage)\<rparr>))) = Inr b"
proof -
  let ?st = "increments mem_redis mem_keys ''id'' [1, 2, 3, 4, 5]
     (demo_usage\<lparr>us_redis := initializeApiKeyUsage mem_redis 0 ''id'' (status_of demo_key) (us_redis demo_usage)\<rparr>)"
  have db: "us_db ?st = us_db demo_usage"
    by (simp add: incrementUsage_defs Let_def sync_interval_def demo_usage_def split: prod.split)
  have f: "repo_findApiKey mem_keys (ak_key demo_key) (us_db ?st) = Inr (Some demo_key)"
    unfolding db by (simp add: repo_findApiKey_def mem_keys_def demo_usage_docs has_key_def)
  have "validateApiKey mem_keys (ak_key demo_key) (us_db ?st) = Inr demo_key
     \<longleftrightarrow> ak_usageCount demo_key + int (1000 * (length [1, 2, 3, 4, 5 :: int] div 1000)) < ak_usageLimit demo_key"
    by (rule validation_reads_last_sync [OF demo_usage_service _ _ _ refl f])
      (simp_all add: demo_usage_docs demo_key_fields has_key_def, simp_all add: demo_usage_def)
  then show ?thesis by (simp add: demo_key_fields)
qed

text \<open>
  The flags of the usage reports do not follow the key. Right after initialising the hash of a
  key, \<^verbatim>\<open>getUsage\<close> reports it inactive, and \<^verbatim>\<open>incrementUsage\<close> reports it active, whatever its
  stored flag: the one compares the stored \<^verbatim>\<open>true\<close> or \<^verbatim>\<open>false\<close> with \<^verbatim>\<open>'1'\<close>, the other asks whether that
  text is non-empty.
\<close>

theorem usage_report_flags_ignore_the_key:
  assumes "redis_server R ks" and "ks s (getKeyName apiKeyId) = None"
    and "s' = initializeApiKeyUsage R now apiKeyId a s"
  shows "map_option ur_active (getUsage R t apiKeyId s') = Some False
    \<and> ur_active (fst (incrementUsage R M t apiKeyId \<lparr>us_redis = s', us_sync = m, us_db = d\<rparr>)) = True"
proof -
  obtain h where h: "live t (ks s') (getKeyName apiKeyId) = Some (RHash h, None)"
    "map_of h = [''key'' \<mapsto> st_key a, ''ownerId'' \<mapsto> st_ownerId a, ''usageCount'' \<mapsto> show_int (st_usageCount a),
      ''usageLimit'' \<mapsto> show_int (st_usageLimit a), ''active'' \<mapsto> show_bool (st_active a)]"
    using redis_server.initialized_hash [OF assms(1,2), of t now a] assms(3) by metis
  have m: "map_of (rd_hgetall R t (getKeyName apiKeyId) s') = map_of h"
    using redis_server.hgetall_map [OF assms(1)] h(1) by (simp add: ks_hash_def)
  then have "rd_hgetall R t (getKeyName apiKeyId) s' \<noteq> []"
    using m fun_cong [OF h(2), of "''key''"] by (metis fun_upd_same fun_upd_other map_of.simps(1) option.distinct(1) h(2))
  then have reported: "map_option ur_active (getUsage R t apiKeyId s') = Some False"
    by (simp add: getUsage_def Let_def m h(2) show_bool_def)
  have f: "counter_field t (ks s') (getKeyName apiKeyId) ''usageCount''"
    by (simp add: counter_field_def h)
  obtain cnt s1 where p: "rd_hincrby R t (getKeyName apiKeyId) ''usageCount'' 1 s' = (cnt, s1)"
    by (cases "rd_hincrby R t (getKeyName apiKeyId) ''usageCount'' 1 s'")
  have "ks s1 = ks_hincrby t (getKeyName apiKeyId) ''usageCount'' 1 (ks s')"
    using redis_server.rd_hincrby [OF assms(1), of t _ "''usageCount''" 1 s'] p by (metis snd_conv)
  then have "map_of (ks_hash t (ks s1) (getKeyName apiKeyId)) ''active'' = Some (show_bool (st_active a))"
    using hash_hincrby [OF f, of 1] h by (simp add: ks_hash_def)
  then show ?thesis
    by (simp add: reported incrementUsage_defs increment_usage_script_def p redis_server.rd_hmget [OF assms(1)]
        Let_def show_bool_def)
qed

theorem usage_report_flags_ignore_the_key_witness:
  "map_option ur_active (getUsage mem_redis 5 ''id''
     (initializeApiKeyUsage mem_redis 0 ''id'' (status_of demo_key) Map.empty)) = Some False
   \<and> st_active (status_of demo_key)"
  using usage_report_flags_ignore_the_key [OF mem.redis_server_axioms _ refl,
      of Map.empty "''id''" 5 0 "status_of demo_key" mem_keys]
  by (simp add: status_of_def demo_key_fields)

text \<open>
  C34: A stream event can overtake the initialisation. The gRPC interceptor does not await
  \<^verbatim>\<open>initializeApiKeyUsage\<close>; when an increment runs between its existence check and its write, that
  increment sees no limit (its report never exceeds it) and its count is overwritten, whereas
  after a completed initialisation it counts.
\<close>

theorem increment_during_initialisation_is_lost:
  assumes "redis_server R ks" and "ks (us_redis st) (getKeyName apiKeyId) = None"
    and "inc = incrementUsage R M t1 apiKeyId st"
  shows "ur_usageCount (fst inc) = Num 1 \<and> ur_usageLimit (fst inc) = NaN
    \<and> \<not> ur_limitExceeded (fst inc)
    \<and> hcount t3 (ks (init_write R t2 apiKeyId a (init_check R t0 apiKeyId (us_redis st)) (us_redis (snd inc))))
           (getKeyName apiKeyId) ''usageCount'' = st_usageCount a"
proof -
  let ?k = "getKeyName apiKeyId"
  obtain reply s1 where p: "increment_usage_script R t1 ?k (us_redis st) = (reply, s1)"
    by (cases "increment_usage_script R t1 ?k (us_redis st)")
  note e = redis_server.script_on_absent [OF assms(1,2) p]
  have report: "ur_usageCount (fst inc) = Num 1" "ur_usageLimit (fst inc) = NaN" "\<not> ur_limitExceeded (fst inc)"
    by (simp_all add: assms(3) incrementUsage_defs p e(1) parse_reply_def Let_def)
  have s1: "us_redis (snd inc) = s1"
    by (simp add: assms(3) incrementUsage_defs p Let_def)
  have c: "\<not> init_check R t0 apiKeyId (us_redis st)"
    using assms(2) by (simp add: init_check_def redis_server.rd_exists [OF assms(1)] live_def)
  obtain h where "live t2 (ks s1) ?k = Some (RHash h, None)" using e(2) by blast
  from redis_server.hset_over_counter [OF assms(1) this, of t3 t2 a] obtain h'
    where "live t3 (ks (rd_hset R t2 ?k (usage_fields a) s1)) ?k = Some (RHash h', None)"
      "map_of h' ''usageCount'' = Some (show_int (st_usageCount a))" by blast
  with report c show ?thesis by (simp add: init_write_def s1 hcount_def ks_hash_def counter_of_def)
qed

theorem increment_during_initialisation_is_lost_witness:
  "\<not> ur_limitExceeded (fst (incrementUsage mem_redis mem_keys 1 ''id'' demo_usage))"
  by (rule increment_during_initialisation_is_lost [OF mem.redis_server_axioms _ refl, THEN conjunct2, THEN conjunct2, THEN conjunct1])
    (simp add: demo_usage_def)

text \<open>
  Only the owner switches a key off. Deactivating a key as \<open>ow\<close> leaves every key of the other
  owners as it was, and deleting does too; once the owner of a stored key has deactivated it, it is never
  accepted by \<^verbatim>\<open>validateApiKey\<close>.
\<close>

theorem deactivation_is_the_owners:
  assumes "api_key_collection M docs"
    and "updateApiKeyActivation M ow key False d = (Inr x, d')"
  shows "others ow (docs d') = others ow (docs d)
    \<and> others ow (docs (snd (deleteApiKey M ow k2 d))) = others ow (docs d)
    \<and> ((\<exists>a \<in> set (docs d). owned_key ow key a) \<longrightarrow> isl (validateApiKey M key d'))"
proof -
  have d': "docs d' = update_first (owned_key ow key) (ak_active_update (\<lambda>_. False)) (docs d)"
    using api_key_collection.akm_updateActive [OF assms(1), of ow key False d "Inr x" d'] assms(2)
    by (simp add: updateApiKeyActivation_def repo_defs)
  then have kept: "others ow (docs d') = others ow (docs d)" by simp
  have deleted: "others ow (docs (snd (deleteApiKey M ow k2 d))) = others ow (docs d)"
    using api_key_collection.akm_delete [OF assms(1), of ow k2 d]
    by (cases "akm_delete M ow k2 d") (auto simp: deleteApiKey_def repo_defs)
  have off: "\<exists>a \<in> set ds. owned_key ow key a \<Longrightarrow> distinct (map ak_key ds) \<Longrightarrow>
      find (has_key key) (update_first (owned_key ow key) (ak_active_update (\<lambda>_. False)) ds) = Some b \<Longrightarrow> \<not> ak_active b" for ds b
    by (induction ds) (auto simp: owned_key_def has_key_def image_iff split: if_splits)
  have "isl (validateApiKey M key d')" if "\<exists>a \<in> set (docs d). owned_key ow key a"
  proof (cases "akm_findOne M key d'")
    case (Inr x)
    have x: "x = find (has_key key) (update_first (owned_key ow key) (ak_active_update (\<lambda>_. False)) (docs d))"
      using api_key_collection.akm_findOne [OF assms(1) Inr] by (simp add: d')
    show ?thesis
    proof (cases x)
      case (Some a)
      then have "\<not> ak_active a"
        using off [OF that api_key_collection.akm_unique [OF assms(1)]] x by simp
      with Inr Some show ?thesis by (simp add: validateApiKey_def repo_defs)
    qed (use Inr in \<open>simp add: validateApiKey_def repo_defs\<close>)
  qed (simp add: validateApiKey_def repo_defs)
  with kept deleted show ?thesis by blast
qed

theorem deactivation_is_the_owners_witness:
  "isl (validateApiKey mem_keys ''k1'' (key_set_active ''u1'' ''k1'' False (us_db demo_usage)))"
  by (rule deactivation_is_the_owners [OF memk.api_key_collection_axioms, THEN conjunct2, THEN conjunct2, rule_format])
    (simp add: updateApiKeyActivation_def repo_defs mem_keys_def,
     simp add: demo_usage_docs owned_key_def demo_key_fields)

lemma drop_append_len: "length ys = n \<Longrightarrow> drop (length (xs @ ys) - n) (xs @ ys) = ys"
  by simp

text \<open>
  A generated key is the prefix, up to four characters of the owner's id as a hint, and 48
  hexadecimal digits that decode to the 24 random bytes; so keys from different bytes differ,
  also across owners.
\<close>

theorem generated_key_decodes:
  assumes "length bs = 24"
  shows "take 7 (generateApiKey ownerId bs) = ''evntfy_''
    \<and> take (length (take 4 ownerId)) (drop 7 (generateApiKey ownerId bs)) = take 4 ownerId
    \<and> length (generateApiKey ownerId bs) = 56 + min 4 (length ownerId)
    \<and> from_hex (drop (8 + min 4 (length ownerId)) (generateApiKey ownerId bs)) = bs
    \<and> (length cs = 24 \<and> generateApiKey ownerId bs = generateApiKey ownerId' cs \<longrightarrow> bs = cs)"
proof -
  let ?k = "generateApiKey ownerId bs"
  have shape: "take 7 ?k = ''evntfy_''" "take (length (take 4 ownerId)) (drop 7 ?k) = take 4 ownerId"
    "length ?k = 56 + min 4 (length ownerId)"
    using assms by (simp_all add: generateApiKey_def min_def)
  have "drop (8 + min 4 (length ownerId)) ?k
      = drop (length (''evntfy_'' @ take 4 ownerId @ ''_'')) ((''evntfy_'' @ take 4 ownerId @ ''_'') @ to_hex bs)"
    unfolding generateApiKey_def append_assoc by (rule arg_cong2 [where f = drop]) (simp_all add: min.commute)
  then have decodes: "from_hex (drop (8 + min 4 (length ownerId)) ?k) = bs"
    by (simp only: append_eq_conv_conj [THEN iffD1, OF refl, THEN conjunct2, symmetric] from_to_hex)
  have tail: "drop (length (generateApiKey o1 xs) - 48) (generateApiKey o1 xs) = to_hex xs"
    if "length xs = 24" for o1 xs
    unfolding generateApiKey_def append_assoc [symmetric] using that by (intro drop_append_len) simp
  have "bs = cs" if "length cs = 24" "?k = generateApiKey ownerId' cs"
    using tail [OF assms, of ownerId] tail [OF that(1), of ownerId'] that(2) from_to_hex by metis
  then show ?thesis using shape decodes by (intro conjI impI) (assumption | blast)+
qed

theorem generated_key_decodes_witness:
  "from_hex (drop 12 (generateApiKey ''64afc0'' (replicate 24 (7 :: 8 word)))) = replicate 24 7"
  using generated_key_decodes [of "replicate 24 7" "''64afc0''"] by simp

end
