(* ===== verification/Guards.thy ===== *)
theory Guards
  imports Auth
begin

text \<open>
  Authentication of HTTP requests: the guards of src/src/iam/authentication/guards, the \<^verbatim>\<open>Auth\<close> and
  \<^verbatim>\<open>ActiveUser\<close> decorators, and the controller of src/src/iam/authentication/authentication.controller.ts
  with its refresh-token cookie. A guard takes the request, may attach the user to it, and returns
  whether it admits the request or the error it throws.
\<close>

section \<open>Requests and guards\<close>

record request =
  rq_authorization :: "string option"
  rq_cookies :: "(string \<times> string) list"
  rq_user :: "claims option"

text \<open>A query parameter: a text, a list of texts, or something else.\<close>

datatype query_value = QText string | QList "string list" | QOther

datatype AuthType = Bearer | AuthNone

type_synonym guard = "request \<Rightarrow> bool result \<times> request"

definition extractTokenFromHeader :: "request \<Rightarrow> string option" where
  "extractTokenFromHeader rq =
     (case rq_authorization rq of
        None \<Rightarrow> None
      | Some h \<Rightarrow> (case split_on CHR '' '' h of _ # token # _ \<Rightarrow> Some token | _ \<Rightarrow> None))"

definition access_token_guard :: "jwt \<Rightarrow> jwt_params \<Rightarrow> int \<Rightarrow> guard" where
  "access_token_guard J P now rq =
     (case extractTokenFromHeader rq of
        None \<Rightarrow> (Inl (HttpException Unauthorized
                  ''Authentication token is missing. Please log in to continue''), rq)
      | Some token \<Rightarrow>
          if token = [] then (Inl (HttpException Unauthorized
                  ''Authentication token is missing. Please log in to continue''), rq)
          else (case jw_verify J P now token of
                  Inl error \<Rightarrow> (Inl (HttpException Unauthorized (''Invalid token: '' @ exn_message error)), rq)
                | Inr payload \<Rightarrow> (Inr True, rq\<lparr>rq_user := Some payload\<rparr>)))"

fun authTypeGuardMap :: "jwt \<Rightarrow> jwt_params \<Rightarrow> int \<Rightarrow> AuthType \<Rightarrow> guard" where
  "authTypeGuardMap J P now Bearer = access_token_guard J P now"
| "authTypeGuardMap J P now AuthNone = (\<lambda>rq. (Inr True, rq))"

text \<open>\<^verbatim>\<open>getAllAndOverride\<close>: the metadata of the handler, else of the class, else the default.\<close>

definition authTypesOf :: "AuthType list option \<Rightarrow> AuthType list option \<Rightarrow> AuthType list" where
  "authTypesOf handler cls =
     (case handler of Some ts \<Rightarrow> ts | None \<Rightarrow> (case cls of Some ts \<Rightarrow> ts | None \<Rightarrow> [Bearer]))"

fun run_guards :: "guard list \<Rightarrow> exn \<Rightarrow> request \<Rightarrow> unit result \<times> request" where
  "run_guards [] error rq = (Inl error, rq)"
| "run_guards (g # gs) error rq =
     (case g rq of
        (Inl err, rq') \<Rightarrow> run_guards gs err rq'
      | (Inr ok, rq') \<Rightarrow> if ok then (Inr (), rq') else run_guards gs error rq')"

definition canActivate ::
  "jwt \<Rightarrow> jwt_params \<Rightarrow> int \<Rightarrow> AuthType list option \<Rightarrow> AuthType list option \<Rightarrow> request \<Rightarrow> unit result \<times> request" where
  "canActivate J P now handler cls rq =
     run_guards (map (authTypeGuardMap J P now) (authTypesOf handler cls))
       (HttpException Unauthorized ''Unauthorized'') rq"

section \<open>The \<^verbatim>\<open>ActiveUser\<close> decorator\<close>

fun claim_field :: "string \<Rightarrow> claims \<Rightarrow> string option" where
  "claim_field f c =
     (if f = ''sub'' then Some (c_sub c) else if f = ''email'' then c_email c
      else if f = ''role'' then c_role c else if f = ''refreshTokenId'' then c_refreshTokenId c else None)"

definition ActiveUser :: "string \<Rightarrow> request \<Rightarrow> string option" where
  "ActiveUser field rq = (case rq_user rq of None \<Rightarrow> None | Some user \<Rightarrow> claim_field field user)"

section \<open>The authentication controller\<close>

record cookie =
  ck_name :: string
  ck_value :: string
  ck_httpOnly :: bool
  ck_secure :: bool
  ck_sameSite :: string
  ck_domain :: string
  ck_maxAge :: int

definition refresh_cookie :: "string \<Rightarrow> cookie" where
  "refresh_cookie tok =
     \<lparr>ck_name = ''refreshToken'', ck_value = tok, ck_httpOnly = True, ck_secure = True,
      ck_sameSite = ''none'', ck_domain = ''.evntfy.tech'', ck_maxAge = 7 * 24 * 60 * 60 * 1000\<rparr>"

definition ctl_signIn ::
  "('s, 'u) auth_env \<Rightarrow> int \<Rightarrow> string \<Rightarrow> string \<Rightarrow> string \<Rightarrow> ('s, 'u) auth_state
     \<Rightarrow> (token_pair \<times> cookie list) result \<times> ('s, 'u) auth_state" where
  "ctl_signIn E now uuid email password st =
     (case singIn E now uuid email password st of
        (Inl e, st') \<Rightarrow> (Inl e, st')
      | (Inr p, st') \<Rightarrow> (Inr (p, [refresh_cookie (refreshToken p)]), st'))"

definition ctl_refreshToken ::
  "('s, 'u) auth_env \<Rightarrow> int \<Rightarrow> string \<Rightarrow> request \<Rightarrow> ('s, 'u) auth_state
     \<Rightarrow> (string \<times> cookie list) result \<times> ('s, 'u) auth_state" where
  "ctl_refreshToken E now uuid rq st =
     (case map_of (rq_cookies rq) ''refreshToken'' of
        None \<Rightarrow> (Inl (HttpException BadRequest ''Refresh token not found''), st)
      | Some tok \<Rightarrow>
          if tok = [] then (Inl (HttpException BadRequest ''Refresh token not found''), st)
          else (case refreshTokens E now uuid tok st of
                  (Inl e, st') \<Rightarrow> (Inl e, st')
                | (Inr p, st') \<Rightarrow> (Inr (accessToken p, [refresh_cookie (refreshToken p)]), st')))"

text \<open>The declarative checks of \<^verbatim>\<open>SignUpDto\<close>; the email validator is the library's.\<close>

definition sign_up_dto_ok :: "(string \<Rightarrow> bool) \<Rightarrow> signup_dto \<Rightarrow> bool" where
  "sign_up_dto_ok is_email dto = (3 \<le> length (su_name dto) \<and> is_email (su_email dto) \<and> 6 \<le> length (su_password dto))"

definition ctl_signUp ::
  "(string \<Rightarrow> bool) \<Rightarrow> ('s, 'u) auth_env \<Rightarrow> int \<Rightarrow> string \<Rightarrow> int \<Rightarrow> signup_dto \<Rightarrow> ('s, 'u) auth_state
     \<Rightarrow> user result \<times> ('s, 'u) auth_state" where
  "ctl_signUp is_email E now salt rnd dto st =
     (if sign_up_dto_ok is_email dto then singUp E now salt rnd dto st
      else (Inl (HttpException BadRequest ''Bad Request Exception''), st))"

section \<open>Lemmas\<close>

text \<open>The bearer token of a request that the guard accepts, and whose it is.\<close>

definition bearer :: "jwt \<Rightarrow> jwt_params \<Rightarrow> int \<Rightarrow> request \<Rightarrow> claims result" where
  "bearer J P now rq =
     (case extractTokenFromHeader rq of
        None \<Rightarrow> Inl (HttpException Unauthorized ''Authentication token is missing. Please log in to continue'')
      | Some token \<Rightarrow>
          if token = [] then Inl (HttpException Unauthorized ''Authentication token is missing. Please log in to continue'')
          else (case jw_verify J P now token of
                  Inl error \<Rightarrow> Inl (HttpException Unauthorized (''Invalid token: '' @ exn_message error))
                | Inr payload \<Rightarrow> Inr payload))"

lemma access_token_guard_bearer:
  "access_token_guard J P now rq = (case bearer J P now rq of
       Inl e \<Rightarrow> (Inl e, rq) | Inr c \<Rightarrow> (Inr True, rq\<lparr>rq_user := Some c\<rparr>))"
  by (simp add: access_token_guard_def bearer_def split: option.split sum.split)

lemma bearer_error: "bearer J P now rq = Inl e \<Longrightarrow> \<exists>m. e = HttpException Unauthorized m"
  by (auto simp: bearer_def split: option.splits sum.splits if_splits)

lemma run_guards_types:
  "run_guards (map (authTypeGuardMap J P now) ts) err rq =
     (case bearer J P now rq of
        Inr c \<Rightarrow> (case ts of [] \<Rightarrow> (Inl err, rq) | Bearer # _ \<Rightarrow> (Inr (), rq\<lparr>rq_user := Some c\<rparr>)
                   | AuthNone # _ \<Rightarrow> (Inr (), rq))
      | Inl e \<Rightarrow> (if AuthNone \<in> set ts then Inr () else if ts = [] then Inl err else Inl e, rq))"
proof (induction ts arbitrary: err)
  case Nil
  then show ?case by (simp split: sum.split)
next
  case (Cons t ts)
  then show ?case
    by (cases t; cases "bearer J P now rq") (simp_all add: access_token_guard_bearer)
qed

lemma extract_any_scheme:
  assumes "CHR '' '' \<notin> set scheme" and "CHR '' '' \<notin> set tok"
  shows "extractTokenFromHeader (rq\<lparr>rq_authorization := Some (scheme @ CHR '' '' # tok)\<rparr>) = Some tok"
  by (simp add: extractTokenFromHeader_def split_on_append [OF assms(1)] split_on_no_sep [OF assms(2)])

end
