(* ===== verification/ApiKeyController.thy ===== *)
theory ApiKeyController
  imports Guards ApiKey
begin

text \<open>
  The HTTP interface of the API keys, src/src/api-key/api-key.controller.ts: each handler runs
  behind the bearer guard of its class and passes the token's subject to the service as the owner.
\<close>

datatype api_key_request =
    FindUserApiKeys
  | CreateApiKey string
  | ValidateApiKey string
  | DeleteApiKey string
  | UpdateApiKeyActivation string bool

datatype api_key_response =
    ApiKeys "api_key list"
  | CreatedKey string
  | ApiKeyDoc "api_key option"

fun api_key_handler ::
  "'d api_key_model \<Rightarrow> 8 word list \<Rightarrow> string \<Rightarrow> api_key_request \<Rightarrow> 'd \<Rightarrow> api_key_response result \<times> 'd" where
  "api_key_handler M rnd ownerId FindUserApiKeys d =
     (case findUserApiKeys M ownerId d of Inl e \<Rightarrow> (Inl e, d) | Inr ks \<Rightarrow> (Inr (ApiKeys ks), d))"
| "api_key_handler M rnd ownerId (CreateApiKey name) d =
     (case createApiKey M rnd ownerId name d of (Inl e, d') \<Rightarrow> (Inl e, d') | (Inr k, d') \<Rightarrow> (Inr (CreatedKey k), d'))"
| "api_key_handler M rnd ownerId (ValidateApiKey dto) d =
     (case validateApiKey M dto d of Inl e \<Rightarrow> (Inl e, d) | Inr a \<Rightarrow> (Inr (ApiKeyDoc (Some a)), d))"
| "api_key_handler M rnd ownerId (DeleteApiKey key) d =
     (case deleteApiKey M ownerId key d of (Inl e, d') \<Rightarrow> (Inl e, d') | (Inr a, d') \<Rightarrow> (Inr (ApiKeyDoc a), d'))"
| "api_key_handler M rnd ownerId (UpdateApiKeyActivation key isActive) d =
     (case updateApiKeyActivation M ownerId key isActive d of
        (Inl e, d') \<Rightarrow> (Inl e, d') | (Inr a, d') \<Rightarrow> (Inr (ApiKeyDoc a), d'))"

text \<open>
  A request through the guard. The class is decorated with \<^verbatim>\<open>Auth(AuthType.Bearer)\<close> and no handler
  overrides it, so a request that reaches a handler has a user: the last branch is unreachable,
  as \<open>guarded_has_user\<close> shows.
\<close>

definition api_key_class_auth :: "AuthType list option" where
  "api_key_class_auth = Some [Bearer]"

definition apiKeyController ::
  "jwt \<Rightarrow> jwt_params \<Rightarrow> int \<Rightarrow> 'd api_key_model \<Rightarrow> 8 word list \<Rightarrow> request \<Rightarrow> api_key_request \<Rightarrow> 'd
     \<Rightarrow> api_key_response result \<times> 'd" where
  "apiKeyController J P now M rnd rq req d =
     (case canActivate J P now None api_key_class_auth rq of
        (Inl e, _) \<Rightarrow> (Inl e, d)
      | (Inr _, rq') \<Rightarrow>
          (case ActiveUser ''sub'' rq' of
             Some ownerId \<Rightarrow> api_key_handler M rnd ownerId req d
           | None \<Rightarrow> (Inl null_property_error, d)))"

lemma guarded_has_user:
  "canActivate J P now None api_key_class_auth rq = (Inr u, rq') \<Longrightarrow> \<exists>c. bearer J P now rq = Inr c \<and> rq_user rq' = Some c"
  by (auto simp: canActivate_def authTypesOf_def api_key_class_auth_def run_guards_types
      simp del: list.map split: sum.splits)

lemma apiKeyController_cases:
  "apiKeyController J P now M rnd rq req d =
     (case bearer J P now rq of
        Inl e \<Rightarrow> (Inl e, d) | Inr c \<Rightarrow> api_key_handler M rnd (c_sub c) req d)"
  by (simp add: apiKeyController_def canActivate_def authTypesOf_def api_key_class_auth_def
      run_guards_types ActiveUser_def del: list.map split: sum.split)

context api_key_collection
begin

text \<open>No handler touches a key of another owner.\<close>

lemma activation_others:
  "updateApiKeyActivation M ow k b d = (r, d') \<Longrightarrow>
   others ow (docs d') = others ow (docs d)"
proof -
  assume "updateApiKeyActivation M ow k b d = (r, d')"
  then have "akm_updateActive M ow k b d = (r, d')"
    by (simp add: updateApiKeyActivation_def repo_defs)
  from akm_updateActive [OF this] show ?thesis by auto
qed

lemma deletion_others:
  "deleteApiKey M ow k d = (r, d') \<Longrightarrow>
   others ow (docs d') = others ow (docs d)"
proof -
  assume "deleteApiKey M ow k d = (r, d')"
  then have "akm_delete M ow k d = (r, d')" by (simp add: deleteApiKey_def repo_defs)
  from akm_delete [OF this] show ?thesis
    by auto
qed

lemma creation_others:
  "createApiKey M rnd ow name d = (r, d') \<Longrightarrow>
   others ow (docs d') = others ow (docs d)"
proof -
  assume c: "createApiKey M rnd ow name d = (r, d')"
  obtain r' d'' where s: "akm_save M (new_api_key (generateApiKey ow rnd) ow name) d = (r', d'')"
    by (cases "akm_save M (new_api_key (generateApiKey ow rnd) ow name) d")
  with c have "d'' = d'"
    by (cases r') (auto simp: createApiKey_def repo_defs)
  then show ?thesis
    using akm_save [of "new_api_key (generateApiKey ow rnd) ow name" d] akm_save_Inl s
    by (cases r') fastforce+
qed

lemma handler_others:
  "api_key_handler M rnd ow req d = (r, d') \<Longrightarrow>
   others ow (docs d') = others ow (docs d)"
  by (cases req)
    (auto split: sum.splits prod.splits dest: activation_others deletion_others creation_others)

end

end
