(* ===== verification/Json.thy ===== *)
theory Json
  imports JS
begin

text \<open>
  \<^verbatim>\<open>JSON.parse\<close>, as the event processors use it on the payload text: the grammar of RFC 8259 with
  JavaScript's results (the last of two equal member names wins, at the place of the first; names that are array
  indices come first, in ascending order). Numbers
  are the exact decimal, without the rounding to binary64; an escape \<open>u\<close>\<^verbatim>\<open>XXXX\<close> yields the
  bytes of its code unit in UTF-8. The recursion has fuel; the length of the text is enough, as each
  nested value consumes a character.
\<close>

section \<open>Lexical parts\<close>

definition syntax_error :: exn where
  "syntax_error = JsError ''Unexpected token in JSON''"

definition json_space :: "char \<Rightarrow> bool" where
  "json_space c = (of_char c \<in> {9, 10, 13, 32 :: nat})"

definition skip_ws :: "string \<Rightarrow> string" where
  "skip_ws s = dropWhile json_space s"

fun hex_digit_val :: "char \<Rightarrow> nat option" where
  "hex_digit_val c = (let n = (of_char c :: nat) in
     if 48 \<le> n \<and> n \<le> 57 then Some (n - 48)
     else if 65 \<le> n \<and> n \<le> 70 then Some (n - 55)
     else if 97 \<le> n \<and> n \<le> 102 then Some (n - 87) else None)"

definition utf8_unit :: "nat \<Rightarrow> string" where
  "utf8_unit n =
     (if n < 128 then [char_of n]
      else if n < 2048 then [char_of (192 + n div 64), char_of (128 + n mod 64)]
      else [char_of (224 + n div 4096), char_of (128 + n div 64 mod 64), char_of (128 + n mod 64)])"

definition simple_escape :: "char \<Rightarrow> char option" where
  "simple_escape c = (let n = (of_char c :: nat) in
     if n \<in> {34, 47, 92} then Some c
     else if n = 98 then Some (char_of (8 :: nat)) else if n = 102 then Some (char_of (12 :: nat))
     else if n = 110 then Some (char_of (10 :: nat)) else if n = 114 then Some (char_of (13 :: nat))
     else if n = 116 then Some (char_of (9 :: nat)) else None)"

text \<open>What follows a backslash: the characters it stands for and the rest.\<close>

definition lex_unicode :: "string \<Rightarrow> (string \<times> string) option" where
  "lex_unicode s =
     (if length s < 4 then None
      else (case (hex_digit_val (s ! 0), hex_digit_val (s ! 1), hex_digit_val (s ! 2), hex_digit_val (s ! 3)) of
              (Some w, Some x, Some y, Some z) \<Rightarrow>
                Some (utf8_unit (4096 * w + 256 * x + 16 * y + z), drop 4 s)
            | _ \<Rightarrow> None))"

definition lex_escape :: "string \<Rightarrow> (string \<times> string) option" where
  "lex_escape s =
     (case s of
        [] \<Rightarrow> None
      | e # rest \<Rightarrow>
          if of_char e = (117 :: nat) then lex_unicode rest
          else map_option (\<lambda>d. ([d], rest)) (simple_escape e))"

lemma lex_escape_length: "lex_escape s = Some (t, r) \<Longrightarrow> length r < length s"
  by (auto simp: lex_escape_def lex_unicode_def split: list.splits if_splits option.splits)

text \<open>The rest of a string after its opening quote: its characters and what follows.\<close>

function lex_string :: "string \<Rightarrow> (string \<times> string) option" where
  "lex_string [] = None"
| "lex_string (c # cs) =
     (if of_char c = (34 :: nat) then Some ([], cs)
      else if of_char c < (32 :: nat) then None
      else if of_char c = (92 :: nat) then
        (case lex_escape cs of
           None \<Rightarrow> None
         | Some (d, rest) \<Rightarrow> map_option (\<lambda>(s, r). (d @ s, r)) (lex_string rest))
      else map_option (\<lambda>(s, r). (c # s, r)) (lex_string cs))"
  by pat_completeness auto

termination
  by (relation "measure length") (auto dest: lex_escape_length)

definition take_digits :: "string \<Rightarrow> string \<times> string" where
  "take_digits s = (takeWhile (is_digit 10) s, dropWhile (is_digit 10) s)"

definition lex_exponent :: "string \<Rightarrow> (int \<times> string) option" where
  "lex_exponent s =
     (case s of
        e # r \<Rightarrow>
          if e = CHR ''e'' \<or> e = CHR ''E'' then
            (let neg = (case r of CHR ''-'' # _ \<Rightarrow> True | _ \<Rightarrow> False);
                 r1 = (case r of c # r' \<Rightarrow> if c = CHR ''-'' \<or> c = CHR ''+'' then r' else r | [] \<Rightarrow> r);
                 (ds, r2) = take_digits r1
             in if ds = [] then None else Some (if neg then - digits_val 10 ds else digits_val 10 ds, r2))
          else Some (0, s)
      | [] \<Rightarrow> Some (0, s))"

definition scale10 :: "rat \<Rightarrow> int \<Rightarrow> rat" where
  "scale10 m e = (if 0 \<le> e then m * 10 ^ nat e else m / 10 ^ nat (- e))"

definition lex_number :: "string \<Rightarrow> (rat \<times> string) option" where
  "lex_number s =
     (let neg = (case s of CHR ''-'' # _ \<Rightarrow> True | _ \<Rightarrow> False);
          s1 = (if neg then tl s else s);
          (ds, s2) = take_digits s1
      in if ds = [] \<or> (1 < length ds \<and> hd ds = CHR ''0'') then None
         else
           (let (fs, s3) = (case s2 of c # r \<Rightarrow> if c = CHR ''.'' then take_digits r else ([], s2) | [] \<Rightarrow> ([], s2));
                dot = (case s2 of c # r \<Rightarrow> c = CHR ''.'' | [] \<Rightarrow> False)
            in if dot \<and> fs = [] then None
               else (case lex_exponent s3 of
                       None \<Rightarrow> None
                     | Some (e, s4) \<Rightarrow>
                         let m = scale10 (of_int (digits_val 10 (ds @ fs))) (e - int (length fs))
                         in Some (if neg then - m else m, s4))))"

section \<open>Values\<close>

text \<open>A new member comes where JavaScript enumerates it: array-index names first, in ascending order.\<close>

fun obj_replace :: "string \<Rightarrow> json \<Rightarrow> (string \<times> json) list \<Rightarrow> (string \<times> json) list" where
  "obj_replace k v [] = []"
| "obj_replace k v ((k', v') # kvs) = (if k = k' then (k, v) # kvs else (k', v') # obj_replace k v kvs)"

fun obj_insert :: "string \<Rightarrow> json \<Rightarrow> (string \<times> json) list \<Rightarrow> (string \<times> json) list" where
  "obj_insert k v [] = [(k, v)]"
| "obj_insert k v ((k', v') # kvs) =
     (if entry_before k k' then (k, v) # (k', v') # kvs else (k', v') # obj_insert k v kvs)"

definition obj_put :: "string \<Rightarrow> json \<Rightarrow> (string \<times> json) list \<Rightarrow> (string \<times> json) list" where
  "obj_put k v kvs = (if k \<in> fst ` set kvs then obj_replace k v kvs else obj_insert k v kvs)"

definition strip_prefix :: "string \<Rightarrow> string \<Rightarrow> string option" where
  "strip_prefix p s = (if take (length p) s = p then Some (drop (length p) s) else None)"

fun parse_value :: "nat \<Rightarrow> string \<Rightarrow> (json \<times> string) option"
and parse_elements :: "nat \<Rightarrow> json list \<Rightarrow> string \<Rightarrow> (json \<times> string) option"
and parse_members :: "nat \<Rightarrow> (string \<times> json) list \<Rightarrow> string \<Rightarrow> (json \<times> string) option" where
  "parse_value 0 s = None"
| "parse_value (Suc n) s0 =
     (let s = skip_ws s0 in
      case s of
        [] \<Rightarrow> None
      | c # cs \<Rightarrow>
          if c = CHR ''{'' then
            (case skip_ws cs of
               d # ds \<Rightarrow> if d = CHR ''}'' then Some (JObj [], ds) else parse_members n [] cs
             | [] \<Rightarrow> None)
          else if c = CHR ''['' then
            (case skip_ws cs of
               d # ds \<Rightarrow> if d = CHR '']'' then Some (JArr [], ds) else parse_elements n [] cs
             | [] \<Rightarrow> None)
          else if of_char c = (34 :: nat) then map_option (\<lambda>(t, r). (JStr t, r)) (lex_string cs)
          else
            (case strip_prefix ''true'' s of Some r \<Rightarrow> Some (JBool True, r) | None \<Rightarrow>
            (case strip_prefix ''false'' s of Some r \<Rightarrow> Some (JBool False, r) | None \<Rightarrow>
            (case strip_prefix ''null'' s of Some r \<Rightarrow> Some (JNull, r) | None \<Rightarrow>
             map_option (\<lambda>(q, r). (JNum q, r)) (lex_number s)))))"
| "parse_elements 0 acc s = None"
| "parse_elements (Suc n) acc s =
     (case parse_value n s of
        None \<Rightarrow> None
      | Some (v, r) \<Rightarrow>
          (case skip_ws r of
             c # cs \<Rightarrow> if c = CHR '','' then parse_elements n (acc @ [v]) cs
                      else if c = CHR '']'' then Some (JArr (acc @ [v]), cs) else None
           | [] \<Rightarrow> None))"
| "parse_members 0 acc s = None"
| "parse_members (Suc n) acc s =
     (case skip_ws s of
        q # qs \<Rightarrow>
          if of_char q \<noteq> (34 :: nat) then None else
          (case lex_string qs of
             None \<Rightarrow> None
           | Some (k, r) \<Rightarrow>
               (case skip_ws r of
                  c # cs \<Rightarrow>
                    if c \<noteq> CHR '':'' then None else
                    (case parse_value n cs of
                       None \<Rightarrow> None
                     | Some (v, r') \<Rightarrow>
                         (case skip_ws r' of
                            d # ds \<Rightarrow> if d = CHR '','' then parse_members n (obj_put k v acc) ds
                                     else if d = CHR ''}'' then Some (JObj (obj_put k v acc), ds) else None
                          | [] \<Rightarrow> None))
                | [] \<Rightarrow> None))
      | [] \<Rightarrow> None)"

definition json_parse :: "string \<Rightarrow> json result" where
  "json_parse s =
     (case parse_value (2 * length s + 2) s of
        Some (v, r) \<Rightarrow> if skip_ws r = [] then Inr v else Inl syntax_error
      | None \<Rightarrow> Inl syntax_error)"

section \<open>The fuel is enough\<close>

lemma skip_ws_length: "length (skip_ws s) \<le> length s"
  by (simp add: skip_ws_def length_dropWhile_le)

lemma skip_ws_ConsD: "skip_ws s = c # cs \<Longrightarrow> length cs < length s"
  using skip_ws_length [of s] by simp

lemma lex_string_length: "lex_string s = Some (t, r) \<Longrightarrow> length r < length s"
proof (induction s arbitrary: t r rule: lex_string.induct)
  case (2 c cs)
  then show ?case
    by (auto dest: lex_escape_length split: if_splits option.splits) (fastforce dest: lex_escape_length)+
qed simp

lemma strip_prefix_length: "strip_prefix p s = Some r \<Longrightarrow> p \<noteq> [] \<Longrightarrow> s \<noteq> [] \<Longrightarrow> length r < length s"
  by (auto simp: strip_prefix_def split: if_splits)

lemma take_digits_length:
  "take_digits s = (ds, r) \<Longrightarrow> length r \<le> length s \<and> (ds \<noteq> [] \<longrightarrow> length r < length s)"
  using length_dropWhile_le [of "is_digit 10" s] length_dropWhile_le [of "is_digit 10" "tl s"]
  by (cases s) (auto simp: take_digits_def split: if_splits)

lemma lex_exponent_length: "lex_exponent s = Some (e, r) \<Longrightarrow> length r \<le> length s"
proof (cases s)
  case (Cons c cs)
  assume "lex_exponent s = Some (e, r)"
  with Cons show ?thesis
    using take_digits_length [of cs] take_digits_length [of "tl cs"]
    by (auto simp: lex_exponent_def Let_def split: if_splits prod.splits list.splits)
qed (simp add: lex_exponent_def)

lemma lex_number_length: "lex_number s = Some (q, r) \<Longrightarrow> length r < length s"
proof -
  assume a: "lex_number s = Some (q, r)"
  define s1 where "s1 = (if (case s of CHR ''-'' # _ \<Rightarrow> True | _ \<Rightarrow> False) then tl s else s)"
  obtain ds s2 where d: "take_digits s1 = (ds, s2)" by (cases "take_digits s1")
  define dot where "dot = (case s2 of c # r \<Rightarrow> c = CHR ''.'' | [] \<Rightarrow> False)"
  obtain fs s3 where f: "(case s2 of c # r \<Rightarrow> if c = CHR ''.'' then take_digits r else ([], s2) | [] \<Rightarrow> ([], s2)) = (fs, s3)"
    by (cases "case s2 of c # r \<Rightarrow> if c = CHR ''.'' then take_digits r else ([], s2) | [] \<Rightarrow> ([], s2)")
  have "ds \<noteq> []" and "\<exists>e. lex_exponent s3 = Some (e, r)"
    using a d f by (auto simp: lex_number_def Let_def s1_def [symmetric] split: if_splits option.splits)
  then have "length r \<le> length s3" using lex_exponent_length by blast
  also have "length s3 \<le> length s2"
    using f take_digits_length by (auto split: list.splits if_splits dest: le_SucI)
  also have "length s2 < length s1" using take_digits_length [OF d] \<open>ds \<noteq> []\<close> by simp
  also have "length s1 \<le> length s" by (simp add: s1_def)
  finally show ?thesis .
qed

lemma parse_shorter:
  "(\<forall>s v r. parse_value n s = Some (v, r) \<longrightarrow> length r < length s) \<and>
   (\<forall>acc s v r. parse_elements n acc s = Some (v, r) \<longrightarrow> length r < length s) \<and>
   (\<forall>acc s v r. parse_members n acc s = Some (v, r) \<longrightarrow> length r < length s)"
proof (induction n)
  case (Suc n)
  note v = Suc.IH [THEN conjunct1, rule_format]
  note e = Suc.IH [THEN conjunct2, THEN conjunct1, rule_format]
  note m = Suc.IH [THEN conjunct2, THEN conjunct2, rule_format]
  have "length r < length s" if p: "parse_value (Suc n) s = Some (x, r)" for s x r
  proof (cases "skip_ws s")
    case (Cons c cs)
    then have "length (c # cs) \<le> length s" using skip_ws_length [of s] by simp
    moreover have "length r < length (c # cs)"
      using p Cons strip_prefix_length [of _ "c # cs" r] lex_number_length [of "c # cs" _ r] lex_string_length [of cs _ r]
        e [of _ cs _ r] m [of _ cs _ r]
      by (fastforce simp: Let_def dest: skip_ws_ConsD split: if_splits list.splits option.splits)
    ultimately show ?thesis by simp
  qed (use p in simp)
  moreover have "length r < length s" if p: "parse_elements (Suc n) acc s = Some (x, r)" for acc s x r
    using p v e by (fastforce dest: skip_ws_ConsD split: option.splits list.splits if_splits)
  moreover have "length r < length s" if p: "parse_members (Suc n) acc s = Some (x, r)" for acc s x r
    using p v m by (fastforce dest: skip_ws_ConsD lex_string_length split: option.splits list.splits if_splits)
  ultimately show ?case by blast
qed simp

lemma parse_fuel:
  "(\<forall>m s. 2 * length s < n \<longrightarrow> 2 * length s < m \<longrightarrow> parse_value n s = parse_value m s) \<and>
   (\<forall>m acc s. 2 * length s + 1 < n \<longrightarrow> 2 * length s + 1 < m \<longrightarrow> parse_elements n acc s = parse_elements m acc s) \<and>
   (\<forall>m acc s. 2 * length s + 1 < n \<longrightarrow> 2 * length s + 1 < m \<longrightarrow> parse_members n acc s = parse_members m acc s)"
proof (induction n)
  case (Suc n)
  note v = Suc.IH [THEN conjunct1, rule_format]
  note e = Suc.IH [THEN conjunct2, THEN conjunct1, rule_format]
  note mm = Suc.IH [THEN conjunct2, THEN conjunct2, rule_format]
  have "parse_value (Suc n) s = parse_value m s" if "2 * length s < Suc n" "2 * length s < m" for m s
  proof (cases "skip_ws s")
    case Nil
    with that show ?thesis by (cases m) simp_all
  next
    case (Cons c cs)
    then have l: "length cs < length s" by (rule skip_ws_ConsD)
    obtain k where k: "m = Suc k" using \<open>_ < m\<close> by (cases m) auto
    have "parse_elements n [] cs = parse_elements k [] cs" "parse_members n [] cs = parse_members k [] cs"
      using that l k by (intro e mm; simp)+
    then show ?thesis by (simp only: k parse_value.simps Cons Let_def list.case)
  qed
  moreover have "parse_elements (Suc n) acc s = parse_elements m acc s"
    if "2 * length s + 1 < Suc n" "2 * length s + 1 < m" for m acc s
  proof -
    obtain k where k: "m = Suc k" using \<open>_ < m\<close> by (cases m) auto
    have "parse_value n s = parse_value k s" using that k by (intro v) simp_all
    moreover have "parse_elements n a cs = parse_elements k a cs"
      if "parse_value k s = Some (x, r)" "skip_ws r = c # cs" for a x r c cs
    proof -
      have "length cs < length s"
        using skip_ws_ConsD [OF that(2)] parse_shorter [of k, THEN conjunct1, rule_format, OF that(1)] by simp
      then show ?thesis
        using \<open>2 * length s + 1 < Suc n\<close> \<open>2 * length s + 1 < m\<close> k by (intro e) simp_all
    qed
    ultimately show ?thesis by (simp add: k split: option.split list.split)
  qed
  moreover have "parse_members (Suc n) acc s = parse_members m acc s"
    if "2 * length s + 1 < Suc n" "2 * length s + 1 < m" for m acc s
  proof -
    obtain k where k: "m = Suc k" using \<open>_ < m\<close> by (cases m) auto
    have "parse_value n cs = parse_value k cs"
      if "skip_ws s = q # qs" "lex_string qs = Some (t, r)" "skip_ws r = c # cs" for q qs t r c cs
      using skip_ws_ConsD [OF that(1)] lex_string_length [OF that(2)] skip_ws_ConsD [OF that(3)]
        \<open>2 * length s + 1 < Suc n\<close> \<open>2 * length s + 1 < m\<close> k by (intro v) simp_all
    moreover have "parse_members n a ds = parse_members k a ds"
      if "skip_ws s = q # qs" "lex_string qs = Some (t, r)" "skip_ws r = c # cs"
        "parse_value k cs = Some (x, r')" "skip_ws r' = d # ds" for a q qs t r c cs x r' d ds
      using skip_ws_ConsD [OF that(1)] lex_string_length [OF that(2)] skip_ws_ConsD [OF that(3)]
        parse_shorter [of k, THEN conjunct1, rule_format, OF that(4)] skip_ws_ConsD [OF that(5)]
        \<open>2 * length s + 1 < Suc n\<close> \<open>2 * length s + 1 < m\<close> k by (intro mm) simp_all
    ultimately show ?thesis by (simp add: k split: option.split list.split)
  qed
  ultimately show ?case by blast
qed simp

text \<open>More fuel than \<open>json_parse\<close> takes changes nothing.\<close>

lemma json_parse_fuel:
  "2 * length s < n \<Longrightarrow> json_parse s =
     (case parse_value n s of
        Some (v, r) \<Rightarrow> if skip_ws r = [] then Inr v else Inl syntax_error
      | None \<Rightarrow> Inl syntax_error)"
  using parse_fuel [of "2 * length s + 2", THEN conjunct1, rule_format, of s n] by (simp add: json_parse_def)

end
