(* ===== verification/JsonText.thy ===== *)
theory JsonText
  imports Json
begin

text \<open>
  \<^verbatim>\<open>JSON.stringify\<close> without indentation, on the values \<^verbatim>\<open>JSON.parse\<close> returns, and their round trip. Numbers are printed
  as \<^verbatim>\<open>Number.prototype.toString\<close> does: the shortest digits, in plain notation between \<open>1e-6\<close> and \<open>1e21\<close>.
\<close>

section \<open>Strings\<close>

definition hex_lower :: "nat \<Rightarrow> char" where
  "hex_lower d = (if d < 10 then char_of (48 + d) else char_of (87 + d))"

definition escape_char :: "char \<Rightarrow> string" where
  "escape_char c = (let n = (of_char c :: nat) in
     if n = 34 \<or> n = 92 then [CHR 0x5C, c]
     else if n = 8 then [CHR 0x5C, CHR ''b''] else if n = 9 then [CHR 0x5C, CHR ''t'']
     else if n = 10 then [CHR 0x5C, CHR ''n''] else if n = 12 then [CHR 0x5C, CHR ''f'']
     else if n = 13 then [CHR 0x5C, CHR ''r'']
     else if n < 32 then [CHR 0x5C, CHR ''u'', CHR ''0'', CHR ''0'', hex_lower (n div 16), hex_lower (n mod 16)]
     else [c])"

definition json_quote :: "string \<Rightarrow> string" where
  "json_quote s = CHR 0x22 # concat (map escape_char s) @ [CHR 0x22]"

lemma hex_digit_val_lower: "d < 16 \<Longrightarrow> hex_digit_val (hex_lower d) = Some d"
  by (auto simp: hex_lower_def Let_def)

lemma lex_escaped: "lex_string (escape_char c @ t) = map_option (\<lambda>(s, r). (c # s, r)) (lex_string t)"
proof -
  define n where "n = (of_char c :: nat)"
  have c: "c = char_of n" by (simp add: n_def)
  have n: "n < 256" by (simp add: n_def)
  consider "n = 34 \<or> n = 92" | "n \<in> {8, 9, 10, 12, 13}" | "n < 32" "n \<notin> {8, 9, 10, 12, 13}"
    | "32 \<le> n" "n \<noteq> 34" "n \<noteq> 92" by fastforce
  then show ?thesis
  proof cases
    case 1
    then show ?thesis
      by (auto simp: c escape_char_def lex_escape_def simple_escape_def split: option.split)
  next
    case 2
    then show ?thesis
      by (auto simp: c escape_char_def lex_escape_def simple_escape_def split: option.split)
  next
    case 3
    have "hex_digit_val CHR ''0'' = Some 0" by simp
    moreover have "utf8_unit (16 * (n div 16) + n mod 16) = [c]" using 3 by (simp add: utf8_unit_def c)
    ultimately show ?thesis
      using 3 n hex_digit_val_lower [of "n div 16"] hex_digit_val_lower [of "n mod 16"]
      by (auto simp: escape_char_def n_def [symmetric] lex_escape_def lex_unicode_def simp del: hex_digit_val.simps split: option.split)
  next
    case 4
    then show ?thesis by (auto simp: escape_char_def n_def [symmetric])
  qed
qed

lemma lex_quoted: "lex_string (concat (map escape_char s) @ CHR 0x22 # rest) = Some (s, rest)"
  by (induction s) (simp_all add: lex_escaped)

section \<open>Numbers\<close>

text \<open>
  A positive number as digits and an exponent of ten: the digits after the point are as many as it takes
  to clear the denominator, then trailing zeros go to the exponent.
\<close>

fun decimal_places :: "nat \<Rightarrow> int \<Rightarrow> int \<Rightarrow> nat" where
  "decimal_places 0 b p = 0"
| "decimal_places (Suc fuel) b p = (if b dvd p then 0 else Suc (decimal_places fuel b (10 * p)))"

function strip_zeros :: "nat \<Rightarrow> int \<Rightarrow> nat \<times> int" where
  "strip_zeros m e = (if 0 < m \<and> m mod 10 = 0 then strip_zeros (m div 10) (e + 1) else (m, e))"
  by pat_completeness auto

termination
  by (relation "measure fst") auto

declare strip_zeros.simps [simp del]

definition decimal_form :: "rat \<Rightarrow> nat \<times> int" where
  "decimal_form q =
     (let (a, b) = quotient_of q; j = decimal_places (nat b) b 1
      in strip_zeros (nat (a * (10 ^ j div b))) (- int j))"

definition show_form :: "nat \<Rightarrow> int \<Rightarrow> string" where
  "show_form m e =
     (let ds = show_nat m; k = int (length ds); n = k + e in
      if k \<le> n \<and> n \<le> 21 then ds @ replicate (nat e) CHR ''0''
      else if 0 < n \<and> n \<le> 21 then take (nat n) ds @ CHR ''.'' # drop (nat n) ds
      else if - 6 < n \<and> n \<le> 0 then CHR ''0'' # CHR ''.'' # replicate (nat (- n)) CHR ''0'' @ ds
      else (if k = 1 then ds else hd ds # CHR ''.'' # tl ds) @ CHR ''e''
             # (if n - 1 < 0 then CHR ''-'' else CHR ''+'') # show_nat (nat \<bar>n - 1\<bar>))"

definition show_rat :: "rat \<Rightarrow> string" where
  "show_rat q =
     (if q = 0 then ''0''
      else if q < 0 then CHR ''-'' # (case decimal_form (- q) of (m, e) \<Rightarrow> show_form m e)
      else (case decimal_form q of (m, e) \<Rightarrow> show_form m e))"

text \<open>The numbers that have a finite decimal expansion: all that \<^verbatim>\<open>JSON.parse\<close> returns.\<close>

definition decimal :: "rat \<Rightarrow> bool" where
  "decimal q = (\<exists>(m :: int) (j :: nat). q = of_int m / 10 ^ j)"

lemma dvd_pow_self: "0 < b \<Longrightarrow> b dvd 10 ^ j \<Longrightarrow> b dvd 10 ^ nat b" for b :: int
proof (induction "nat b" arbitrary: b j rule: less_induct)
  case less
  show ?case
  proof (cases "b = 1")
    case False
    have "\<not> coprime b 10"
    proof
      assume "coprime b 10"
      then have "coprime b (10 ^ j)" by simp
      with less.prems have "is_unit b" using coprime_common_divisor [of b "10 ^ j" b] by simp
      with less.prems(1) False show False by simp
    qed
    then have "\<not> coprime b 2 \<or> \<not> coprime b 5"
      using coprime_mult_right_iff [of b 2 5] by simp
    moreover have "5 dvd b" if "\<not> coprime b 5"
    proof -
      have "g = 1 \<or> g = 5" if "0 < g" "g dvd 5" for g :: int
      proof -
        from that have "g \<le> 5" by (simp add: zdvd_imp_le)
        with \<open>0 < g\<close> have "g = 1 \<or> g = 2 \<or> g = 3 \<or> g = 4 \<or> g = 5" by linarith
        with \<open>g dvd 5\<close> show ?thesis by auto
      qed
      then have "gcd b 5 = 1 \<or> gcd b 5 = 5" by simp
      with that have "gcd b 5 = 5" by (auto simp: coprime_iff_gcd_eq_1)
      then show ?thesis using gcd_dvd1 [of b 5] by simp
    qed
    ultimately have "2 dvd b \<or> 5 dvd b"
      by (auto simp: coprime_right_2_iff_odd)
    then have "\<exists>p \<in> {2, 5}. p dvd b" by simp
    then obtain p c where p: "p \<in> {2, 5}" "b = p * c" unfolding dvd_def by blast
    have c0: "0 < c" using p less.prems(1) by (auto simp: zero_less_mult_iff)
    have c1: "nat c < nat b" using p c0 by auto
    have c2: "c dvd 10 ^ j" using less.prems(2) dvd_trans [of c b] by (simp add: p(2))
    note c = c0 c1 c2
    then have "c dvd 10 ^ nat c" using less.hyps by blast
    moreover have "p dvd 10" using p(1) by auto
    ultimately have "b dvd 10 ^ Suc (nat c)" using p(2) by (simp add: mult_dvd_mono)
    moreover have "(10 :: int) ^ Suc (nat c) dvd 10 ^ nat b" using c(2) by (intro le_imp_power_dvd Suc_leI)
    ultimately show ?thesis by (rule dvd_trans)
  qed simp
qed

lemma decimal_places: "b dvd p * 10 ^ j \<Longrightarrow> j \<le> fuel \<Longrightarrow> b dvd p * 10 ^ decimal_places fuel b p"
proof (induction fuel arbitrary: p j)
  case (Suc fuel)
  show ?case
  proof (cases "b dvd p")
    case False
    then obtain i where "j = Suc i" using Suc.prems(1) by (cases j) auto
    with Suc.prems have "b dvd (10 * p) * 10 ^ i" "i \<le> fuel" by (simp_all add: mult_ac)
    from Suc.IH [OF this] False show ?thesis by (simp add: mult_ac)
  qed simp
qed simp

lemma scale10_step: "m mod 10 = 0 \<Longrightarrow> scale10 (of_nat (m div 10)) (e + 1) = scale10 (of_nat m) e" for m :: nat
proof -
  assume "m mod 10 = 0"
  then obtain k where m: "m = 10 * k" by auto
  have p: "(10 :: rat) ^ nat (1 + e) = 10 * 10 ^ nat e" if "0 \<le> e" using that by (simp add: nat_add_distrib)
  have q: "(10 :: rat) ^ nat (- e) = 10 * 10 ^ nat (- 1 - e)" if "e < 0"
  proof -
    have "nat (- e) = Suc (nat (- 1 - e))" using that by simp
    then show ?thesis by simp
  qed
  show ?thesis using p q by (auto simp: m scale10_def add.commute)
qed

lemma strip_zeros_value: "strip_zeros m e = (m', e') \<Longrightarrow> scale10 (of_nat m') e' = scale10 (of_nat m) e \<and> (0 < m \<longrightarrow> 0 < m')"
proof (induction m e rule: strip_zeros.induct)
  case (1 m e)
  show ?case
  proof (cases "0 < m \<and> m mod 10 = 0")
    case True
    then have "strip_zeros m e = strip_zeros (m div 10) (e + 1)" by (subst strip_zeros.simps) simp
    moreover have "0 < m div 10" using True by auto
    ultimately show ?thesis using 1(1) [OF True] 1(2) scale10_step True by simp
  next
    case False
    then show ?thesis using 1(2) by (subst (asm) strip_zeros.simps) auto
  qed
qed

lemma decimal_form_value:
  assumes "decimal q" and "0 < q" and "decimal_form q = (m, e)"
  shows "scale10 (of_nat m) e = q" and "0 < m"
proof -
  obtain a b where ab: "quotient_of q = (a, b)" by (cases "quotient_of q")
  have b: "0 < b" and cop: "coprime a b" and q: "q = of_int a / of_int b"
    using ab quotient_of_denom_pos quotient_of_coprime quotient_of_div by blast+
  have a: "0 < a" using assms(2) b by (simp add: q zero_less_divide_iff)
  obtain n j where "q = of_int n / 10 ^ j" using assms(1) by (auto simp: decimal_def)
  with q b have "of_int (a * 10 ^ j) = (of_int (n * b) :: rat)" by (simp add: field_simps)
  then have "a * 10 ^ j = n * b" by (simp only: of_int_eq_iff)
  then have "b dvd a * 10 ^ j" by simp
  with cop have "b dvd 10 ^ j" by (simp add: coprime_commute coprime_dvd_mult_right_iff)
  with dvd_pow_self [OF b] have "b dvd 1 * 10 ^ nat b" by simp
  from decimal_places [OF this order_refl] have d: "b dvd 10 ^ decimal_places (nat b) b 1" by simp
  define k where "k = decimal_places (nat b) b 1"
  obtain c where c: "10 ^ k = b * c" using d by (auto simp: k_def)
  have "0 < b * c" unfolding c [symmetric] by simp
  then have "0 < c" using b by (simp add: zero_less_mult_iff)
  have s: "strip_zeros (nat (a * c)) (- int k) = (m, e)"
    using assms(3) b by (simp add: decimal_form_def ab Let_def k_def [symmetric] c)
  have "(10 :: rat) ^ k = of_int b * of_int c" using c by (metis of_int_mult of_int_numeral of_int_power)
  then have "of_int (a * c) / (10 :: rat) ^ k = q"
    using \<open>0 < c\<close> b by (simp add: q field_simps)
  moreover have "of_nat (nat (a * c)) = (of_int (a * c) :: rat)" using a \<open>0 < c\<close> by simp
  ultimately have "scale10 (of_nat (nat (a * c))) (- int k) = q"
    by (cases "k = 0") (simp_all add: scale10_def)
  with strip_zeros_value [OF s] a \<open>0 < c\<close> show "scale10 (of_nat m) e = q" "0 < m" by simp_all
qed


section \<open>Reading a printed number\<close>

definition delim :: "string \<Rightarrow> bool" where
  "delim r = (r = [] \<or> hd r \<in> {CHR '','', CHR '']'', CHR ''}''})"

lemma is_digit10: "is_digit 10 c \<longleftrightarrow> 48 \<le> (of_char c :: nat) \<and> (of_char c :: nat) \<le> 57"
  by (auto simp: is_digit_def digit_val_def Let_def)

definition no_digit :: "string \<Rightarrow> bool" where
  "no_digit r = (r = [] \<or> \<not> is_digit 10 (hd r))"

lemma take_digits_append: "list_all (is_digit 10) ds \<Longrightarrow> no_digit r \<Longrightarrow> take_digits (ds @ r) = (ds, r)"
  by (induction ds) (cases r; auto simp: take_digits_def no_digit_def)+

lemma delim_no_digit: "delim r \<Longrightarrow> no_digit r"
  by (auto simp: delim_def no_digit_def is_digit10)

lemma lex_exponent_delim: "delim r \<Longrightarrow> lex_exponent r = Some (0, r)"
  by (cases r) (auto simp: delim_def lex_exponent_def)

lemma lex_exponent_signed:
  "list_all (is_digit 10) ds \<Longrightarrow> ds \<noteq> [] \<Longrightarrow> delim r \<Longrightarrow>
     lex_exponent (CHR ''e'' # (if neg then CHR ''-'' else CHR ''+'') # ds @ r)
       = Some (if neg then - digits_val 10 ds else digits_val 10 ds, r)"
  by (simp add: lex_exponent_def take_digits_append delim_no_digit)

lemma digit_head: "list_all (is_digit 10) ds \<Longrightarrow> ds \<noteq> [] \<Longrightarrow> \<exists>c cs. ds = c # cs \<and> is_digit 10 c \<and> c \<noteq> CHR ''-''"
  by (cases ds) (auto simp: is_digit10)

text \<open>A number after its sign.\<close>

definition lex_unsigned :: "bool \<Rightarrow> string \<Rightarrow> (rat \<times> string) option" where
  "lex_unsigned neg s1 =
     (let (ds, s2) = take_digits s1
      in if ds = [] \<or> (1 < length ds \<and> hd ds = CHR ''0'') then None
         else
           (let (fs, s3) = (case s2 of c # r \<Rightarrow> if c = CHR ''.'' then take_digits r else ([], s2) | [] \<Rightarrow> ([], s2));
                dot = (case s2 of c # r \<Rightarrow> c = CHR ''.'' | [] \<Rightarrow> False)
            in if dot \<and> fs = [] then None
               else (case lex_exponent s3 of
                       None \<Rightarrow> None
                     | Some (e, s4) \<Rightarrow>
                         let m = scale10 (of_int (digits_val 10 (ds @ fs))) (e - int (length fs))
                         in Some (if neg then - m else m, s4))))"

lemma lex_number_sign:
  "lex_number (CHR ''-'' # s) = lex_unsigned True s"
  "c \<noteq> CHR ''-'' \<Longrightarrow> lex_number (c # s) = lex_unsigned False (c # s)"
proof -
  show "lex_number (CHR ''-'' # s) = lex_unsigned True s"
    unfolding lex_number_def lex_unsigned_def by (simp add: Let_def)
  assume "c \<noteq> CHR ''-''"
  then have sg: "(case c # s of CHR ''-'' # _ \<Rightarrow> True | _ \<Rightarrow> False) = False" by (auto split: char.split bool.split)
  show "lex_number (c # s) = lex_unsigned False (c # s)"
    unfolding lex_number_def lex_unsigned_def Let_def unfolding sg if_False ..
qed

lemma lex_whole:
  assumes "list_all (is_digit 10) ds" and "ds \<noteq> []" and "hd ds = CHR ''0'' \<Longrightarrow> length ds = 1"
    and "no_digit r" and "r = [] \<or> hd r \<noteq> CHR ''.''" and "lex_exponent r = Some (e, t)"
  shows "lex_unsigned neg (ds @ r) = Some (let q = scale10 (of_int (digits_val 10 ds)) e in if neg then - q else q, t)"
  unfolding lex_unsigned_def take_digits_append [OF assms(1,4)]
  using assms(2,3,5,6) by (cases r) (auto simp: Let_def)

lemma lex_fraction:
  assumes "list_all (is_digit 10) ds" and "ds \<noteq> []" and "hd ds = CHR ''0'' \<Longrightarrow> length ds = 1"
    and "list_all (is_digit 10) fs" and "fs \<noteq> []" and "no_digit r" and "lex_exponent r = Some (e, t)"
  shows "lex_unsigned neg (ds @ CHR ''.'' # fs @ r) =
    Some (let q = scale10 (of_int (digits_val 10 (ds @ fs))) (e - int (length fs)) in if neg then - q else q, t)"
proof -
  have "no_digit (CHR ''.'' # fs @ r)" by (simp add: no_digit_def is_digit10)
  note td = take_digits_append [OF assms(1) this] take_digits_append [OF assms(4,6)]
  show ?thesis using assms(2,3,5,7) by (auto simp: lex_unsigned_def Let_def td)
qed

lemma digits_val_app: "digits_val r (xs @ ys) = digits_val r xs * int r ^ length ys + digits_val r ys"
proof (induction ys rule: rev_induct)
  case (snoc y ys)
  show ?case
    unfolding append_assoc [symmetric] digits_val_append snoc.IH by (simp add: algebra_simps)
qed (simp add: digits_val_def)

lemma digits_val_zeros [simp]: "digits_val r (replicate n CHR ''0'') = 0"
  by (induction n) (simp_all add: digits_val_def digit_val_def)

lemma show_nat_head: "0 < n \<Longrightarrow> hd (show_nat n) \<noteq> CHR ''0''"
proof (induction n rule: show_nat.induct)
  case (1 n)
  show ?case
  proof (cases "n < 10")
    case True
    have "digit_char n \<noteq> digit_char 0"
      using 1 True digit_val_digit_char [of n] digit_val_digit_char [of 0] by auto
    moreover have "digit_char 0 = CHR ''0''" by code_simp
    ultimately show ?thesis using True by (subst show_nat.simps) simp
  next
    case False
    then have "show_nat n = show_nat (n div 10) @ [digit_char (n mod 10)]" by (subst show_nat.simps) simp
    moreover have "hd (show_nat (n div 10)) \<noteq> CHR ''0''" using 1 False by simp
    ultimately show ?thesis by (simp add: show_nat_nonempty)
  qed
qed

lemma list_all_show_nat [simp]: "list_all (is_digit 10) (show_nat n)"
  by (simp add: list_all_iff show_nat_digits)

lemma list_all_zeros [simp]: "list_all (is_digit 10) (replicate n CHR ''0'')"
  by (auto simp: list_all_iff is_digit10)

lemma list_all_part: "list_all P xs \<Longrightarrow> list_all P (take n xs) \<and> list_all P (drop n xs)"
  by (metis append_take_drop_id list_all_append)

lemma lex_show_form:
  assumes "0 < m" and "delim rest"
  shows "lex_unsigned neg (show_form m e @ rest) =
    Some (let q = scale10 (of_nat m) e in if neg then - q else q, rest)"
proof -
  define ds where "ds = show_nat m"
  define k where "k = int (length ds)"
  define n where "n = k + e"
  have ds: "ds \<noteq> []" "hd ds \<noteq> CHR ''0''" "list_all (is_digit 10) ds" "digits_val 10 ds = int m"
    using assms(1) by (simp_all add: ds_def show_nat_nonempty show_nat_head digits_val_show_nat)
  then have k: "0 < k" by (simp add: k_def)
  have x: "lex_exponent rest = Some (0, rest)" "no_digit rest" "rest = [] \<or> hd rest \<noteq> CHR ''.''"
    using assms(2) by (auto simp: lex_exponent_delim delim_no_digit) (simp add: delim_def)
  have form: "show_form m e =
     (if k \<le> n \<and> n \<le> 21 then ds @ replicate (nat e) CHR ''0''
      else if 0 < n \<and> n \<le> 21 then take (nat n) ds @ CHR ''.'' # drop (nat n) ds
      else if - 6 < n \<and> n \<le> 0 then CHR ''0'' # CHR ''.'' # replicate (nat (- n)) CHR ''0'' @ ds
      else (if k = 1 then ds else hd ds # CHR ''.'' # tl ds) @ CHR ''e''
             # (if n - 1 < 0 then CHR ''-'' else CHR ''+'') # show_nat (nat \<bar>n - 1\<bar>))"
    by (simp only: show_form_def Let_def ds_def k_def n_def)
  consider (whole) "k \<le> n \<and> n \<le> 21" | (inside) "\<not> (k \<le> n \<and> n \<le> 21)" "0 < n \<and> n \<le> 21"
    | (small) "\<not> (0 < n \<and> n \<le> 21)" "\<not> (k \<le> n \<and> n \<le> 21)" "- 6 < n \<and> n \<le> 0"
    | (expo) "\<not> (k \<le> n \<and> n \<le> 21)" "\<not> (0 < n \<and> n \<le> 21)" "\<not> (- 6 < n \<and> n \<le> 0)" by blast
  then show ?thesis
  proof cases
    case whole
    then have "show_form m e = ds @ replicate (nat e) CHR ''0''" by (simp add: form)
    moreover have "0 \<le> e" using whole by (simp add: n_def)
    moreover have "list_all (is_digit 10) (ds @ replicate (nat e) CHR ''0'')" using ds by simp
    note lex_whole [OF this _ _ x(2,3,1), of neg]
    ultimately show ?thesis using ds by (simp add: digits_val_app scale10_def)
  next
    case inside
    then have "show_form m e = take (nat n) ds @ CHR ''.'' # drop (nat n) ds" by (simp add: form)
    moreover have "length (drop (nat n) ds) = nat (- e)" "drop (nat n) ds \<noteq> []" "e < 0" "take (nat n) ds \<noteq> []"
      "hd (take (nat n) ds) \<noteq> CHR ''0''"
      using inside k ds by (auto simp: n_def k_def)
    moreover note lex_fraction [OF list_all_part [OF ds(3), THEN conjunct1] _ _ list_all_part [OF ds(3), THEN conjunct2] _ x(2,1),
        of "nat n" "nat n" neg]
    ultimately show ?thesis using ds by simp
  next
    case small
    then have "show_form m e = [CHR ''0''] @ CHR ''.'' # (replicate (nat (- n)) CHR ''0'' @ ds)" by (simp add: form)
    moreover have "list_all (is_digit 10) [CHR ''0'']" by (simp add: is_digit10)
    moreover have "list_all (is_digit 10) (replicate (nat (- n)) CHR ''0'' @ ds)" using ds by simp
    moreover have "int (length (replicate (nat (- n)) CHR ''0'' @ ds)) = - e" using small by (simp add: n_def k_def)
    moreover have "digits_val 10 ([CHR ''0''] @ replicate (nat (- n)) CHR ''0'' @ ds) = int m"
      using digits_val_app [of 10 "replicate (Suc (nat (- n))) CHR ''0''" ds] ds(4) digits_val_zeros [of 10 "Suc (nat (- n))"]
      by simp
    moreover note lex_fraction [of "[CHR ''0'']" "replicate (nat (- n)) CHR ''0'' @ ds" rest 0 rest neg]
    ultimately show ?thesis using ds x by simp
  next
    case expo
    define r where "r = CHR ''e'' # (if n - 1 < 0 then CHR ''-'' else CHR ''+'') # show_nat (nat \<bar>n - 1\<bar>) @ rest"
    have r: "lex_exponent r = Some (n - 1, rest)" "no_digit r" "r = [] \<or> hd r \<noteq> CHR ''.''"
      using lex_exponent_signed [OF list_all_show_nat show_nat_nonempty assms(2), of "n - 1 < 0" "nat \<bar>n - 1\<bar>"]
      by (auto simp: r_def digits_val_show_nat no_digit_def is_digit10)
    have f: "show_form m e @ rest = (if k = 1 then ds else hd ds # CHR ''.'' # tl ds) @ r"
      unfolding form r_def if_not_P [OF expo(1)] if_not_P [OF expo(2)] if_not_P [OF expo(3)] by simp
    show ?thesis
    proof (cases "k = 1")
      case True
      then show ?thesis using f ds lex_whole [OF ds(3,1) _ r(2,3,1), of neg] by (simp add: n_def)
    next
      case False
      then obtain d t where dt: "ds = d # t" "t \<noteq> []" using ds(1) by (cases ds) (auto simp: k_def)
      have "list_all (is_digit 10) [d]" "list_all (is_digit 10) t" using ds(3) dt by simp_all
      moreover note lex_fraction [of "[d]" t r "n - 1" rest neg]
      ultimately show ?thesis using f False ds dt r by (simp add: n_def k_def)
    qed
  qed
qed

lemma show_form_head: "0 < m \<Longrightarrow> \<exists>c cs. show_form m e = c # cs \<and> is_digit 10 c"
proof -
  assume "0 < m"
  obtain c cs where s: "show_nat m = c # cs" "is_digit 10 c" by (rule show_nat_Cons)
  have "is_digit 10 CHR ''0''" by (simp add: is_digit10)
  moreover have "take n (c # cs) = c # take (n - 1) cs" if "0 < n" for n using that by (cases n) simp_all
  ultimately show ?thesis using s by (auto simp: show_form_def Let_def)
qed

lemma decimal_uminus: "decimal q \<Longrightarrow> decimal (- q)"
  unfolding decimal_def by (metis minus_divide_left of_int_minus)

lemma lex_show_rat:
  assumes "decimal q" and "delim rest"
  shows "lex_number (show_rat q @ rest) = Some (q, rest)"
proof -
  have pos: "\<exists>m e. decimal_form p = (m, e) \<and> 0 < m \<and> scale10 (of_nat m) e = p" if "decimal p" "0 < p" for p
    using decimal_form_value [OF that] by (cases "decimal_form p") blast
  consider "q = 0" | "q < 0" | "0 < q" by linarith
  then show ?thesis
  proof cases
    case 1
    have "lex_unsigned False ([CHR ''0''] @ rest) = Some (0, rest)"
      using lex_whole [of "[CHR ''0'']" rest 0 rest False] assms(2) digits_val_zeros [of 10 1]
      by (auto simp: is_digit10 delim_no_digit lex_exponent_delim delim_def scale10_def)
    then show ?thesis using 1 by (simp add: show_rat_def lex_number_sign)
  next
    case 2
    then obtain m e where "decimal_form (- q) = (m, e)" "0 < m" "scale10 (of_nat m) e = - q"
      using pos [OF decimal_uminus [OF assms(1)]] by auto
    then show ?thesis using 2 lex_show_form [OF _ assms(2), of m True e] by (simp add: show_rat_def lex_number_sign)
  next
    case 3
    then obtain m e where me: "decimal_form q = (m, e)" "0 < m" "scale10 (of_nat m) e = q" using pos [OF assms(1)] by auto
    obtain c cs where c: "show_form m e = c # cs" "is_digit 10 c" using show_form_head [OF me(2)] by blast
    then have "c \<noteq> CHR ''-''" by (auto simp: is_digit10)
    then show ?thesis
      using 3 me c lex_show_form [OF me(2) assms(2), of False e] by (simp add: show_rat_def lex_number_sign)
  qed
qed

lemma show_rat_head: "decimal q \<Longrightarrow> \<exists>c cs. show_rat q = c # cs \<and> (is_digit 10 c \<or> c = CHR ''-'')"
proof -
  assume q: "decimal q"
  show ?thesis
  proof (cases "0 < q")
    case True
    obtain m e where me: "decimal_form q = (m, e)" by (cases "decimal_form q")
    then show ?thesis using True show_form_head [OF decimal_form_value(2) [OF q True me], of e] by (auto simp: show_rat_def)
  next
    case False
    then show ?thesis by (auto simp: show_rat_def is_digit10)
  qed
qed


section \<open>Values\<close>

fun commas :: "string list \<Rightarrow> string" where
  "commas [] = []"
| "commas [x] = x"
| "commas (x # y # ys) = x @ CHR '','' # commas (y # ys)"

fun json_text :: "json \<Rightarrow> string" where
  "json_text JNull = ''null''"
| "json_text (JBool b) = (if b then ''true'' else ''false'')"
| "json_text (JNum q) = show_rat q"
| "json_text (JStr s) = json_quote s"
| "json_text (JArr xs) = CHR ''['' # commas (map json_text xs) @ '']''"
| "json_text (JObj kvs) = CHR ''{'' # commas (map (\<lambda>(k, v). json_quote k @ CHR '':'' # json_text v) kvs) @ ''}''"

text \<open>
  What \<^verbatim>\<open>JSON.parse\<close> returns: numbers with finitely many digits, and objects whose own names are distinct and in
  the order of enumeration.
\<close>

definition own_order :: "string list \<Rightarrow> bool" where
  "own_order ks = sorted_wrt (\<lambda>k k'. k \<noteq> k' \<and> \<not> entry_before k' k) ks"

fun wf_json :: "json \<Rightarrow> bool" where
  "wf_json (JNum q) = decimal q"
| "wf_json (JArr xs) = list_all wf_json xs"
| "wf_json (JObj kvs) = (own_order (map fst kvs) \<and> list_all (\<lambda>(k, v). wf_json v) kvs)"
| "wf_json _ = True"

lemma obj_insert_last: "list_all (\<lambda>(k', v'). \<not> entry_before k k') kvs \<Longrightarrow> obj_insert k v kvs = kvs @ [(k, v)]"
  by (induction kvs) auto

lemma obj_put_last: "own_order (map fst (kvs @ [(k, v)])) \<Longrightarrow> obj_put k v kvs = kvs @ [(k, v)]"
  by (force simp: own_order_def sorted_wrt_append obj_put_def list_all_iff intro!: obj_insert_last)

lemma json_quote_lex: "lex_string (tl (json_quote s) @ rest) = Some (s, rest)"
  by (simp add: json_quote_def lex_quoted)

lemma json_quote_Cons: "json_quote s = CHR 0x22 # tl (json_quote s)"
  by (simp add: json_quote_def)

lemma json_text_head:
  "wf_json v \<Longrightarrow> \<exists>c cs. json_text v = c # cs \<and> \<not> json_space c \<and> c \<notin> {CHR '']'', CHR ''}'', CHR '',''}"
proof (cases v)
  case (JNum q)
  moreover assume "wf_json v"
  ultimately obtain c cs where "show_rat q = c # cs" "is_digit 10 c \<or> c = CHR ''-''"
    using show_rat_head [of q] by auto
  then show ?thesis using JNum by (auto simp: is_digit10 json_space_def)
qed (auto simp: json_quote_def json_space_def)

lemma skip_ws_Cons: "\<not> json_space c \<Longrightarrow> skip_ws (c # cs) = c # cs"
  by (simp add: skip_ws_def)

lemma skip_ws_text: "wf_json v \<Longrightarrow> skip_ws (json_text v @ rest) = json_text v @ rest"
  using json_text_head [of v] by (auto simp: skip_ws_Cons)

lemma not_space [simp]: "\<not> json_space CHR '',''" "\<not> json_space CHR '']''" "\<not> json_space CHR ''}''" "\<not> json_space CHR ''{''"
  "\<not> json_space CHR ''[''" "\<not> json_space CHR '':''" "\<not> json_space CHR 0x22"
  by (simp_all add: json_space_def)

lemma delim_Cons [simp]: "delim (CHR '','' # r)" "delim (CHR '']'' # r)" "delim (CHR ''}'' # r)" "delim []"
  by (simp_all add: delim_def)

lemma parse_number: "decimal q \<Longrightarrow> delim rest \<Longrightarrow> parse_value (Suc n) (show_rat q @ rest) = Some (JNum q, rest)"
proof -
  assume q: "decimal q" and rest: "delim rest"
  obtain c cs where c: "show_rat q = c # cs" "is_digit 10 c \<or> c = CHR ''-''" using show_rat_head [OF q] by blast
  then have h: "\<not> json_space c" "c \<noteq> CHR ''{''" "c \<noteq> CHR ''[''" "(of_char c :: nat) \<noteq> 34" "c \<noteq> CHR ''t''" "c \<noteq> CHR ''f''" "c \<noteq> CHR ''n''"
    by (auto simp: is_digit10 json_space_def)
  show ?thesis
    using lex_show_rat [OF q rest] h by (simp add: c(1) skip_ws_Cons strip_prefix_def Let_def)
qed

definition member_text :: "string \<times> json \<Rightarrow> string" where
  "member_text = (\<lambda>(k, v). json_quote k @ CHR '':'' # json_text v)"

definition reads_back :: "json \<Rightarrow> bool" where
  "reads_back v = (\<forall>n rest. 2 * length (json_text v) < n \<longrightarrow> delim rest \<longrightarrow>
     parse_value n (json_text v @ rest) = Some (v, rest))"

lemma reads_backD: "reads_back v \<Longrightarrow> 2 * length (json_text v) < n \<Longrightarrow> delim rest \<Longrightarrow>
  parse_value n (json_text v @ rest) = Some (v, rest)"
  by (simp add: reads_back_def)

lemma reads_backI:
  "(\<And>m rest. delim rest \<Longrightarrow> parse_value (Suc m) (json_text v @ rest) = Some (v, rest)) \<Longrightarrow> reads_back v"
  unfolding reads_back_def by (metis less_nat_zero_code not0_implies_Suc)

lemma parse_elements_text:
  "list_all reads_back (x # xs) \<Longrightarrow> 2 * length (commas (map json_text (x # xs))) + 1 < n \<Longrightarrow>
     parse_elements n acc (commas (map json_text (x # xs)) @ CHR '']'' # rest) = Some (JArr (acc @ x # xs), rest)"
proof (induction xs arbitrary: x acc n)
  case Nil
  then obtain m where m: "n = Suc m" by (cases n) auto
  have "parse_value m (json_text x @ CHR '']'' # rest) = Some (x, CHR '']'' # rest)"
    using Nil m by (intro reads_backD) simp_all
  then show ?case by (simp add: m skip_ws_Cons)
next
  case (Cons y ys)
  then obtain m where m: "n = Suc m" by (cases n) auto
  let ?more = "commas (map json_text (y # ys)) @ CHR '']'' # rest"
  have "parse_value m (json_text x @ CHR '','' # ?more) = Some (x, CHR '','' # ?more)"
    using Cons.prems m by (intro reads_backD) simp_all
  moreover have "parse_elements m (acc @ [x]) ?more = Some (JArr ((acc @ [x]) @ y # ys), rest)"
    using Cons.prems m by (intro Cons.IH) simp_all
  ultimately show ?case by (simp add: m skip_ws_Cons)
qed

lemma member_step:
  "reads_back v \<Longrightarrow> 2 * length (json_text v) < n \<Longrightarrow> delim (d # ds) \<Longrightarrow> \<not> json_space d \<Longrightarrow>
     parse_members (Suc n) acc (member_text (k, v) @ d # ds) =
       (if d = CHR '','' then parse_members n (obj_put k v acc) ds
        else if d = CHR ''}'' then Some (JObj (obj_put k v acc), ds) else None)"
proof -
  assume a: "reads_back v" "2 * length (json_text v) < n" "delim (d # ds)" "\<not> json_space d"
  obtain t where t: "json_quote k = CHR 0x22 # t" using json_quote_Cons by blast
  have "lex_string (t @ CHR '':'' # json_text v @ d # ds) = Some (k, CHR '':'' # json_text v @ d # ds)"
    using json_quote_lex [of k] by (simp add: t)
  with reads_backD [OF a(1,2,3)] a(4) show ?thesis by (simp add: member_text_def t skip_ws_Cons)
qed

lemma parse_members_text:
  "list_all (reads_back \<circ> snd) (x # xs) \<Longrightarrow> own_order (map fst (acc @ x # xs)) \<Longrightarrow>
   2 * length (commas (map member_text (x # xs))) + 1 < n \<Longrightarrow>
     parse_members n acc (commas (map member_text (x # xs)) @ CHR ''}'' # rest) = Some (JObj (acc @ x # xs), rest)"
proof (induction xs arbitrary: x acc n)
  case Nil
  then obtain m where m: "n = Suc m" by (cases n) auto
  obtain k v where x: "x = (k, v)" by (cases x)
  have "length (json_text v) < length (member_text x)" by (simp add: x member_text_def)
  then show ?case
    using Nil m member_step [of v m "CHR ''}''" rest acc k] obj_put_last [of acc k v] by (simp add: x)
next
  case (Cons y ys)
  then obtain m where m: "n = Suc m" by (cases n) auto
  obtain k v where x: "x = (k, v)" by (cases x)
  have l: "length (json_text v) < length (member_text x)" by (simp add: x member_text_def)
  have "obj_put k v acc = acc @ [(k, v)]"
    using Cons.prems(2) by (intro obj_put_last) (simp add: x own_order_def sorted_wrt_append)
  moreover have "parse_members m (acc @ [x]) (commas (map member_text (y # ys)) @ CHR ''}'' # rest) = Some (JObj ((acc @ [x]) @ y # ys), rest)"
    using Cons.prems m l by (intro Cons.IH) simp_all
  ultimately show ?case
    using Cons.prems m l member_step [of v m "CHR '',''" "commas (map member_text (y # ys)) @ CHR ''}'' # rest" acc k]
    by (simp add: x)
qed

lemma commas_head:
  "\<exists>c cs. f x = c # cs \<and> \<not> json_space c \<and> c \<noteq> d \<Longrightarrow> \<exists>c cs. commas (map f (x # xs)) = c # cs \<and> \<not> json_space c \<and> c \<noteq> d"
  by (cases xs) auto

theorem json_text_reads_back: "wf_json v \<Longrightarrow> reads_back v"
proof (induction v)
  case (JNum q)
  then show ?case by (intro reads_backI) (simp add: parse_number del: parse_value.simps)
next
  case (JArr xs)
  then have r: "list_all reads_back xs" by (auto simp: list_all_iff)
  show ?case unfolding reads_back_def
  proof (intro allI impI)
    fix n rest
    assume n: "2 * length (json_text (JArr xs)) < n"
    then obtain m where m: "n = Suc m" by (cases n) auto
    show "parse_value n (json_text (JArr xs) @ rest) = Some (JArr xs, rest)"
    proof (cases xs)
      case (Cons y ys)
      obtain c cs where "commas (map json_text (y # ys)) = c # cs" "\<not> json_space c" "c \<noteq> CHR '']''"
        using commas_head [of json_text y "CHR '']''" ys] json_text_head [of y] JArr.prems Cons by fastforce
      then show ?thesis
        using parse_elements_text [of y ys m "[]" rest] r n by (simp add: m Cons skip_ws_Cons del: commas.simps list.map)
    qed (simp add: m skip_ws_Cons)
  qed
next
  case (JObj kvs)
  then have r: "list_all (reads_back \<circ> snd) kvs" by (auto simp: list_all_iff)
  show ?case unfolding reads_back_def
  proof (intro allI impI)
    fix n rest
    assume n: "2 * length (json_text (JObj kvs)) < n"
    then obtain m where m: "n = Suc m" by (cases n) auto
    show "parse_value n (json_text (JObj kvs) @ rest) = Some (JObj kvs, rest)"
    proof (cases kvs)
      case (Cons y ys)
      have "\<exists>c cs. member_text y = c # cs \<and> \<not> json_space c \<and> c \<noteq> CHR ''}''"
        by (cases y) (simp add: member_text_def json_quote_def)
      from commas_head [of member_text, OF this]
      obtain c cs where "commas (map member_text (y # ys)) = c # cs" "\<not> json_space c" "c \<noteq> CHR ''}''" by blast
      then show ?thesis
        using parse_members_text [of y ys "[]" m rest] r n JObj.prems
        by (simp add: m Cons skip_ws_Cons member_text_def [symmetric] del: commas.simps list.map)
    qed (simp add: m skip_ws_Cons)
  qed
qed (auto simp: strip_prefix_def skip_ws_Cons json_space_def json_quote_def lex_quoted intro!: reads_backI)

lemma json_round_trip: "wf_json v \<Longrightarrow> json_parse (json_text v) = Inr v"
  using reads_backD [OF json_text_reads_back, of v "2 * length (json_text v) + 2" "[]"]
  by (simp add: json_parse_def skip_ws_def del: parse_value.simps)

section \<open>What the parser returns is well-formed\<close>

lemma index_key_inject: "index_key k = Some i \<Longrightarrow> index_key k' = Some i \<Longrightarrow> k = k'"
  by (auto simp: index_key_def split: jsnum.splits if_splits)

lemma entry_before_trans: "entry_before a b \<Longrightarrow> entry_before b c \<Longrightarrow> entry_before a c"
  by (auto simp: entry_before_def split: option.splits)

lemma entry_before_antisym: "entry_before a b \<Longrightarrow> \<not> entry_before b a"
  by (auto simp: entry_before_def split: option.splits)

lemma set_obj_insert: "set (obj_insert k v kvs) = insert (k, v) (set kvs)"
  by (induction kvs rule: obj_insert.induct) auto

lemma obj_insert_order: "own_order (map fst kvs) \<Longrightarrow> k \<notin> fst ` set kvs \<Longrightarrow> own_order (map fst (obj_insert k v kvs))"
proof (induction kvs)
  case (Cons x kvs)
  obtain k' v' where x: "x = (k', v')" by (cases x)
  show ?case
  proof (cases "entry_before k k'")
    case True
    have "\<not> entry_before l k" if "l \<in> fst ` set kvs" for l
      using that Cons.prems(1) True entry_before_trans [of l k k'] by (auto simp: x own_order_def)
    with Cons.prems True show ?thesis by (auto simp: x own_order_def entry_before_antisym image_iff)
  next
    case False
    with Cons show ?thesis by (auto simp: x own_order_def set_obj_insert)
  qed
qed (simp add: own_order_def)

lemma fst_obj_replace: "map fst (obj_replace k v kvs) = map fst kvs"
  by (induction kvs rule: obj_replace.induct) auto

lemma obj_put_order: "own_order (map fst kvs) \<Longrightarrow> own_order (map fst (obj_put k v kvs))"
  by (simp add: obj_put_def fst_obj_replace obj_insert_order)

lemma set_obj_replace: "set (obj_replace k v kvs) \<subseteq> insert (k, v) (set kvs)"
  by (induction kvs rule: obj_replace.induct) auto

lemma set_obj_put: "set (obj_put k v kvs) \<subseteq> insert (k, v) (set kvs)"
  using set_obj_replace by (simp add: obj_put_def set_obj_insert)

lemma map_of_obj_insert: "k \<notin> fst ` set kvs \<Longrightarrow> map_of (obj_insert k v kvs) = (map_of kvs)(k \<mapsto> v)"
  by (induction kvs rule: obj_insert.induct) (auto split: if_splits)

lemma map_of_obj_replace: "k \<in> fst ` set kvs \<Longrightarrow> map_of (obj_replace k v kvs) = (map_of kvs)(k \<mapsto> v)"
proof (induction kvs)
  case (Cons x kvs)
  then show ?case by (cases x; cases "k = fst x") (auto simp: fun_eq_iff)
qed simp

lemma map_of_obj_put: "map_of (obj_put k v kvs) = (map_of kvs)(k \<mapsto> v)"
  by (simp add: obj_put_def map_of_obj_insert map_of_obj_replace)

lemma wf_obj_put: "wf_json (JObj kvs) \<Longrightarrow> wf_json v \<Longrightarrow> wf_json (JObj (obj_put k v kvs))"
  using set_obj_put [of k v kvs] by (fastforce simp: obj_put_order list_all_iff)

lemma decimal_scale10: "decimal (scale10 (of_int m) e)"
proof (cases "0 \<le> e")
  case True
  then have "scale10 (of_int m) e = of_int (m * 10 ^ nat e) / 10 ^ 0" by (simp add: scale10_def)
  then show ?thesis unfolding decimal_def by blast
next
  case False
  then show ?thesis by (auto simp: decimal_def scale10_def)
qed

lemma lex_number_decimal: "lex_number s = Some (q, r) \<Longrightarrow> decimal q"
  by (auto simp: lex_number_def Let_def decimal_scale10 decimal_uminus split: prod.splits if_splits option.splits)

lemma parse_wf:
  "(\<forall>s v r. parse_value n s = Some (v, r) \<longrightarrow> wf_json v) \<and>
   (\<forall>acc s v r. list_all wf_json acc \<longrightarrow> parse_elements n acc s = Some (v, r) \<longrightarrow> wf_json v) \<and>
   (\<forall>acc s v r. wf_json (JObj acc) \<longrightarrow> parse_members n acc s = Some (v, r) \<longrightarrow> wf_json v)"
proof (induction n)
  case (Suc n)
  note v = Suc.IH [THEN conjunct1, rule_format]
  note e = Suc.IH [THEN conjunct2, THEN conjunct1, rule_format]
  note m = Suc.IH [THEN conjunct2, THEN conjunct2, rule_format]
  have "wf_json x" if "parse_value (Suc n) s = Some (x, r)" for s x r
    using that e [of "[]"] m [of "[]"]
    by (auto simp: Let_def own_order_def lex_number_decimal split: if_splits list.splits option.splits)
  moreover have "wf_json x" if acc: "list_all wf_json acc" and p: "parse_elements (Suc n) acc s = Some (x, r)" for acc s x r
  proof -
    obtain y t where y: "parse_value n s = Some (y, t)" using p by (auto split: option.splits)
    then have "list_all wf_json (acc @ [y])" using v acc by auto
    with p y e [OF this] show ?thesis by (auto split: list.splits if_splits)
  qed
  moreover have "wf_json x" if acc: "wf_json (JObj acc)" and p: "parse_members (Suc n) acc s = Some (x, r)" for acc s x r
  proof -
    obtain k y t cs where y: "parse_value n cs = Some (y, t)" and
      q: "(case skip_ws t of d # ds \<Rightarrow> if d = CHR '','' then parse_members n (obj_put k y acc) ds
             else if d = CHR ''}'' then Some (JObj (obj_put k y acc), ds) else None | [] \<Rightarrow> None) = Some (x, r)"
      using p by (simp split: list.splits option.splits if_splits prod.splits)
    have "wf_json (JObj (obj_put k y acc))" using acc v [OF y] by (rule wf_obj_put)
    with q m [OF this] show ?thesis by (auto simp del: wf_json.simps split: list.splits if_splits)
  qed
  ultimately show ?case by blast
qed simp

text \<open>Every parsed value prints to a text that parses to it.\<close>

lemma json_parse_wf: "json_parse s = Inr v \<Longrightarrow> wf_json v"
  using parse_wf [of "2 * length s + 2", THEN conjunct1, rule_format, of s]
  by (auto simp: json_parse_def simp del: parse_value.simps split: option.splits if_splits)

section \<open>Spreading a value into an object\<close>

text \<open>\<^verbatim>\<open>{ ...body }\<close>: the own properties; of a text or a list those are its elements by index.\<close>

definition spread :: "json \<Rightarrow> (string \<times> json) list" where
  "spread body =
     (case body of
        JObj kvs \<Rightarrow> kvs
      | JArr xs \<Rightarrow> zip (map (show_nat \<circ> fst) (List.enumerate 0 xs)) xs
      | JStr s \<Rightarrow> zip (map (show_nat \<circ> fst) (List.enumerate 0 s)) (map (\<lambda>c. JStr [c]) s)
      | _ \<Rightarrow> [])"

lemma show_nat_inject: "show_nat m = show_nat n \<longleftrightarrow> m = n"
  by (metis digits_val_show_nat of_nat_eq_iff)

lemma distinct_indices: "distinct (map (show_nat \<circ> fst) (List.enumerate i xs))"
  unfolding map_map [symmetric] map_fst_enumerate by (simp add: distinct_map inj_on_def show_nat_inject)

lemma own_order_distinct: "own_order ks \<Longrightarrow> distinct ks"
  by (induction ks) (auto simp: own_order_def)

lemma distinct_spread: "wf_json p \<Longrightarrow> distinct (map fst (spread p))"
  by (cases p) (auto simp: spread_def own_order_distinct distinct_indices)

lemma wf_spread: "wf_json p \<Longrightarrow> list_all (wf_json \<circ> snd) (spread p)"
  by (cases p) (auto simp: spread_def list_all_iff dest!: set_zip_rightD)

end
