(* ===== verification/Dates.thy ===== *)
theory Dates
  imports JS
begin

text \<open>
  \<^verbatim>\<open>Date\<close> as the code uses it: milliseconds since 1970 or the invalid date, \<^verbatim>\<open>toISOString\<close>, \<^verbatim>\<open>new Date(text)\<close>
  on the ISO 8601 format of the language standard, and the clock text of
  \<^verbatim>\<open>toLocaleTimeString\<close>. The process is taken to run in UTC; a text outside the ISO format is
  left to a parameter \<open>legacy\<close>, as the standard leaves it to the engine. What is written by
  \<^verbatim>\<open>toISOString\<close> in the years 1 to 9999 is read back exactly.
\<close>

type_synonym date = "int jsnum"

section \<open>The calendar\<close>

definition leap :: "int \<Rightarrow> bool" where
  "leap y = (y mod 4 = 0 \<and> (y mod 100 \<noteq> 0 \<or> y mod 400 = 0))"

text \<open>Days from the first day of year 1 to the first day of year \<open>y\<close>, and to the first day of a month.\<close>

definition days_before_year :: "int \<Rightarrow> int" where
  "days_before_year y = (let p = y - 1 in 365 * p + p div 4 - p div 100 + p div 400)"

definition month_starts :: "bool \<Rightarrow> int list" where
  "month_starts lp = (if lp then [0, 31, 60, 91, 121, 152, 182, 213, 244, 274, 305, 335]
     else [0, 31, 59, 90, 120, 151, 181, 212, 243, 273, 304, 334])"

definition epoch_day :: int where "epoch_day = 719162"

definition civil_days :: "int \<Rightarrow> int \<Rightarrow> int \<Rightarrow> int" where
  "civil_days y m d = days_before_year y - epoch_day + month_starts (leap y) ! nat (m - 1) + d - 1"

definition year_of :: "int \<Rightarrow> int" where
  "year_of z = (let p = (400 * z) div 146097 in if days_before_year (p + 2) \<le> z then p + 2 else p + 1)"

definition month_of :: "bool \<Rightarrow> int \<Rightarrow> int" where
  "month_of lp doy = int (length (takeWhile (\<lambda>b. b \<le> doy) (month_starts lp)))"

definition date_parts :: "int \<Rightarrow> int \<times> int \<times> int" where
  "date_parts days =
     (let z = days + epoch_day; y = year_of z; doy = z - days_before_year y; m = month_of (leap y) doy
      in (y, m, doy - month_starts (leap y) ! nat (m - 1) + 1))"

lemma days_before_year_bounds:
  "146097 * p - 699 \<le> 400 * days_before_year (p + 1)" "400 * days_before_year (p + 1) \<le> 146097 * p + 396"
  unfolding days_before_year_def Let_def by simp_all

lemma year_of_bounds:
  "days_before_year (year_of z) \<le> z" "z < days_before_year (year_of z + 1)"
proof -
  define p where "p = (400 * z) div 146097"
  have p: "146097 * p \<le> 400 * z" "400 * z < 146097 * p + 146097"
    by (simp_all add: p_def)
  have b: "days_before_year (p + 1) \<le> z"
    using days_before_year_bounds(2) [of p] p(1) by linarith
  have c: "z < days_before_year (p + 3)"
    using days_before_year_bounds(1) [of "p + 2"] p(2) by (simp add: add.commute [of p])
  show "days_before_year (year_of z) \<le> z" "z < days_before_year (year_of z + 1)"
    using b c by (simp_all add: year_of_def p_def [symmetric] Let_def add.assoc)
qed

lemma leap_days:
  fixes a b c :: bool
  assumes "\<not> b \<longrightarrow> \<not> c" and "\<not> a \<longrightarrow> \<not> b \<and> \<not> c"
  shows "365 + (if a then 1 else 0) - (if b then 1 else 0) + (if c then 1 else 0)
    = (if a \<and> (\<not> b \<or> c) then 366 else 365 :: int)"
  using assms by auto

lemma year_length: "days_before_year (y + 1) - days_before_year y = (if leap y then 366 else 365)"
proof -
  have d: "y div k = (y - 1) div k + (if y mod k = 0 then 1 else 0)" if "0 < k" for k :: int
  proof -
    have "(y - 1) div k = y div k - (if y mod k = 0 then 1 else 0)"
    proof (cases "y mod k = 0")
      case True
      then have "y - 1 = (y div k - 1) * k + (k - 1)"
        using mult_div_mod_eq [of k y] by (simp add: algebra_simps)
      then have "(y - 1) div k = y div k - 1 + (k - 1) div k"
        using that by (metis add.commute div_mult_self1 less_irrefl)
      with True that show ?thesis by simp
    next
      case False
      then have "y - 1 = (y div k) * k + (y mod k - 1)"
        using mult_div_mod_eq [of k y] by (simp add: algebra_simps)
      moreover have "0 \<le> y mod k - 1" "y mod k - 1 < k"
        using False that pos_mod_sign [of k y] pos_mod_bound [of k y] by linarith+
      ultimately have "(y - 1) div k = y div k"
        using that by (metis add.commute add.right_neutral div_mult_self1 div_pos_pos_trivial less_irrefl)
      with False show ?thesis by simp
    qed
    then show ?thesis by simp
  qed
  have "y mod 400 mod 100 = y mod 100" "y mod 100 mod 4 = y mod 4"
    by (rule mod_mod_cancel, simp)+
  then have m: "y mod 100 \<noteq> 0 \<longrightarrow> y mod 400 \<noteq> 0" "y mod 4 \<noteq> 0 \<longrightarrow> y mod 100 \<noteq> 0 \<and> y mod 400 \<noteq> 0"
    by (metis mod_0)+
  have d4: "y div 4 - (y - 1) div 4 = (if y mod 4 = 0 then 1 else 0)" using d [of 4] by linarith
  have d100: "y div 100 - (y - 1) div 100 = (if y mod 100 = 0 then 1 else 0)" using d [of 100] by linarith
  have d400: "y div 400 - (y - 1) div 400 = (if y mod 400 = 0 then 1 else 0)" using d [of 400] by linarith
  have "days_before_year (y + 1) - days_before_year y
      = 365 + (y div 4 - (y - 1) div 4) - (y div 100 - (y - 1) div 100) + (y div 400 - (y - 1) div 400)"
    by (simp add: days_before_year_def Let_def algebra_simps)
  also have "\<dots> = 365 + (if y mod 4 = 0 then 1 else 0) - (if y mod 100 = 0 then 1 else 0) + (if y mod 400 = 0 then 1 else 0)"
    by (simp only: d4 d100 d400)
  finally have e: "days_before_year (y + 1) - days_before_year y
      = 365 + (if y mod 4 = 0 then 1 else 0) - (if y mod 100 = 0 then 1 else 0) + (if y mod 400 = 0 then 1 else 0)" .
  show ?thesis unfolding e leap_def by (rule leap_days [OF m])
qed

lemma month_starts_gap: "i < 11 \<Longrightarrow> month_starts lp ! Suc i \<le> month_starts lp ! i + 31"
  by (cases lp) (simp_all add: month_starts_def less_Suc_eq numeral_eq_Suc, auto)

lemma month_of_bounds:
  assumes "0 \<le> doy" and "doy < (if lp then 366 else 365)"
  shows "1 \<le> month_of lp doy" "month_of lp doy \<le> 12"
    "month_starts lp ! nat (month_of lp doy - 1) \<le> doy"
    "doy - month_starts lp ! nat (month_of lp doy - 1) < 31"
proof -
  let ?n = "length (takeWhile (\<lambda>b. b \<le> doy) (month_starts lp))"
  have len: "length (month_starts lp) = 12" by (simp add: month_starts_def)
  have n: "?n \<le> 12" using length_takeWhile_le [of _ "month_starts lp"] by (simp add: len)
  have "0 < ?n" using assms(1) by (simp add: month_starts_def)
  then obtain i where i: "?n = Suc i" by (cases ?n) auto
  have "takeWhile (\<lambda>b. b \<le> doy) (month_starts lp) ! i \<le> doy"
    using i nth_mem [of i "takeWhile (\<lambda>b. b \<le> doy) (month_starts lp)"] set_takeWhileD by fastforce
  then have low: "month_starts lp ! i \<le> doy" using i by (simp add: takeWhile_nth)
  have high: "doy < month_starts lp ! i + 31"
  proof (cases "i = 11")
    case True
    then show ?thesis using assms(2) by (simp add: month_starts_def split: if_splits)
  next
    case False
    then have "\<not> month_starts lp ! ?n \<le> doy"
      using nth_length_takeWhile [of "\<lambda>b. b \<le> doy" "month_starts lp"] n i by (simp add: len)
    then show ?thesis using month_starts_gap [of i lp] False n i by simp
  qed
  show "1 \<le> month_of lp doy" "month_of lp doy \<le> 12"
    "month_starts lp ! nat (month_of lp doy - 1) \<le> doy"
    "doy - month_starts lp ! nat (month_of lp doy - 1) < 31"
    using i n low high by (simp_all add: month_of_def)
qed

lemma date_parts_civil:
  assumes "date_parts days = (y, m, d)"
  shows "civil_days y m d = days" "1 \<le> m" "m \<le> 12" "1 \<le> d" "d \<le> 31"
proof -
  define z where "z = days + epoch_day"
  have y: "y = year_of z" and m: "m = month_of (leap y) (z - days_before_year y)"
    and d: "d = z - days_before_year y - month_starts (leap y) ! nat (m - 1) + 1"
    using assms by (auto simp: date_parts_def z_def Let_def)
  have b: "0 \<le> z - days_before_year y" "z - days_before_year y < (if leap y then 366 else 365)"
    using year_of_bounds [of z] year_length [of y] by (auto simp: y)
  show "civil_days y m d = days" by (simp add: civil_days_def d z_def)
  show "1 \<le> m" "m \<le> 12" "1 \<le> d" "d \<le> 31"
    using month_of_bounds [OF b] by (simp_all add: m d)
qed

section \<open>Texts\<close>

fun pad :: "nat \<Rightarrow> int \<Rightarrow> string" where
  "pad 0 n = []"
| "pad (Suc k) n = pad k (n div 10) @ [digit_char (nat (n mod 10))]"

definition ms_per_day :: int where "ms_per_day = 86400000"

definition show_year :: "int \<Rightarrow> string" where
  "show_year y = (if 0 \<le> y \<and> y \<le> 9999 then pad 4 y
     else if 0 \<le> y then CHR ''+'' # pad 6 y else CHR ''-'' # pad 6 (- y))"

definition toISOString :: "int \<Rightarrow> string" where
  "toISOString t =
     (let (y, m, d) = date_parts (t div ms_per_day); r = t mod ms_per_day
      in show_year y @ ''-'' @ pad 2 m @ ''-'' @ pad 2 d @ ''T'' @ pad 2 (r div 3600000) @ '':'' @
         pad 2 (r div 60000 mod 60) @ '':'' @ pad 2 (r div 1000 mod 60) @ ''.'' @ pad 3 (r mod 1000) @ ''Z'')"

text \<open>The clock text \<^verbatim>\<open>hh:mm AM\<close> of the American locale.\<close>

definition locale_time :: "int \<Rightarrow> string" where
  "locale_time t =
     (let r = t mod ms_per_day; h = r div 3600000; h12 = (if h mod 12 = 0 then 12 else h mod 12)
      in pad 2 h12 @ '':'' @ pad 2 (r div 60000 mod 60) @ (if h < 12 then '' AM'' else '' PM''))"

definition read_num :: "nat \<Rightarrow> string \<Rightarrow> (int \<times> string) option" where
  "read_num k s = (if k \<le> length s \<and> list_all (is_digit 10) (take k s)
     then Some (digits_val 10 (take k s), drop k s) else None)"

text \<open>An optional part: a separator and a number of \<open>k\<close> digits, else a default.\<close>

definition read_opt :: "char \<Rightarrow> nat \<Rightarrow> int \<Rightarrow> string \<Rightarrow> (int \<times> string) option" where
  "read_opt c k dflt s =
     (case s of x # r \<Rightarrow> if x = c then read_num k r else Some (dflt, s) | [] \<Rightarrow> Some (dflt, []))"

definition read_year :: "string \<Rightarrow> (int \<times> string) option" where
  "read_year s =
     (case s of
        x # r \<Rightarrow> if x = CHR ''+'' then read_num 6 r
                 else if x = CHR ''-'' then map_option (\<lambda>(y, q). (- y, q)) (read_num 6 r)
                 else read_num 4 s
      | [] \<Rightarrow> None)"

text \<open>The fraction of a second, in milliseconds.\<close>

definition read_fraction :: "string \<Rightarrow> (int \<times> string) option" where
  "read_fraction s =
     (case s of
        x # r \<Rightarrow>
          if x \<noteq> CHR ''.'' then Some (0, s)
          else (let ds = takeWhile (is_digit 10) r in
                if ds = [] then None
                else Some (digits_val 10 (take 3 (ds @ ''00'')), dropWhile (is_digit 10) r))
      | [] \<Rightarrow> Some (0, []))"

text \<open>The zone: none (local time, UTC here), \<^verbatim>\<open>Z\<close> or an offset; in milliseconds east.\<close>

definition read_zone :: "string \<Rightarrow> int option" where
  "read_zone s =
     (case s of
        [] \<Rightarrow> Some 0
      | x # r \<Rightarrow>
          if x = CHR ''Z'' then (if r = [] then Some 0 else None)
          else if x = CHR ''+'' \<or> x = CHR ''-'' then
            (case read_num 2 r of
               Some (h, c # q) \<Rightarrow>
                 (case (c = CHR '':'', read_num 2 q) of
                    (True, Some (m, [])) \<Rightarrow>
                      if h < 24 \<and> m < 60
                      then Some ((if x = CHR ''-'' then - 1 else 1) * (h * 60 + m) * 60000) else None
                  | _ \<Rightarrow> None)
             | _ \<Rightarrow> None)
          else None)"

definition read_time :: "string \<Rightarrow> int option" where
  "read_time s =
     (case s of
        [] \<Rightarrow> Some 0
      | x # s1 \<Rightarrow>
          if x \<noteq> CHR ''T'' then None else
          (case read_num 2 s1 of None \<Rightarrow> None | Some (h, s2) \<Rightarrow>
          (case s2 of [] \<Rightarrow> None | c # s3 \<Rightarrow> if c \<noteq> CHR '':'' then None else
          (case read_num 2 s3 of None \<Rightarrow> None | Some (mi, s4) \<Rightarrow>
          (case read_opt CHR '':'' 2 0 s4 of None \<Rightarrow> None | Some (sec, s5) \<Rightarrow>
          (case read_fraction s5 of None \<Rightarrow> None | Some (ms, s6) \<Rightarrow>
          (case read_zone s6 of None \<Rightarrow> None | Some z \<Rightarrow>
             let r = ((h * 60 + mi) * 60 + sec) * 1000 + ms in
             if mi < 60 \<and> sec < 60 \<and> (h < 24 \<or> r = ms_per_day) then Some (r - z) else None)))))))"

definition parse_iso :: "string \<Rightarrow> int option" where
  "parse_iso s =
     (case read_year s of None \<Rightarrow> None | Some (y, s1) \<Rightarrow>
     (case read_opt CHR ''-'' 2 1 s1 of None \<Rightarrow> None | Some (m, s2) \<Rightarrow>
     (case read_opt CHR ''-'' 2 1 s2 of None \<Rightarrow> None | Some (d, s3) \<Rightarrow>
     (case read_time s3 of None \<Rightarrow> None | Some r \<Rightarrow>
        if 1 \<le> m \<and> m \<le> 12 \<and> 1 \<le> d \<and> d \<le> 31 then Some (civil_days y m d * ms_per_day + r) else None))))"

definition date_of :: "(string \<Rightarrow> date) \<Rightarrow> string \<Rightarrow> date" where
  "date_of legacy s = (case parse_iso s of Some t \<Rightarrow> Num t | None \<Rightarrow> legacy s)"

section \<open>Reading back what was written\<close>

lemma length_pad [simp]: "length (pad k n) = k"
  by (induction k arbitrary: n) simp_all

lemma pad_digits: "list_all (is_digit 10) (pad k n)"
proof (induction k arbitrary: n)
  case (Suc k)
  have "nat (n mod 10) < 10" by simp
  then show ?case using Suc by (simp add: is_digit_digit_char)
qed simp

lemma digits_val_pad: "0 \<le> n \<Longrightarrow> n < 10 ^ k \<Longrightarrow> digits_val 10 (pad k n) = n"
proof (induction k arbitrary: n)
  case (Suc k)
  then have "digits_val 10 (pad k (n div 10)) = n div 10"
    by (intro Suc.IH) (auto simp: div_less_iff_less_mult algebra_simps)
  moreover have "digit_val (digit_char (nat (n mod 10))) = Some (nat (n mod 10))"
    by (rule digit_val_digit_char) simp
  ultimately show ?case by (simp add: digits_val_append)
qed (simp add: digits_val_def)

lemma read_num_pad: "0 \<le> n \<Longrightarrow> n < 10 ^ k \<Longrightarrow> read_num k (pad k n @ r) = Some (n, r)"
  by (simp add: read_num_def pad_digits digits_val_pad)

lemma read_opt_pad:
  "0 \<le> n \<Longrightarrow> n < 10 ^ k \<Longrightarrow> read_opt c k dflt (c # pad k n @ r) = Some (n, r)"
  by (simp add: read_opt_def read_num_pad)

lemma read_year_pad:
  assumes "0 \<le> y" and "y \<le> 9999"
  shows "read_year (pad 4 y @ r) = Some (y, r)"
proof -
  obtain c cs where p: "pad 4 y = c # cs" by (cases "pad 4 y") (auto dest: arg_cong [of _ _ length])
  have "is_digit 10 c" using pad_digits [of 4 y] by (simp add: p)
  then have "c \<noteq> CHR ''+''" "c \<noteq> CHR ''-''" using digit_no_sign by auto
  moreover have "read_num 4 (pad 4 y @ r) = Some (y, r)" using assms by (intro read_num_pad) simp_all
  ultimately show ?thesis by (simp add: read_year_def p)
qed

lemma read_fraction_pad:
  assumes "0 \<le> n" and "n < 1000"
  shows "read_fraction (CHR ''.'' # pad 3 n @ ''Z'') = Some (n, ''Z'')"
proof -
  have z: "\<not> is_digit 10 CHR ''Z''" by (simp add: is_digit_def digit_val_def)
  have "takeWhile (is_digit 10) (pad 3 n @ ''Z'') = pad 3 n"
    "dropWhile (is_digit 10) (pad 3 n @ ''Z'') = ''Z''"
    using pad_digits [of 3 n] z by (simp_all add: list_all_iff takeWhile_append dropWhile_append)
  moreover have "pad 3 n \<noteq> []" by (metis length_pad list.size(3) zero_neq_numeral)
  ultimately show ?thesis using assms by (simp add: read_fraction_def digits_val_pad Let_def)
qed

lemma read_time_parts:
  assumes "0 \<le> h" "h < 24" "0 \<le> mi" "mi < 60" "0 \<le> sec" "sec < 60" "0 \<le> ms" "ms < 1000"
  shows "read_time (CHR ''T'' # pad 2 h @ CHR '':'' # pad 2 mi @ CHR '':'' # pad 2 sec @ CHR ''.'' # pad 3 ms @ ''Z'')
    = Some (((h * 60 + mi) * 60 + sec) * 1000 + ms)"
  using assms by (simp add: read_time_def read_num_pad read_opt_pad read_fraction_pad read_zone_def)

text \<open>\<^verbatim>\<open>new Date(t.toISOString())\<close> is \<open>t\<close>, from the year 1 to the year 9999.\<close>

lemma parse_toISOString:
  assumes "- 62135596800000 \<le> t" and "t < 253402300800000"
  shows "parse_iso (toISOString t) = Some t"
proof -
  define r where "r = t mod ms_per_day"
  obtain y m d where p: "date_parts (t div ms_per_day) = (y, m, d)" by (cases "date_parts (t div ms_per_day)") auto
  note c = date_parts_civil [OF p]
  have y: "0 \<le> y" "y \<le> 9999"
  proof -
    define z where "z = t div ms_per_day + epoch_day"
    have z: "0 \<le> z" "z < 3652059" using assms by (simp_all add: z_def ms_per_day_def epoch_day_def)
    have yz: "y = year_of z" using p by (auto simp: date_parts_def z_def Let_def)
    have b: "146097 * (y - 1) - 699 \<le> 400 * z" "400 * z < 146097 * y + 396"
      using year_of_bounds [of z] days_before_year_bounds(1) [of "y - 1"] days_before_year_bounds(2) [of y]
      by (simp_all add: yz)
    show "0 \<le> y" using b(2) z(1) by simp
    show "y \<le> 9999" 
    proof -
      from z(2) have "z \<le> 3652058" by simp
      with b(1) have "146097 * (y - 1) \<le> 1460823899" by simp
      then show ?thesis by simp
    qed
  qed
  have r: "0 \<le> r" "r < 86400000" by (simp_all add: r_def ms_per_day_def)
  have b: "0 \<le> r div 3600000" "r div 3600000 < 24" "0 \<le> r div 60000 mod 60" "r div 60000 mod 60 < 60"
    "0 \<le> r div 1000 mod 60" "r div 1000 mod 60 < 60" "0 \<le> r mod 1000" "r mod 1000 < 1000"
    using r by simp_all
  have sum: "((r div 3600000 * 60 + r div 60000 mod 60) * 60 + r div 1000 mod 60) * 1000 + r mod 1000 = r"
  proof -
    have "r div 60000 = r div 1000 div 60" "r div 3600000 = r div 1000 div 60 div 60"
      by (simp_all add: zdiv_zmult2_eq [symmetric])
    then show ?thesis by (simp only: div_mult_mod_eq)
  qed
  have time: "read_time (CHR ''T'' # pad 2 (r div 3600000) @ CHR '':'' # pad 2 (r div 60000 mod 60) @
      CHR '':'' # pad 2 (r div 1000 mod 60) @ CHR ''.'' # pad 3 (r mod 1000) @ ''Z'') = Some r"
    using read_time_parts [of "r div 3600000" "r div 60000 mod 60" "r div 1000 mod 60" "r mod 1000"] b
    by (simp only: sum)
  have "civil_days y m d * ms_per_day + r = t"
    by (simp add: c(1) r_def)
  then show ?thesis
    using y c(2-5) time by (simp add: toISOString_def parse_iso_def p r_def [symmetric] show_year_def
        read_year_pad read_opt_pad Let_def)
qed

lemma date_of_toISOString:
  "- 62135596800000 \<le> t \<Longrightarrow> t < 253402300800000 \<Longrightarrow> date_of legacy (toISOString t) = Num t"
  by (simp add: date_of_def parse_toISOString)

end
