(* ===== verification/Errors.thy ===== *)
theory Errors
  imports JsonText Dates
begin

text \<open>
  Errors and the end of the process: the exception filter of src/src/common/filters, which turns whatever a handler throws
  into a response and a log entry, the logging interceptor of src/src/common/interceptors, and the handlers of
  src/src/common/services/unhandled-exception.service.ts. The environment \<^verbatim>\<open>NODE_ENV\<close> is the argument \<open>production\<close>.
\<close>

section \<open>The exception filter\<close>

text \<open>
  What can be thrown: an HTTP exception with its response, an object or a text; another error with its name,
  message and stack; anything else, by its text.
\<close>

datatype response_body =
    ResponseObject "json option" "string option" "json option"
  | ResponseText string

datatype thrown =
    ThrownHttp nat response_body string
  | ThrownError string string string
  | ThrownOther string

record http_request =
  hr_method :: string
  hr_url :: string
  hr_headers :: "(string \<times> string) list"
  hr_remoteAddress :: "string option"
  hr_query :: json
  hr_body :: "json option"
  hr_user_sub :: "string option"

record error_response =
  rp_statusCode :: nat
  rp_timestamp :: string
  rp_path :: string
  rp_method :: string
  rp_error :: string
  rp_message :: json
  rp_details :: "json option"
  rp_requestId :: "string option"

datatype log_level = LogError | LogWarn

record log_entry =
  lo_level :: log_level
  lo_text :: string
  lo_cause :: string
  lo_ip :: "string option"
  lo_userAgent :: string
  lo_query :: json
  lo_body :: "json option"
  lo_userId :: string

definition getErrorName :: "nat \<Rightarrow> string" where
  "getErrorName status =
     (if status = 400 then ''Bad Request'' else if status = 401 then ''Unauthorized''
      else if status = 403 then ''Forbidden'' else if status = 404 then ''Not Found''
      else if status = 409 then ''Conflict'' else if status = 422 then ''Unprocessable Entity''
      else if status = 429 then ''Too Many Requests'' else if status = 500 then ''Internal Server Error''
      else if status = 502 then ''Bad Gateway'' else if status = 503 then ''Service Unavailable''
      else ''Error'')"

text \<open>The idiom \<^verbatim>\<open>x || d\<close> on an optional value.\<close>

definition or_else :: "json option \<Rightarrow> json \<Rightarrow> json" where
  "or_else x d = (case x of None \<Rightarrow> d | Some v \<Rightarrow> if truthy v then v else d)"

definition text_or :: "string option \<Rightarrow> string \<Rightarrow> string" where
  "text_or x d = (case x of None \<Rightarrow> d | Some s \<Rightarrow> if s = [] then d else s)"

definition if_truthy :: "json option \<Rightarrow> json option" where
  "if_truthy x = (case x of None \<Rightarrow> None | Some v \<Rightarrow> if truthy v then Some v else None)"

text \<open>Status, message, error name and details of a thrown value.\<close>

definition describe :: "bool \<Rightarrow> thrown \<Rightarrow> nat \<times> json \<times> string \<times> json option" where
  "describe production x =
     (case x of
        ThrownHttp status (ResponseObject message error details) exn_msg \<Rightarrow>
          (status, or_else message (JStr exn_msg), text_or error ''Bad Request'', if_truthy details)
      | ThrownHttp status (ResponseText _) exn_msg \<Rightarrow> (status, JStr exn_msg, getErrorName status, None)
      | ThrownError name message stack \<Rightarrow>
          (500, JStr (if production then ''Internal server error'' else message), ''Internal Server Error'',
           if production then None else Some (JObj [(''stack'', JStr stack), (''name'', JStr name)]))
      | ThrownOther _ \<Rightarrow> (500, JStr ''An unexpected error occurred'', ''Internal Server Error'', None))"

definition sensitiveFields :: "string list" where
  "sensitiveFields = [''password'', ''token'', ''apiKey'', ''secret'', ''authorization'']"

definition redact :: "string \<times> json \<Rightarrow> string \<times> json" where
  "redact kv = (if fst kv \<in> set sensitiveFields \<and> truthy (snd kv) then (fst kv, JStr ''[REDACTED]'') else kv)"

definition sanitizeBody :: "json option \<Rightarrow> json option" where
  "sanitizeBody body =
     (case body of
        None \<Rightarrow> None
      | Some b \<Rightarrow> if \<not> truthy b then Some b else Some (JObj (map redact (spread b))))"

fun thrown_stack :: "thrown \<Rightarrow> string" where
  "thrown_stack (ThrownHttp status body m) = m"
| "thrown_stack (ThrownError name message stack) = stack"
| "thrown_stack (ThrownOther s) = s"

fun thrown_message :: "thrown \<Rightarrow> string" where
  "thrown_message (ThrownHttp status body m) = m"
| "thrown_message (ThrownError name message stack) = message"
| "thrown_message (ThrownOther s) = s"

text \<open>The log entry, if the status is an error; the stack of an HTTP exception is given by its message.\<close>

definition logError :: "thrown \<Rightarrow> http_request \<Rightarrow> nat \<Rightarrow> log_entry option" where
  "logError x rq status =
     (let entry = \<lambda>level cause. \<lparr>lo_level = level,
            lo_text = hr_method rq @ '' '' @ hr_url rq @ '' - '' @ show_nat status, lo_cause = cause,
            lo_ip = (case map_of (hr_headers rq) ''x-forwarded-for'' of
               None \<Rightarrow> hr_remoteAddress rq | Some h \<Rightarrow> if h = [] then hr_remoteAddress rq else Some h),
            lo_userAgent = text_or (map_of (hr_headers rq) ''user-agent'') [],
            lo_query = hr_query rq, lo_body = sanitizeBody (hr_body rq),
            lo_userId = text_or (hr_user_sub rq) ''anonymous''\<rparr>
      in if 500 \<le> status then Some (entry LogError (thrown_stack x))
         else if 400 \<le> status then Some (entry LogWarn (thrown_message x))
         else None)"

definition catch_exception :: "bool \<Rightarrow> int \<Rightarrow> thrown \<Rightarrow> http_request \<Rightarrow> error_response \<times> log_entry option" where
  "catch_exception production now x rq =
     (case describe production x of
        (status, message, error, details) \<Rightarrow>
          (\<lparr>rp_statusCode = status, rp_timestamp = toISOString now, rp_path = hr_url rq, rp_method = hr_method rq,
            rp_error = error, rp_message = message, rp_details = details,
            rp_requestId = (if production then None
              else Some (text_or (map_of (hr_headers rq) ''x-request-id'') ''unknown''))\<rparr>,
           logError x rq status))"

text \<open>The exceptions of the services, as Nest builds them from a message.\<close>

fun kind_name :: "http_kind \<Rightarrow> string" where
  "kind_name BadRequest = ''Bad Request''"
| "kind_name Unauthorized = ''Unauthorized''"
| "kind_name NotFound = ''Not Found''"
| "kind_name Conflict = ''Conflict''"
| "kind_name InternalServerError = ''Internal Server Error''"

fun thrown_of :: "exn \<Rightarrow> thrown" where
  "thrown_of (HttpException k m) =
     ThrownHttp (http_status k) (ResponseObject (Some (JStr m)) (Some (kind_name k)) None) m"
| "thrown_of (RpcException m) = ThrownError ''RpcException'' m m"
| "thrown_of (JsError m) = ThrownError ''Error'' m m"

section \<open>The logging interceptor\<close>

text \<open>The outcome of the handler passes through; one line is logged, with the time it took.\<close>

definition log_outcome :: "http_request \<Rightarrow> int \<Rightarrow> int \<Rightarrow> 'a result \<Rightarrow> 'a result \<times> string" where
  "log_outcome rq startTime now r =
     (r, hr_method rq @ '' '' @ hr_url rq
       @ (if isl r then '' - Error ('' else '' - Success ('') @ show_int (now - startTime) @ ''ms)'')"

section \<open>The end of the process\<close>

datatype process_event =
    UnhandledRejection string
  | UncaughtException string
  | SIGTERM
  | SIGINT

text \<open>The timers that will force an exit, the shutdowns whose cleanup is awaited, the exit code.\<close>

record process =
  pr_timers :: "int list"
  pr_pending :: nat
  pr_exit :: "int option"

definition running :: process where
  "running = \<lparr>pr_timers = [], pr_pending = 0, pr_exit = None\<rparr>"

definition process_exit :: "int \<Rightarrow> process \<Rightarrow> process" where
  "process_exit code p = (if pr_exit p = None then p\<lparr>pr_exit := Some code\<rparr> else p)"

text \<open>\<^verbatim>\<open>gracefulShutdown\<close> up to its \<^verbatim>\<open>await\<close>; the cleanup only logs.\<close>

definition gracefulShutdown :: "int \<Rightarrow> process \<Rightarrow> process" where
  "gracefulShutdown now p = p\<lparr>pr_timers := pr_timers p @ [now + 10000], pr_pending := Suc (pr_pending p)\<rparr>"

definition shuts_down :: "bool \<Rightarrow> process_event \<Rightarrow> bool" where
  "shuts_down production ev = (case ev of UnhandledRejection _ \<Rightarrow> production | _ \<Rightarrow> True)"

text \<open>
  A turn of the event loop: the handler, then the continuations of the awaited cleanups, then the timers that are due.
\<close>

definition on_process_event :: "bool \<Rightarrow> int \<Rightarrow> process_event \<Rightarrow> process \<Rightarrow> process" where
  "on_process_event production now ev p =
     (if pr_exit p \<noteq> None then p else if shuts_down production ev then gracefulShutdown now p else p)"

fun drain :: "nat \<Rightarrow> process \<Rightarrow> process" where
  "drain 0 p = p"
| "drain (Suc n) p = drain n (process_exit 0 (p\<lparr>pr_pending := n\<rparr>))"

definition fire_timers :: "int \<Rightarrow> process \<Rightarrow> process" where
  "fire_timers now p = (if \<exists>t \<in> set (pr_timers p). t \<le> now then process_exit 1 p else p)"

definition turn :: "bool \<Rightarrow> int \<times> process_event \<Rightarrow> process \<Rightarrow> process" where
  "turn production x p =
     (let p1 = on_process_event production (fst x) (snd x) p in fire_timers (fst x) (drain (pr_pending p1) p1))"

end
