(* ===== verification/Batchers.thy ===== *)
theory Batchers
  imports Prelude
begin

text \<open>
  The two stream batchers: src/src/events/stream-event-batcher.service.ts (one buffer, flushed at
  10000 events) and src/src/websocket/stream-websocket-batcher.service.ts (one buffer per owner, all
  flushed when one reaches 5000), each also flushed by a timer every 500 milliseconds. Both
  satisfy the contract \<open>batcher\<close>: nothing is lost or reordered, buffers and jobs stay bounded, and a
  timer tick leaves nothing pending. A flush hands its job to the BullMQ queue in the same
  synchronous step that empties the buffer.
\<close>

section \<open>The contract\<close>

text \<open>
  Operations run on a state and bring events in; what is pending and the jobs sent are observed.
\<close>

locale batcher =
  fixes run :: "'op \<Rightarrow> 's \<Rightarrow> 's" and input :: "'op \<Rightarrow> 'e list" and tick :: 'op
    and pending :: "'s \<Rightarrow> 'e list" and sent :: "'s \<Rightarrow> 'e list list" and limit :: nat
  assumes conserve: "concat (sent (run x s)) @ pending (run x s) = concat (sent s) @ pending s @ input x"
    and bounded: "length (pending s) < limit \<Longrightarrow> length (pending (run x s)) < limit"
    and new_jobs: "length (pending s) < limit \<Longrightarrow>
      \<exists>js. sent (run x s) = sent s @ js \<and> (\<forall>j \<in> set js. j \<noteq> [] \<and> length j \<le> limit)"
    and tick_flushes: "pending (run tick s) = []"
begin

lemma run_conserve:
  "concat (sent (fold run xs s)) @ pending (fold run xs s) = concat (sent s) @ pending s @ concat (map input xs)"
proof (induction xs arbitrary: s)
  case (Cons x xs)
  have "concat (sent (fold run xs (run x s))) @ pending (fold run xs (run x s))
      = (concat (sent (run x s)) @ pending (run x s)) @ concat (map input xs)"
    by (simp add: Cons.IH)
  then show ?case by (simp add: conserve)
qed simp

lemma run_bounded: "length (pending s) < limit \<Longrightarrow> length (pending (fold run xs s)) < limit"
  by (rule fold_invariant_list [of "\<lambda>s. length (pending s) < limit"]) (auto intro: bounded)

lemma run_jobs:
  assumes "length (pending s) < limit" and "\<forall>j \<in> set (sent s). j \<noteq> [] \<and> length j \<le> limit"
  shows "\<forall>j \<in> set (sent (fold run xs s)). j \<noteq> [] \<and> length j \<le> limit"
proof -
  let ?I = "\<lambda>s. length (pending s) < limit \<and> (\<forall>j \<in> set (sent s). j \<noteq> [] \<and> length j \<le> limit)"
  have "?I (fold run xs s)"
  proof (rule fold_invariant_list [of ?I])
    show "?I s" using assms by simp
    show "?I (run x s)" if "?I s" for x s
      using new_jobs [of s x] bounded [of s x] that by auto
  qed
  then show ?thesis by simp
qed

lemma tick_sends_all: "concat (sent (run tick (fold run xs s))) = concat (sent s) @ pending s @ concat (map input xs) @ input tick"
  using conserve [of tick "fold run xs s"] run_conserve [of xs s] tick_flushes by simp

end

section \<open>StreamEventBatcher\<close>

record 'e event_batcher =
  eb_buffer :: "('e \<times> int) list"
  eb_jobs :: "('e \<times> int) list list"

definition eb_batch :: nat where "eb_batch = 10000"

definition eb_init :: "'e event_batcher" where
  "eb_init = \<lparr>eb_buffer = [], eb_jobs = []\<rparr>"

definition flushBatch :: "'e event_batcher \<Rightarrow> 'e event_batcher" where
  "flushBatch st =
     (if length (eb_buffer st) = 0 then st
      else (let batchs = eb_buffer st in st\<lparr>eb_buffer := [], eb_jobs := eb_jobs st @ [batchs]\<rparr>))"

definition addStreamEvent :: "int \<Rightarrow> 'e \<Rightarrow> 'e event_batcher \<Rightarrow> 'e event_batcher" where
  "addStreamEvent now event st =
     (let st1 = st\<lparr>eb_buffer := eb_buffer st @ [(event, now)]\<rparr>
      in if eb_batch \<le> length (eb_buffer st1) then flushBatch st1 else st1)"

datatype 'e batch_op = Receive int 'e | Tick

fun eb_run :: "'e batch_op \<Rightarrow> 'e event_batcher \<Rightarrow> 'e event_batcher" where
  "eb_run (Receive now e) st = addStreamEvent now e st"
| "eb_run Tick st = flushBatch st"

fun eb_input :: "'e batch_op \<Rightarrow> ('e \<times> int) list" where
  "eb_input (Receive now e) = [(e, now)]"
| "eb_input Tick = []"

lemma flushBatch_sel:
  "eb_buffer (flushBatch st) = []"
  "eb_jobs (flushBatch st) = eb_jobs st @ (if eb_buffer st = [] then [] else [eb_buffer st])"
  by (simp_all add: flushBatch_def Let_def)

lemma addStreamEvent_sel:
  "eb_buffer (addStreamEvent now e st)
     = (if eb_batch \<le> Suc (length (eb_buffer st)) then [] else eb_buffer st @ [(e, now)])"
  "eb_jobs (addStreamEvent now e st)
     = eb_jobs st @ (if eb_batch \<le> Suc (length (eb_buffer st)) then [eb_buffer st @ [(e, now)]] else [])"
  by (simp_all add: addStreamEvent_def flushBatch_sel Let_def)

interpretation evb: batcher eb_run eb_input Tick eb_buffer eb_jobs eb_batch
proof
  fix x :: "'e batch_op" and s
  show "concat (eb_jobs (eb_run x s)) @ eb_buffer (eb_run x s) = concat (eb_jobs s) @ eb_buffer s @ eb_input x"
    by (cases x) (simp_all add: flushBatch_sel addStreamEvent_sel)
  show "length (eb_buffer s) < eb_batch \<Longrightarrow> length (eb_buffer (eb_run x s)) < eb_batch"
    by (cases x) (auto simp: flushBatch_sel addStreamEvent_sel eb_batch_def)
  show "length (eb_buffer s) < eb_batch \<Longrightarrow>
      \<exists>js. eb_jobs (eb_run x s) = eb_jobs s @ js \<and> (\<forall>j \<in> set js. j \<noteq> [] \<and> length j \<le> eb_batch)"
    by (cases x) (auto simp: flushBatch_sel addStreamEvent_sel)
  show "eb_buffer (eb_run Tick s) = []" by (simp add: flushBatch_sel)
qed

section \<open>StreamWebSocketBatcher\<close>

text \<open>A JavaScript \<^verbatim>\<open>Map\<close> keeps its keys in the order of their insertion.\<close>

record 'e ws_batcher =
  wb_bufferMap :: "(string \<times> 'e list) list"
  wb_jobs :: "(string \<times> 'e list) list"

definition wb_batchSize :: nat where "wb_batchSize = 5000"

definition wb_init :: "'e ws_batcher" where
  "wb_init = \<lparr>wb_bufferMap = [], wb_jobs = []\<rparr>"

fun map_set :: "string \<Rightarrow> 'v \<Rightarrow> (string \<times> 'v) list \<Rightarrow> (string \<times> 'v) list" where
  "map_set k v [] = [(k, v)]"
| "map_set k v ((k', v') # m) = (if k = k' then (k, v) # m else (k', v') # map_set k v m)"

definition flushUserBatch :: "string \<Rightarrow> 'e ws_batcher \<Rightarrow> 'e ws_batcher" where
  "flushUserBatch ownerId st =
     (case map_of (wb_bufferMap st) ownerId of
        None \<Rightarrow> st
      | Some events \<Rightarrow>
          if length events = 0 then st
          else st\<lparr>wb_bufferMap := map_set ownerId [] (wb_bufferMap st), wb_jobs := wb_jobs st @ [(ownerId, events)]\<rparr>)"

definition flushAllBatches :: "'e ws_batcher \<Rightarrow> 'e ws_batcher" where
  "flushAllBatches st = fold flushUserBatch (map fst (wb_bufferMap st)) st"

definition addEvent :: "string \<Rightarrow> 'e \<Rightarrow> 'e ws_batcher \<Rightarrow> 'e ws_batcher" where
  "addEvent ownerId event st =
     (let m = (if map_of (wb_bufferMap st) ownerId = None then map_set ownerId [] (wb_bufferMap st) else wb_bufferMap st);
          userBuffer = the (map_of m ownerId) @ [event];
          st1 = st\<lparr>wb_bufferMap := map_set ownerId userBuffer m\<rparr>
      in if wb_batchSize \<le> length userBuffer then flushAllBatches st1 else st1)"

datatype 'e ws_op = WsReceive string 'e | WsTick

fun wb_run :: "'e ws_op \<Rightarrow> 'e ws_batcher \<Rightarrow> 'e ws_batcher" where
  "wb_run (WsReceive ow e) st = addEvent ow e st"
| "wb_run WsTick st = flushAllBatches st"

text \<open>What is pending for one owner, the jobs of one owner, the events that come in for one owner.\<close>

definition wb_pending :: "string \<Rightarrow> 'e ws_batcher \<Rightarrow> 'e list" where
  "wb_pending ow st = (case map_of (wb_bufferMap st) ow of None \<Rightarrow> [] | Some es \<Rightarrow> es)"

definition wb_sent :: "string \<Rightarrow> 'e ws_batcher \<Rightarrow> 'e list list" where
  "wb_sent ow st = map snd (filter (\<lambda>j. fst j = ow) (wb_jobs st))"

fun wb_input :: "string \<Rightarrow> 'e ws_op \<Rightarrow> 'e list" where
  "wb_input ow (WsReceive o' e) = (if o' = ow then [e] else [])"
| "wb_input ow WsTick = []"

lemma map_of_map_set [simp]: "map_of (map_set k v m) = (map_of m)(k \<mapsto> v)"
  by (induction m) auto

lemma flushUserBatch_sel:
  "wb_pending ow (flushUserBatch k st) = (if k = ow then [] else wb_pending ow st)"
  "wb_sent ow (flushUserBatch k st)
     = wb_sent ow st @ (if k = ow \<and> wb_pending ow st \<noteq> [] then [wb_pending ow st] else [])"
  by (auto simp: flushUserBatch_def wb_pending_def wb_sent_def split: option.splits)

lemma flushUsers_sel:
  "wb_pending ow (fold flushUserBatch ks st) = (if ow \<in> set ks then [] else wb_pending ow st) \<and>
   wb_sent ow (fold flushUserBatch ks st)
     = wb_sent ow st @ (if ow \<in> set ks \<and> wb_pending ow st \<noteq> [] then [wb_pending ow st] else [])"
  by (induction ks arbitrary: st) (auto simp: flushUserBatch_sel)

lemma flushAll_sel:
  "wb_pending ow (flushAllBatches st) = []"
  "wb_sent ow (flushAllBatches st) = wb_sent ow st @ (if wb_pending ow st = [] then [] else [wb_pending ow st])"
proof -
  have "ow \<notin> set (map fst (wb_bufferMap st)) \<Longrightarrow> wb_pending ow st = []"
    by (force simp: wb_pending_def split: option.split dest: map_of_SomeD)
  then show "wb_pending ow (flushAllBatches st) = []"
    and "wb_sent ow (flushAllBatches st) = wb_sent ow st @ (if wb_pending ow st = [] then [] else [wb_pending ow st])"
    using flushUsers_sel [of ow "map fst (wb_bufferMap st)" st] by (auto simp: flushAllBatches_def)
qed

lemma addEvent_sel:
  "wb_pending ow (addEvent k e st) =
     (if wb_batchSize \<le> Suc (length (wb_pending k st)) then [] else wb_pending ow st @ (if k = ow then [e] else []))"
  "wb_sent ow (addEvent k e st) = wb_sent ow st @
     (if wb_batchSize \<le> Suc (length (wb_pending k st)) \<and> wb_pending ow st @ (if k = ow then [e] else []) \<noteq> []
      then [wb_pending ow st @ (if k = ow then [e] else [])] else [])"
proof -
  define st1 where "st1 = st\<lparr>wb_bufferMap := map_set k (wb_pending k st @ [e])
      (if map_of (wb_bufferMap st) k = None then map_set k [] (wb_bufferMap st) else wb_bufferMap st)\<rparr>"
  have a: "addEvent k e st = (if wb_batchSize \<le> Suc (length (wb_pending k st)) then flushAllBatches st1 else st1)"
    by (auto simp: addEvent_def st1_def wb_pending_def Let_def split: option.splits)
  have p: "wb_pending ow st1 = wb_pending ow st @ (if k = ow then [e] else [])" "wb_sent ow st1 = wb_sent ow st"
    by (auto simp: st1_def wb_pending_def wb_sent_def)
  show "wb_pending ow (addEvent k e st) =
     (if wb_batchSize \<le> Suc (length (wb_pending k st)) then [] else wb_pending ow st @ (if k = ow then [e] else []))"
    and "wb_sent ow (addEvent k e st) = wb_sent ow st @
     (if wb_batchSize \<le> Suc (length (wb_pending k st)) \<and> wb_pending ow st @ (if k = ow then [e] else []) \<noteq> []
      then [wb_pending ow st @ (if k = ow then [e] else [])] else [])"
    by (simp_all add: a flushAll_sel p)
qed

interpretation wsb: batcher wb_run "wb_input ow" WsTick "wb_pending ow" "wb_sent ow" wb_batchSize for ow
proof
  fix x :: "'e ws_op" and s
  show "concat (wb_sent ow (wb_run x s)) @ wb_pending ow (wb_run x s)
      = concat (wb_sent ow s) @ wb_pending ow s @ wb_input ow x"
    by (cases x) (auto simp: flushAll_sel addEvent_sel)
  show "length (wb_pending ow s) < wb_batchSize \<Longrightarrow> length (wb_pending ow (wb_run x s)) < wb_batchSize"
    by (cases x) (auto simp: flushAll_sel addEvent_sel wb_batchSize_def)
  show "length (wb_pending ow s) < wb_batchSize \<Longrightarrow>
      \<exists>js. wb_sent ow (wb_run x s) = wb_sent ow s @ js \<and> (\<forall>j \<in> set js. j \<noteq> [] \<and> length j \<le> wb_batchSize)"
    by (cases x) (auto simp: flushAll_sel addEvent_sel)
  show "wb_pending ow (wb_run WsTick s) = []" by (simp add: flushAll_sel)
qed

section \<open>Properties\<close>

text \<open>
  The event batcher loses nothing. From its initial state, after any sequence of received events
  and timer ticks, the jobs handed to the queue followed by the buffer are exactly the received events
  in their order; the buffer holds less than 10000, no job is empty or longer than 10000, and one
  more tick leaves every event in a job.
\<close>

theorem event_batcher_conserves:
  fixes ops :: "'e batch_op list"
  defines "st \<equiv> fold eb_run ops eb_init" and "received \<equiv> concat (map eb_input ops)"
  shows "concat (eb_jobs st) @ eb_buffer st = received
    \<and> length (eb_buffer st) < 10000 \<and> (\<forall>j \<in> set (eb_jobs st). j \<noteq> [] \<and> length j \<le> 10000)
    \<and> concat (eb_jobs (eb_run Tick st)) = received"
  using evb.run_conserve [of ops eb_init] evb.run_bounded [of eb_init ops] evb.run_jobs [of eb_init ops]
    evb.tick_sends_all [of ops eb_init]
  by (simp add: st_def received_def eb_init_def eb_batch_def)

theorem event_batcher_conserves_witness:
  "concat (eb_jobs (fold eb_run [Receive 1 ''a'', Tick, Receive 2 ''b''] eb_init))
     @ eb_buffer (fold eb_run [Receive 1 ''a'', Tick, Receive 2 ''b''] eb_init) = [(''a'', 1), (''b'', 2)]"
  using event_batcher_conserves [of "[Receive 1 ''a'', Tick, Receive 2 ''b'']"] by simp

text \<open>
  The websocket batcher loses nothing and mixes no owners. From its initial state, after any sequence of
  received events and timer ticks, for each owner the jobs of that owner followed by its buffer are
  exactly the events received for it, in order; its buffer holds less than 5000, its jobs are
  never empty nor longer than 5000, and one more tick leaves all of them in jobs.
\<close>

theorem ws_batcher_conserves:
  fixes ops :: "'e ws_op list" and ow :: string
  defines "st \<equiv> fold wb_run ops wb_init" and "received \<equiv> concat (map (wb_input ow) ops)"
  shows "concat (wb_sent ow st) @ wb_pending ow st = received
    \<and> length (wb_pending ow st) < 5000 \<and> (\<forall>j \<in> set (wb_sent ow st). j \<noteq> [] \<and> length j \<le> 5000)
    \<and> concat (wb_sent ow (wb_run WsTick st)) = received"
proof -
  have i: "wb_pending ow wb_init = ([] :: 'e list)" "wb_sent ow wb_init = ([] :: 'e list list)"
    by (simp_all add: wb_pending_def wb_sent_def wb_init_def)
  show ?thesis
    using wsb.run_conserve [of ow ops wb_init] wsb.run_bounded [of ow wb_init ops]
      wsb.run_jobs [of ow wb_init ops] wsb.tick_sends_all [of ow ops wb_init]
    by (simp add: st_def received_def i wb_batchSize_def)
qed

theorem ws_batcher_conserves_witness:
  "concat (wb_sent ''u'' (fold wb_run [WsReceive ''u'' True, WsReceive ''v'' False, WsReceive ''u'' False] wb_init))
     @ wb_pending ''u'' (fold wb_run [WsReceive ''u'' True, WsReceive ''v'' False, WsReceive ''u'' False] wb_init)
   = [True, False]"
  using ws_batcher_conserves [of "''u''" "[WsReceive ''u'' True, WsReceive ''v'' False, WsReceive ''u'' False]"]
  by simp

end
