(* ===== verification/Metrics.thy ===== *)
theory Metrics
  imports Redis Json Dates
begin

text \<open>
  The write side of src/src/metrics/metrics-aggregation.service.ts: \<^verbatim>\<open>processEvent\<close> counts an event in
  Redis under the keys of its minute, hour and day, and puts it into the live buffer. The seven
  updates run concurrently but on keys of their own, each with its commands in order, so
  they are modelled one after the other. A rejected update is swallowed by the surrounding
  \<^verbatim>\<open>try\<close>; an error outside it fails the job.
\<close>

section \<open>Events and state\<close>

record event_request =
  er_eventName :: string
  er_payload :: string
  er_timestamp :: string
  er_tags :: "string list"
  er_category :: "string option"
  er_severity :: "string option"

record live_event =
  le_id :: string
  le_eventName :: string
  le_userId :: json
  le_country :: json
  le_device :: json
  le_timestamp :: int
  le_timeAgo :: string

text \<open>
  What the service uses from outside: Redis, the engine's parser for dates that are not in the ISO
  format, and the engine's text of a number.
\<close>

record 's metrics_env =
  me_redis :: "'s redis"
  me_legacy :: "string \<Rightarrow> date"
  me_show_number :: "rat \<Rightarrow> string"

record 's metrics_state =
  ms_redis :: 's
  ms_live :: "live_event list"
  ms_lastActivity :: int

section \<open>Keys\<close>

definition getTimeKey :: "int \<Rightarrow> string" where
  "getTimeKey t = show_int (t div (1000 * 60))"

definition getHourKey :: "int \<Rightarrow> string" where
  "getHourKey t = show_int (t div (1000 * 60 * 60))"

definition getDayKey :: "int \<Rightarrow> string" where
  "getDayKey t = show_int (t div (1000 * 60 * 60 * 24))"

text \<open>The key \<^verbatim>\<open>metrics:family:timeKey\<close>.\<close>

definition metric_key :: "string \<Rightarrow> string \<Rightarrow> string" where
  "metric_key family timeKey = ''metrics:'' @ family @ '':'' @ timeKey"

definition active_window :: int where "active_window = 5"
definition inactive_threshold :: int where "inactive_threshold = 2"
definition window_ttl :: int where "window_ttl = (active_window + 2) * 60"

section \<open>Command arguments\<close>

text \<open>
  \<^verbatim>\<open>ioredis\<close> flattens an array argument by one level and turns the rest into text.
\<close>

fun join_commas :: "string list \<Rightarrow> string" where
  "join_commas [] = []"
| "join_commas [x] = x"
| "join_commas (x # y # zs) = x @ '','' @ join_commas (y # zs)"

fun js_text :: "(rat \<Rightarrow> string) \<Rightarrow> json \<Rightarrow> string" where
  "js_text sn JNull = []"
| "js_text sn (JBool b) = (if b then ''true'' else ''false'')"
| "js_text sn (JNum q) = sn q"
| "js_text sn (JStr s) = s"
| "js_text sn (JArr xs) = join_commas (map (js_text sn) xs)"
| "js_text sn (JObj kvs) = ''[object Object]''"

fun redis_args :: "(rat \<Rightarrow> string) \<Rightarrow> json \<Rightarrow> string list" where
  "redis_args sn (JArr xs) = map (js_text sn) xs"
| "redis_args sn v = [js_text sn v]"

text \<open>
  A counting command with its expiry; the wrong number of arguments is an error reply,
  which rejects the update before the expiry.
\<close>

definition count_value :: "'s redis \<Rightarrow> int \<Rightarrow> string \<Rightarrow> string list \<Rightarrow> int \<Rightarrow> 's \<Rightarrow> 's" where
  "count_value R now key args ttl s =
     (case args of
        [field] \<Rightarrow> rd_expire R now key ttl (snd (rd_hincrby R now key field 1 s))
      | _ \<Rightarrow> s)"

section \<open>The updates\<close>

definition updateLastActivityTime :: "'s redis \<Rightarrow> int \<Rightarrow> 's \<Rightarrow> 's" where
  "updateLastActivityTime R now s = rd_setex R now ''metrics:last_activity'' 3600 (toISOString now) s"

definition updateVolumeMetrics :: "'s redis \<Rightarrow> int \<Rightarrow> string \<Rightarrow> string \<Rightarrow> string \<Rightarrow> event_request \<Rightarrow> 's \<Rightarrow> 's" where
  "updateVolumeMetrics R now timeKey hourKey dayKey event s =
     (let vk = metric_key ''volume'' timeKey;
          hk = metric_key ''volume:hour'' hourKey;
          dk = metric_key ''volume:day'' dayKey;
          s1 = snd (rd_hincrby R now vk ''total_events'' 1 s);
          s2 = snd (rd_hincrby R now vk (er_eventName event) 1 s1);
          s3 = rd_expire R now vk window_ttl s2;
          s4 = snd (rd_hincrby R now hk ''total_events'' 1 s3);
          s5 = snd (rd_hincrby R now hk (er_eventName event) 1 s4);
          s6 = rd_expire R now hk 3600 s5;
          s7 = snd (rd_hincrby R now dk ''total_events'' 1 s6)
      in rd_expire R now dk 86400 s7)"

definition conversion_events :: "string list" where
  "conversion_events = [''purchase'', ''signup'', ''subscribe'']"

text \<open>
  A null payload raises in its first property access, before any command. \<^verbatim>\<open>sadd\<close> takes any positive
  number of members; in the pipeline an error reply does not stop the later commands.
\<close>

definition sadd_all :: "'s redis \<Rightarrow> int \<Rightarrow> string \<Rightarrow> string list \<Rightarrow> 's \<Rightarrow> 's" where
  "sadd_all R now key xs s = fold (rd_sadd R now key) xs s"

definition updateUserMetrics ::
  "'s redis \<Rightarrow> (rat \<Rightarrow> string) \<Rightarrow> int \<Rightarrow> string \<Rightarrow> event_request \<Rightarrow> json \<Rightarrow> 's \<Rightarrow> 's" where
  "updateUserMetrics R sn now timeKey event payload s =
     (case (prop_or payload ''userId'' (JStr ''anonymous''), prop_or payload ''sessionId'' JNull) of
        (Inr userId, Inr sessionId) \<Rightarrow>
          (let uk = metric_key ''users'' timeKey;
               sk = metric_key ''sessions'' timeKey;
               ck = metric_key ''conversions'' timeKey;
               s1 = rd_expire R now uk window_ttl (sadd_all R now uk (redis_args sn userId) s);
               s2 = (if truthy sessionId
                     then rd_expire R now sk window_ttl (sadd_all R now sk (redis_args sn sessionId) s1) else s1)
           in if er_eventName event \<in> set conversion_events
              then rd_expire R now ck window_ttl (snd (rd_hincrby R now ck (er_eventName event) 1 s2)) else s2)
      | _ \<Rightarrow> s)"

definition updateEventTypeMetrics :: "'s redis \<Rightarrow> int \<Rightarrow> string \<Rightarrow> event_request \<Rightarrow> 's \<Rightarrow> 's" where
  "updateEventTypeMetrics R now timeKey event s =
     (let k = metric_key ''event_types'' timeKey
      in rd_expire R now k window_ttl (snd (rd_hincrby R now k (er_eventName event) 1 s)))"

text \<open>
  The country of an event without one is drawn at random, whatever its address; \<open>pick\<close> is
  the drawn index.
\<close>

definition mock_countries :: "string list" where
  "mock_countries = [''United States'', ''United Kingdom'', ''Canada'', ''Germany'', ''France'']"

definition getCountryFromIP :: "nat \<Rightarrow> json option \<Rightarrow> string" where
  "getCountryFromIP pick ip = mock_countries ! (pick mod length mock_countries)"

definition updateGeographicMetrics ::
  "'s redis \<Rightarrow> (rat \<Rightarrow> string) \<Rightarrow> nat \<Rightarrow> int \<Rightarrow> string \<Rightarrow> json \<Rightarrow> 's \<Rightarrow> 's" where
  "updateGeographicMetrics R sn pick now timeKey payload s =
     (case prop_or payload ''country''
             (JStr (getCountryFromIP pick (case get_prop payload ''ip'' of Inr v \<Rightarrow> v | Inl e \<Rightarrow> None))) of
        Inl e \<Rightarrow> s
      | Inr country \<Rightarrow> count_value R now (metric_key ''countries'' timeKey) (redis_args sn country) window_ttl s)"

definition updateDeviceMetrics ::
  "'s redis \<Rightarrow> (rat \<Rightarrow> string) \<Rightarrow> int \<Rightarrow> string \<Rightarrow> json \<Rightarrow> 's \<Rightarrow> 's" where
  "updateDeviceMetrics R sn now timeKey payload s =
     (case prop_or payload ''device'' (JStr ''unknown'') of
        Inl e \<Rightarrow> s
      | Inr device \<Rightarrow> count_value R now (metric_key ''devices'' timeKey) (redis_args sn device) window_ttl s)"

definition updateReferrerMetrics ::
  "'s redis \<Rightarrow> (rat \<Rightarrow> string) \<Rightarrow> int \<Rightarrow> string \<Rightarrow> json \<Rightarrow> 's \<Rightarrow> 's" where
  "updateReferrerMetrics R sn now timeKey payload s =
     (case prop_or payload ''referrer'' (JStr ''Direct'') of
        Inl e \<Rightarrow> s
      | Inr referrer \<Rightarrow> count_value R now (metric_key ''referrers'' timeKey) (redis_args sn referrer) window_ttl s)"

definition updatePerformanceMetrics :: "'s redis \<Rightarrow> int \<Rightarrow> string \<Rightarrow> int \<Rightarrow> 's \<Rightarrow> 's" where
  "updatePerformanceMetrics R now timeKey eventTime s =
     (let k = metric_key ''response_times'' timeKey; processingTime = now - eventTime
      in rd_expire R now k 3600 (rd_ltrim R now k 0 99 (rd_lpush R now k (show_int processingTime) s)))"

section \<open>The live buffer\<close>

definition getTimeAgo :: "int \<Rightarrow> int \<Rightarrow> string" where
  "getTimeAgo now date =
     (let diffInMinutes = (now - date) div 60000;
          diffInHours = diffInMinutes div 60;
          diffInDays = diffInHours div 24
      in if diffInMinutes < 1 then ''just now''
         else if diffInMinutes < 60 then show_int diffInMinutes @ ''m ago''
         else if diffInHours < 24 then show_int diffInHours @ ''h ago''
         else show_int diffInDays @ ''d ago'')"

text \<open>\<open>rnd\<close> is the text of \<^verbatim>\<open>Math.random()\<close>.\<close>

definition addToLiveEvents ::
  "int \<Rightarrow> string \<Rightarrow> event_request \<Rightarrow> int \<Rightarrow> json \<Rightarrow> live_event list \<Rightarrow> live_event list result" where
  "addToLiveEvents now rnd event eventTime payload buffer =
     (case (prop_or payload ''userId'' (JStr ''anonymous''), prop_or payload ''country'' (JStr ''US''),
            prop_or payload ''device'' (JStr ''web'')) of
        (Inr userId, Inr country, Inr device) \<Rightarrow>
          (let liveEvent = \<lparr>le_id = show_int now @ ''_'' @ rnd, le_eventName = er_eventName event,
                 le_userId = userId, le_country = country, le_device = device,
                 le_timestamp = eventTime, le_timeAgo = getTimeAgo now eventTime\<rparr>;
               buffer1 = liveEvent # buffer
           in Inr (if 50 < length buffer1 then butlast buffer1 else buffer1))
      | _ \<Rightarrow> Inl null_property_error)"

definition updateLiveEventsTimeAgo :: "int \<Rightarrow> live_event list \<Rightarrow> live_event list" where
  "updateLiveEventsTimeAgo now buffer =
     map (\<lambda>e. e\<lparr>le_timeAgo := getTimeAgo now (le_timestamp e)\<rparr>) buffer"

section \<open>\<^verbatim>\<open>processEvent\<close>\<close>

definition parse_payload :: "event_request \<Rightarrow> json" where
  "parse_payload event = (case json_parse (er_payload event) of Inl e \<Rightarrow> JObj [] | Inr v \<Rightarrow> v)"

text \<open>The Redis commands of one event with a valid time.\<close>

definition count_event ::
  "'s metrics_env \<Rightarrow> int \<Rightarrow> nat \<Rightarrow> event_request \<Rightarrow> int \<Rightarrow> json \<Rightarrow> 's \<Rightarrow> 's" where
  "count_event M now pick event eventTime payload s =
     (let R = me_redis M; sn = me_show_number M; timeKey = getTimeKey now;
          s0 = updateLastActivityTime R now s;
          s1 = updateVolumeMetrics R now timeKey (getHourKey now) (getDayKey now) event s0;
          s2 = updateUserMetrics R sn now timeKey event payload s1;
          s3 = updateEventTypeMetrics R now timeKey event s2;
          s4 = updateGeographicMetrics R sn pick now timeKey payload s3;
          s5 = updateDeviceMetrics R sn now timeKey payload s4;
          s6 = updateReferrerMetrics R sn now timeKey payload s5
      in updatePerformanceMetrics R now timeKey eventTime s6)"

text \<open>
  The handler up to its broadcast: the result says whether the dashboard is broadcast (an
  event with an invalid time is dropped) or which error fails the job.
\<close>

definition record_event ::
  "'s metrics_env \<Rightarrow> int \<Rightarrow> nat \<Rightarrow> string \<Rightarrow> event_request \<Rightarrow> 's metrics_state
     \<Rightarrow> bool result \<times> 's metrics_state" where
  "record_event M now pick rnd event st =
     (let st0 = st\<lparr>ms_lastActivity := now\<rparr> in
      case date_of (me_legacy M) (er_timestamp event) of
        NaN \<Rightarrow> (Inr False, st0)
      | Num eventTime \<Rightarrow>
          (let payload = parse_payload event;
               st1 = st0\<lparr>ms_redis := count_event M now pick event eventTime payload (ms_redis st0)\<rparr>
           in case addToLiveEvents now rnd event eventTime payload (ms_live st1) of
                Inl e \<Rightarrow> (Inl e, st1)
              | Inr buffer \<Rightarrow> (Inr True, st1\<lparr>ms_live := buffer\<rparr>)))"

end
