(* ===== verification/Events.thy ===== *)
theory Events
  imports ApiKey Batchers Metrics
begin

text \<open>
  Ingestion over gRPC, src/src/events: the interceptor that checks the API key of a new stream, the stream
  handler that hands each event to its four consumers, and the state of the server they run in. The calls the
  code does not await (the two commands of \<^verbatim>\<open>initializeApiKeyUsage\<close>) are steps of their own.
\<close>

section \<open>The interceptor\<close>

text \<open>gRPC metadata: the values of each key.\<close>

type_synonym metadata = "string \<Rightarrow> string list"

definition API_KEY_ID :: string where "API_KEY_ID = ''api_key_id''"
definition OWNER_ID :: string where "OWNER_ID = ''owner_id''"

definition md_set :: "string \<Rightarrow> string \<Rightarrow> metadata \<Rightarrow> metadata" where
  "md_set k v md = md(k := [v])"

definition extractApiKeyFromHeader :: "metadata \<Rightarrow> string option" where
  "extractApiKeyFromHeader md = (case md ''x-api-key'' of [] \<Rightarrow> None | k # _ \<Rightarrow> Some k)"

text \<open>The metadata the handler will see, and the key whose usage is to be initialised.\<close>

definition intercept :: "'d api_key_model \<Rightarrow> metadata \<Rightarrow> 'd \<Rightarrow> (metadata \<times> api_key) result" where
  "intercept M md d =
     (case extractApiKeyFromHeader md of
        None \<Rightarrow> Inl (RpcException ''Please Provide Api Key to use our system'')
      | Some apiKey \<Rightarrow>
          if apiKey = [] then Inl (RpcException ''Please Provide Api Key to use our system'')
          else (case validateApiKey M apiKey d of
                  Inl error \<Rightarrow> Inl (RpcException (exn_message error))
                | Inr validApiKey \<Rightarrow>
                    Inr (md_set API_KEY_ID (ak_key validApiKey) (md_set OWNER_ID (ak_ownerId validApiKey) md), validApiKey)))"

section \<open>The server\<close>

record event_response =
  rs_status :: string
  rs_message :: string

definition received :: event_response where
  "received = \<lparr>rs_status = ''received'', rs_message = ''ok''\<rparr>"

text \<open>
  A stream: its metadata, the responses sent, and the error that ended it. A pending initialisation waits for
  the reply of its existence check or, with the reply, for its write.
\<close>

record stream =
  sm_metadata :: metadata
  sm_responses :: "event_response list"
  sm_error :: "exn option"

record init_task =
  it_status :: api_key_status
  it_exists :: "bool option"

record ('s, 'd) ingest =
  ig_usage :: "('s, 'd) usage_state"
  ig_batcher :: "(string \<times> event_request) event_batcher"
  ig_ws :: "event_request ws_batcher"
  ig_metrics :: "(string \<times> event_request) list"
  ig_tasks :: "init_task list"
  ig_streams :: "stream list"

record ('s, 'd) ingest_env =
  ie_redis :: "'s redis"
  ie_keys :: "'d api_key_model"

definition open_stream :: "('s, 'd) ingest_env \<Rightarrow> metadata \<Rightarrow> ('s, 'd) ingest \<Rightarrow> unit result \<times> ('s, 'd) ingest" where
  "open_stream N md st =
     (case intercept (ie_keys N) md (us_db (ig_usage st)) of
        Inl e \<Rightarrow> (Inl e, st)
      | Inr (md', a) \<Rightarrow>
          (Inr (), st\<lparr>ig_tasks := ig_tasks st @ [\<lparr>it_status = status_of a, it_exists = None\<rparr>],
             ig_streams := ig_streams st @ [\<lparr>sm_metadata = md', sm_responses = [], sm_error = None\<rparr>]\<rparr>))"

definition undefined_property_error :: exn where
  "undefined_property_error = JsError ''Cannot read properties of undefined''"

text \<open>The handler of one event of stream \<open>i\<close>; reading a missing metadata value raises a TypeError.\<close>

definition on_next ::
  "('s, 'd) ingest_env \<Rightarrow> int \<Rightarrow> nat \<Rightarrow> event_request \<Rightarrow> ('s, 'd) ingest \<Rightarrow> unit result \<times> ('s, 'd) ingest" where
  "on_next N now i event st =
     (let stream = ig_streams st ! i in
      case (sm_metadata stream API_KEY_ID, sm_metadata stream OWNER_ID) of
        (apiKeyId # _, ownerId # _) \<Rightarrow>
          (Inr (), st\<lparr>ig_usage := snd (incrementUsage (ie_redis N) (ie_keys N) now apiKeyId (ig_usage st)),
             ig_batcher := addStreamEvent now (ownerId, event) (ig_batcher st),
             ig_ws := addEvent ownerId event (ig_ws st),
             ig_metrics := ig_metrics st @ [(ownerId, event)],
             ig_streams := (ig_streams st)[i := stream\<lparr>sm_responses := sm_responses stream @ [received]\<rparr>]\<rparr>)
      | _ \<Rightarrow> (Inl undefined_property_error, st))"

definition on_error :: "nat \<Rightarrow> ('s, 'd) ingest \<Rightarrow> ('s, 'd) ingest" where
  "on_error i st =
     st\<lparr>ig_streams := (ig_streams st)[i := (ig_streams st ! i)\<lparr>sm_error := Some (RpcException ''Internal server error'')\<rparr>]\<rparr>"

text \<open>The first command of a pending initialisation, then its second.\<close>

definition run_task :: "('s, 'd) ingest_env \<Rightarrow> int \<Rightarrow> nat \<Rightarrow> ('s, 'd) ingest \<Rightarrow> ('s, 'd) ingest" where
  "run_task N now k st =
     (let t = ig_tasks st ! k; u = ig_usage st; apiKeyId = st_key (it_status t) in
      case it_exists t of
        None \<Rightarrow> st\<lparr>ig_tasks := (ig_tasks st)[k := t\<lparr>it_exists := Some (init_check (ie_redis N) now apiKeyId (us_redis u))\<rparr>]\<rparr>
      | Some ex \<Rightarrow>
          st\<lparr>ig_tasks := take k (ig_tasks st) @ drop (Suc k) (ig_tasks st),
             ig_usage := u\<lparr>us_redis := init_write (ie_redis N) now apiKeyId (it_status t) ex (us_redis u)\<rparr>\<rparr>)"

section \<open>Steps\<close>

text \<open>
  What happens to the server: a client opens a stream, sends an event, fails, or half-closes (for which the
  handler has no callback); a pending command is executed; a timer ticks.
\<close>

datatype ingest_op =
    OpenStream metadata
  | Next nat event_request
  | StreamError nat
  | StreamComplete nat
  | TaskStep nat
  | FlushTick
  | WebSocketTick

inductive ingest_step ::
  "('s, 'd) ingest_env \<Rightarrow> int \<Rightarrow> ingest_op \<Rightarrow> ('s, 'd) ingest \<Rightarrow> ('s, 'd) ingest \<Rightarrow> bool"
  for N :: "('s, 'd) ingest_env" and now :: int where
  open_step: "ingest_step N now (OpenStream md) st (snd (open_stream N md st))"
| next_step: "i < length (ig_streams st) \<Longrightarrow> sm_error (ig_streams st ! i) = None \<Longrightarrow>
    ingest_step N now (Next i event) st (snd (on_next N now i event st))"
| error_step: "i < length (ig_streams st) \<Longrightarrow> sm_error (ig_streams st ! i) = None \<Longrightarrow>
    ingest_step N now (StreamError i) st (on_error i st)"
| complete_step: "i < length (ig_streams st) \<Longrightarrow> ingest_step N now (StreamComplete i) st st"
| task_step: "k < length (ig_tasks st) \<Longrightarrow> ingest_step N now (TaskStep k) st (run_task N now k st)"
| flush_step: "ingest_step N now FlushTick st (st\<lparr>ig_batcher := flushBatch (ig_batcher st)\<rparr>)"
| ws_step: "ingest_step N now WebSocketTick st (st\<lparr>ig_ws := flushAllBatches (ig_ws st)\<rparr>)"

inductive_cases ingest_stepE: "ingest_step N now op st st'"

inductive ingest_runs ::
  "('s, 'd) ingest_env \<Rightarrow> (int \<times> ingest_op) list \<Rightarrow> ('s, 'd) ingest \<Rightarrow> ('s, 'd) ingest \<Rightarrow> bool"
  for N :: "('s, 'd) ingest_env" where
  runs_nil: "ingest_runs N [] st st"
| runs_snoc: "ingest_runs N ops st st' \<Longrightarrow> ingest_step N now op st' st'' \<Longrightarrow> ingest_runs N (ops @ [(now, op)]) st st''"

definition ingest_start :: "('s, 'd) usage_state \<Rightarrow> ('s, 'd) ingest" where
  "ingest_start u = \<lparr>ig_usage = u, ig_batcher = eb_init, ig_ws = wb_init, ig_metrics = [], ig_tasks = [], ig_streams = []\<rparr>"

section \<open>What a server of events promises\<close>

text \<open>
  The specification: streams belong to the owner of an active key, and each event of an open stream is logged
  under that owner, in the order of arrival. Everything else leaves the log alone.
\<close>

record event_log =
  lg_streams :: "(string \<times> bool) list"
  lg_events :: "(string \<times> event_request) list"

inductive log_step :: "(string \<Rightarrow> string \<Rightarrow> bool) \<Rightarrow> ingest_op \<Rightarrow> event_log \<Rightarrow> event_log \<Rightarrow> bool"
  for owns :: "string \<Rightarrow> string \<Rightarrow> bool" where
  log_accept: "extractApiKeyFromHeader md = Some key \<Longrightarrow> owns key ownerId \<Longrightarrow>
    log_step owns (OpenStream md) s (s\<lparr>lg_streams := lg_streams s @ [(ownerId, True)]\<rparr>)"
| log_refuse: "log_step owns (OpenStream md) s s"
| log_event: "i < length (lg_streams s) \<Longrightarrow> lg_streams s ! i = (ownerId, True) \<Longrightarrow>
    log_step owns (Next i event) s (s\<lparr>lg_events := lg_events s @ [(ownerId, event)]\<rparr>)"
| log_error: "i < length (lg_streams s) \<Longrightarrow> lg_streams s ! i = (ownerId, True) \<Longrightarrow>
    log_step owns (StreamError i) s (s\<lparr>lg_streams := (lg_streams s)[i := (ownerId, False)]\<rparr>)"
| log_skip: "op \<in> {FlushTick, WebSocketTick} \<or> (\<exists>k. op = TaskStep k \<or> op = StreamComplete k) \<Longrightarrow> log_step owns op s s"

inductive log_runs :: "(string \<Rightarrow> string \<Rightarrow> bool) \<Rightarrow> ingest_op list \<Rightarrow> event_log \<Rightarrow> event_log \<Rightarrow> bool"
  for owns :: "string \<Rightarrow> string \<Rightarrow> bool" where
  log_nil: "log_runs owns [] s s"
| log_snoc: "log_runs owns ops s s' \<Longrightarrow> log_step owns op s' s'' \<Longrightarrow> log_runs owns (ops @ [op]) s s''"

end
