(* ===== verification/EventStore.thy ===== *)
theory EventStore
  imports JS Dates "HOL-Library.Char_ord" "HOL-Library.List_Lexorder" "HOL-Library.Product_Lexorder" "HOL-Library.Sublist"
begin

text \<open>
  Stored events: the schema of src/src/events-http/schemas/event.schema.ts, the Mongoose model as a
  parameter with its documented behaviour (locale \<open>event_collection\<close>), and the repository of
  src/src/events-http/repository/event-http.repository.ts.
\<close>

section \<open>Documents\<close>

text \<open>An event on its way to the database, and the fields of a stored one.\<close>

record new_event =
  ne_ownerId :: string
  ne_eventName :: string
  ne_payload :: json
  ne_timestamp :: string
  ne_tags :: "string list"
  ne_category :: "string option"
  ne_severity :: "string option"
  ne_receivedAt :: int

record event_content =
  ec_ownerId :: string
  ec_eventName :: string
  ec_payload :: json
  ec_category :: "string option"
  ec_tags :: "string list"
  ec_severity :: string
  ec_timestamp :: "int option"

record event_doc = event_content +
  ed_id :: string
  ed_createdAt :: int

definition SEVERITIES :: "string list" where
  "SEVERITIES = [''SEVERITY_UNSPECIFIED'', ''INFO'', ''WARN'', ''ERROR'']"

text \<open>
  How Mongoose casts: an owner id (None: not an ObjectId), a date (None: a cast error, Some None: null),
  and what a mixed value becomes when stored and read back.
\<close>

record casts =
  cs_objectId :: "string \<Rightarrow> string option"
  cs_date :: "string \<Rightarrow> int option option"
  cs_mixed :: "json \<Rightarrow> json"

text \<open>
  The schema: the casts, the required fields (an empty string and null count as absent), the
  severities with their default. Fields outside the schema are dropped.
\<close>

definition event_schema :: "casts \<Rightarrow> new_event \<Rightarrow> event_content option" where
  "event_schema C e =
     (case (cs_objectId C (ne_ownerId e), cs_date C (ne_timestamp e)) of
        (Some ownerId, Some timestamp) \<Rightarrow>
          (let severity = (case ne_severity e of None \<Rightarrow> ''SEVERITY_UNSPECIFIED'' | Some s \<Rightarrow> s) in
           if ne_eventName e = [] \<or> ne_payload e = JNull \<or> severity \<notin> set SEVERITIES then None
           else Some \<lparr>ec_ownerId = ownerId, ec_eventName = ne_eventName e, ec_payload = cs_mixed C (ne_payload e),
                  ec_category = ne_category e, ec_tags = ne_tags e, ec_severity = severity, ec_timestamp = timestamp\<rparr>)
      | _ \<Rightarrow> None)"

section \<open>Queries\<close>

text \<open>A filter of the service; an absent condition is \<^term>\<open>None\<close>, a date may be invalid.\<close>

record event_filter =
  ef_ownerId :: string
  ef_eventName :: "string option"
  ef_category :: "string option"
  ef_severity :: "string option"
  ef_tags :: "string list option"
  ef_from :: "date option"
  ef_to :: "date option"

definition opt_holds :: "('a \<Rightarrow> bool) \<Rightarrow> 'a option \<Rightarrow> bool" where
  "opt_holds P x = (case x of None \<Rightarrow> True | Some a \<Rightarrow> P a)"

text \<open>
  What MongoDB's operators mean on a stored event: equality, \<^verbatim>\<open>$in\<close> on the elements of an array, and a
  range of dates, which a missing date is never in.
\<close>

definition event_matches :: "event_filter \<Rightarrow> event_doc \<Rightarrow> bool" where
  "event_matches f e =
     (ec_ownerId e = ef_ownerId f
      \<and> opt_holds (\<lambda>n. ec_eventName e = n) (ef_eventName f)
      \<and> opt_holds (\<lambda>c. ec_category e = Some c) (ef_category f)
      \<and> opt_holds (\<lambda>s. ec_severity e = s) (ef_severity f)
      \<and> opt_holds (\<lambda>ts. list_ex (\<lambda>t. t \<in> set ts) (ec_tags e)) (ef_tags f)
      \<and> opt_holds (\<lambda>d. \<exists>t. ec_timestamp e = Some t \<and> num_ge (Num t) d) (ef_from f)
      \<and> opt_holds (\<lambda>d. \<exists>t. ec_timestamp e = Some t \<and> num_ge d (Num t)) (ef_to f))"

definition bad_dates :: "event_filter \<Rightarrow> bool" where
  "bad_dates f = (ef_from f = Some NaN \<or> ef_to f = Some NaN)"

datatype sort_field = ByTimestamp | ByCreatedAt | ByEventName | BySeverity

text \<open>The values a sort compares, in MongoDB's order of types: missing, text, date.\<close>

datatype sort_val = SMissing | SText string | STime int

fun sort_rank :: "sort_val \<Rightarrow> nat \<times> string \<times> int" where
  "sort_rank SMissing = (0, [], 0)"
| "sort_rank (SText s) = (1, s, 0)"
| "sort_rank (STime t) = (2, [], t)"

lemma sort_rank_inject: "sort_rank a = sort_rank b \<Longrightarrow> a = b"
  by (cases a; cases b) simp_all

instantiation sort_val :: linorder
begin

definition less_eq_sort_val :: "sort_val \<Rightarrow> sort_val \<Rightarrow> bool" where
  "a \<le> b \<longleftrightarrow> sort_rank a \<le> sort_rank b"

definition less_sort_val :: "sort_val \<Rightarrow> sort_val \<Rightarrow> bool" where
  "a < b \<longleftrightarrow> sort_rank a < sort_rank b"

instance
proof
  fix a b :: sort_val
  show "a \<le> b \<Longrightarrow> b \<le> a \<Longrightarrow> a = b"
    by (simp add: less_eq_sort_val_def sort_rank_inject order_antisym)
qed (auto simp: less_eq_sort_val_def less_sort_val_def)

end

fun event_sort_val :: "sort_field \<Rightarrow> event_doc \<Rightarrow> sort_val" where
  "event_sort_val ByTimestamp e = (case ec_timestamp e of None \<Rightarrow> SMissing | Some t \<Rightarrow> STime t)"
| "event_sort_val ByCreatedAt e = STime (ed_createdAt e)"
| "event_sort_val ByEventName e = SText (ec_eventName e)"
| "event_sort_val BySeverity e = SText (ec_severity e)"

fun before_in :: "sort_field \<Rightarrow> bool \<Rightarrow> event_doc \<Rightarrow> event_doc \<Rightarrow> bool" where
  "before_in f True a b = (event_sort_val f a \<le> event_sort_val f b)"
| "before_in f False a b = (event_sort_val f b \<le> event_sort_val f a)"

section \<open>The Mongoose model\<close>

record 'd event_model =
  em_find :: "event_filter \<Rightarrow> sort_field \<Rightarrow> bool \<Rightarrow> int \<Rightarrow> int \<Rightarrow> 'd \<Rightarrow> event_doc list result"
  em_countDocuments :: "event_filter \<Rightarrow> 'd \<Rightarrow> nat result"
  em_findOwned :: "string \<Rightarrow> int \<Rightarrow> int \<Rightarrow> 'd \<Rightarrow> event_doc list result"
  em_deleteMany :: "string \<Rightarrow> string list \<Rightarrow> 'd \<Rightarrow> nat result \<times> 'd"
  em_deleteOne :: "string \<Rightarrow> string \<Rightarrow> 'd \<Rightarrow> nat result \<times> 'd"
  em_save :: "new_event \<Rightarrow> 'd \<Rightarrow> event_doc result \<times> 'd"
  em_insertMany :: "new_event list \<Rightarrow> 'd \<Rightarrow> event_doc list result \<times> 'd"

definition owned_event :: "string \<Rightarrow> (string \<Rightarrow> bool) \<Rightarrow> event_doc \<Rightarrow> bool" where
  "owned_event ownerId ids e = (ec_ownerId e = ownerId \<and> ids (ed_id e))"

text \<open>
  A sort says nothing of documents with equal values: any order of them may come, and another one for the
  next page. Of a batch insertion some of the documents that pass the schema are stored. More is not promised, not even by a
  resolved insertion: it is written with the connection's \<^verbatim>\<open>w: 0\<close> (app.module.ts), so that it only means that the
  documents were sent. The deletions ask for \<^verbatim>\<open>w: 1\<close>.
\<close>

locale event_collection =
  fixes C :: casts and M :: "'d event_model" and docs :: "'d \<Rightarrow> event_doc list"
  assumes em_find: "em_find M f srt asc skip limit d = Inr xs \<Longrightarrow> 0 \<le> skip \<Longrightarrow> 0 < limit \<Longrightarrow>
        \<exists>ys. mset ys = mset (filter (event_matches f) (docs d)) \<and> sorted_wrt (before_in srt asc) ys
          \<and> xs = take (nat limit) (drop (nat skip) ys)"
    and em_find_bad: "bad_dates f \<Longrightarrow> isl (em_find M f srt asc skip limit d)"
    and em_countDocuments: "em_countDocuments M f d = Inr n \<Longrightarrow> n = length (filter (event_matches f) (docs d))"
    and em_deleteMany: "em_deleteMany M ow ids d = (Inr n, d') \<Longrightarrow>
        docs d' = filter (\<lambda>e. \<not> owned_event ow (\<lambda>i. i \<in> set ids) e) (docs d)
        \<and> n = length (filter (owned_event ow (\<lambda>i. i \<in> set ids)) (docs d))"
    and em_deleteMany_Inl: "em_deleteMany M ow ids d = (Inl e, d') \<Longrightarrow>
        \<exists>P. docs d' = filter (\<lambda>e. \<not> (owned_event ow (\<lambda>i. i \<in> set ids) e \<and> P e)) (docs d)"
    and em_deleteOne: "em_deleteOne M i ow d = (Inr n, d') \<Longrightarrow>
        docs d' = remove_first (owned_event ow ((=) i)) (docs d)
        \<and> n = (if list_ex (owned_event ow ((=) i)) (docs d) then 1 else 0)"
    and em_deleteOne_Inl: "em_deleteOne M i ow d = (Inl e, d') \<Longrightarrow>
        docs d' = remove_first (owned_event ow ((=) i)) (docs d) \<or> docs d' = docs d"
    and em_insertMany: "em_insertMany M es d = (r, d') \<Longrightarrow>
        \<exists>new. docs d' = docs d @ new \<and> subseq (map event_content.truncate new) (List.map_filter (event_schema C) es)"

text \<open>
  A server that is up, as a hypothesis of its own: it stores every batch of documents it accepts. Which it accepts is left open
  (MongoDB refuses documents that are nested too deep or too large), and so is what becomes of a batch with another one.
\<close>

definition stores_accepted :: "casts \<Rightarrow> 'd event_model \<Rightarrow> ('d \<Rightarrow> event_doc list) \<Rightarrow> (event_content \<Rightarrow> bool) \<Rightarrow> bool" where
  "stores_accepted C M docs accepted =
     (\<forall>es d. list_all accepted (List.map_filter (event_schema C) es) \<longrightarrow>
        map event_content.truncate (docs (snd (em_insertMany M es d)))
          = map event_content.truncate (docs d) @ List.map_filter (event_schema C) es)"

section \<open>The repository\<close>

text \<open>
  Of the repository's \<^verbatim>\<open>catch\<close> blocks only those around awaited queries run: in \<^verbatim>\<open>insertEvent\<close>,
  \<^verbatim>\<open>insertBatch\<close> and \<^verbatim>\<open>getEvents\<close> the query leaves the block before it can fail.
\<close>

definition no_match :: exn where
  "no_match = HttpException BadRequest ''No events matched the provided IDs for this user''"

definition repo_deleteBatchEvents :: "'d event_model \<Rightarrow> string \<Rightarrow> string list \<Rightarrow> 'd \<Rightarrow> nat result \<times> 'd" where
  "repo_deleteBatchEvents M ownerId events d =
     (case em_deleteMany M ownerId events d of
        (Inl error, d') \<Rightarrow> (Inl (HttpException InternalServerError (exn_message error)), d')
      | (Inr deletedCount, d') \<Rightarrow>
          if deletedCount = 0 then (Inl (HttpException InternalServerError (exn_message no_match)), d')
          else (Inr deletedCount, d'))"

definition repo_deleteEvent :: "'d event_model \<Rightarrow> string \<Rightarrow> string \<Rightarrow> 'd \<Rightarrow> nat result \<times> 'd" where
  "repo_deleteEvent M ownerId eventId d =
     (case em_deleteOne M eventId ownerId d of
        (Inl error, d') \<Rightarrow> (Inl error, d')
      | (Inr deletetCount, d') \<Rightarrow> if deletetCount = 0 then (Inl no_match, d') else (Inr deletetCount, d'))"

definition repo_insertEvent :: "'d event_model \<Rightarrow> new_event \<Rightarrow> 'd \<Rightarrow> event_doc result \<times> 'd" where
  "repo_insertEvent M creatEvent d = em_save M creatEvent d"

text \<open>
  \<^verbatim>\<open>insertBatch\<close> returns before the insertion ends: always with success. The error of a failed insertion
  reaches nobody but the handler of unhandled rejections; it is the second component.
\<close>

definition repo_insertBatch :: "'d event_model \<Rightarrow> new_event list \<Rightarrow> 'd \<Rightarrow> (unit result \<times> exn option) \<times> 'd" where
  "repo_insertBatch M createEvents d =
     (case em_insertMany M createEvents d of
        (Inl error, d') \<Rightarrow> ((Inr (), Some error), d')
      | (Inr _, d') \<Rightarrow> ((Inr (), None), d'))"

text \<open>\<^verbatim>\<open>options?.limit || 10\<close> and \<^verbatim>\<open>options?.skip || 0\<close>.\<close>

definition repo_getEvents :: "'d event_model \<Rightarrow> string \<Rightarrow> (int \<times> int) option \<Rightarrow> 'd \<Rightarrow> event_doc list result" where
  "repo_getEvents M ownerId options d =
     (case options of
        None \<Rightarrow> em_findOwned M ownerId 10 0 d
      | Some (limit, skip) \<Rightarrow> em_findOwned M ownerId (if limit = 0 then 10 else limit) skip d)"

text \<open>
  The page and the total are asked for together; they are modelled on the same state of the
  collection. The first error is wrapped.
\<close>

definition repo_getEventsWithFilter ::
  "'d event_model \<Rightarrow> event_filter \<Rightarrow> int \<Rightarrow> int \<Rightarrow> sort_field \<Rightarrow> bool \<Rightarrow> 'd \<Rightarrow> (event_doc list \<times> nat) result" where
  "repo_getEventsWithFilter M flt limit skip srt asc d =
     (case (em_find M flt srt asc skip limit d, em_countDocuments M flt d) of
        (Inr items, Inr cnt) \<Rightarrow> Inr (items, cnt)
      | (Inl error, _) \<Rightarrow> Inl (HttpException InternalServerError (exn_message error))
      | (Inr _, Inl error) \<Rightarrow> Inl (HttpException InternalServerError (exn_message error)))"

end
