(* ===== verification/EventsHttp.thy ===== *)
theory EventsHttp
  imports EventStore Guards
begin

text \<open>
  The HTTP interface of the stored events: src/src/events-http/events-http.service.ts with its filters and
  pages, the query of dtos/get-events.dto.ts, and the controller behind the guard. The interface in front of
  MongoDB is the model of \<open>EventStore\<close>; the properties hold for every one that keeps its contract.
\<close>

section \<open>The query\<close>

record events_query =
  q_page :: "int jsnum option"
  q_limit :: "int jsnum option"
  q_eventName :: "string option"
  q_category :: "string option"
  q_severity :: "string option"
  q_fromDate :: "string option"
  q_toDate :: "string option"
  q_tags :: "string list option"
  q_sortBy :: "sort_field option"
  q_sortOrder :: "string option"

text \<open>
  What the validated query satisfies; the ISO check is the library's. The page and limit are there by
  default, and \<^verbatim>\<open>parseInt\<close> of no number fails \<^verbatim>\<open>IsInt\<close>.
\<close>

definition in_range :: "int \<Rightarrow> int option \<Rightarrow> int jsnum option \<Rightarrow> bool" where
  "in_range lo hi x = (case x of Some (Num n) \<Rightarrow> lo \<le> n \<and> opt_holds (\<lambda>h. n \<le> h) hi | _ \<Rightarrow> False)"

definition get_events_dto_ok :: "(string \<Rightarrow> bool) \<Rightarrow> events_query \<Rightarrow> bool" where
  "get_events_dto_ok is_iso q =
     (in_range 1 None (q_page q) \<and> in_range 1 (Some 200) (q_limit q)
      \<and> opt_holds (\<lambda>s. s \<in> set [''INFO'', ''WARN'', ''ERROR'', ''SEVERITY_UNSPECIFIED'']) (q_severity q)
      \<and> opt_holds is_iso (q_fromDate q) \<and> opt_holds is_iso (q_toDate q)
      \<and> opt_holds (\<lambda>s. s = ''asc'' \<or> s = ''desc'') (q_sortOrder q))"

text \<open>The transformation of the \<^verbatim>\<open>tags\<close> parameter: a text or a list of texts (or something else).\<close>

fun tags_transform :: "query_value \<Rightarrow> string list" where
  "tags_transform (QList vs) = filter (\<lambda>t. t \<noteq> []) (concat (map (split_on CHR '','') vs))"
| "tags_transform (QText v) = filter (\<lambda>t. t \<noteq> []) (split_on CHR '','' v)"
| "tags_transform QOther = []"

section \<open>The service\<close>

text \<open>The idioms \<^verbatim>\<open>if (x)\<close> on an optional text or list and \<^verbatim>\<open>x || d\<close> on an optional number.\<close>

definition non_empty :: "'a list option \<Rightarrow> 'a list option" where
  "non_empty x = (case x of Some (a # as) \<Rightarrow> Some (a # as) | _ \<Rightarrow> None)"

definition num_or :: "int jsnum option \<Rightarrow> int \<Rightarrow> int" where
  "num_or x d = (case x of Some (Num n) \<Rightarrow> if n = 0 then d else n | _ \<Rightarrow> d)"

record events_page =
  ep_events :: "event_doc list"
  ep_page :: int
  ep_limit :: int
  ep_total :: nat
  ep_totalPages :: int
  ep_filtersApplied :: events_query

definition bad_range :: exn where
  "bad_range = HttpException BadRequest ''fromDate must be before or equal to toDate''"

definition events_filter :: "(string \<Rightarrow> date) \<Rightarrow> string \<Rightarrow> events_query \<Rightarrow> event_filter result" where
  "events_filter legacy ownerId q =
     (let from_date = map_option (date_of legacy) (non_empty (q_fromDate q));
          to_date = map_option (date_of legacy) (non_empty (q_toDate q));
          flt = \<lparr>ef_ownerId = ownerId, ef_eventName = non_empty (q_eventName q), ef_category = non_empty (q_category q),
                 ef_severity = non_empty (q_severity q), ef_tags = non_empty (q_tags q),
                 ef_from = from_date, ef_to = to_date\<rparr>
      in case (from_date, to_date) of
           (Some f, Some t) \<Rightarrow> if num_gt f t then Inl bad_range else Inr flt
         | _ \<Rightarrow> Inr flt)"

definition ascending :: "events_query \<Rightarrow> bool" where
  "ascending q = (q_sortOrder q = Some ''asc'')"

definition sort_field_of :: "events_query \<Rightarrow> sort_field" where
  "sort_field_of q = (case q_sortBy q of None \<Rightarrow> ByTimestamp | Some f \<Rightarrow> f)"

definition getEvents ::
  "'d event_model \<Rightarrow> (string \<Rightarrow> date) \<Rightarrow> string \<Rightarrow> events_query \<Rightarrow> 'd \<Rightarrow> events_page result" where
  "getEvents M legacy ownerId q d =
     (case events_filter legacy ownerId q of
        Inl e \<Rightarrow> Inl e
      | Inr flt \<Rightarrow>
          (let page = num_or (q_page q) 1;
               limit = num_or (q_limit q) 50;
               skip = (page - 1) * limit
           in case repo_getEventsWithFilter M flt limit skip (sort_field_of q) (ascending q) d of
                Inl e \<Rightarrow> Inl e
              | Inr (items, cnt) \<Rightarrow>
                  Inr \<lparr>ep_events = items, ep_page = page, ep_limit = limit, ep_total = cnt,
                       ep_totalPages = (if cnt = 0 then 0 else \<lceil>of_nat cnt / (of_int limit :: rat)\<rceil>),
                       ep_filtersApplied = q\<lparr>q_page := None, q_limit := None, q_eventName := non_empty (q_eventName q),
                         q_category := non_empty (q_category q), q_severity := non_empty (q_severity q),
                         q_tags := Some (case q_tags q of None \<Rightarrow> [] | Some ts \<Rightarrow> ts),
                         q_fromDate := non_empty (q_fromDate q), q_toDate := non_empty (q_toDate q),
                         q_sortBy := Some (sort_field_of q),
                         q_sortOrder := Some (case non_empty (q_sortOrder q) of None \<Rightarrow> ''desc'' | Some s \<Rightarrow> s)\<rparr>\<rparr>))"

text \<open>A deletion answers with a fixed status and message and the count.\<close>

record deletion =
  dl_status :: string
  dl_message :: string
  dl_deletedCount :: nat

definition deleted :: "nat \<Rightarrow> deletion" where
  "deleted n = \<lparr>dl_status = ''success'', dl_message = ''deleted successfully'', dl_deletedCount = n\<rparr>"

definition deleteBatchEvents :: "'d event_model \<Rightarrow> string \<Rightarrow> string list \<Rightarrow> 'd \<Rightarrow> deletion result \<times> 'd" where
  "deleteBatchEvents M ownerId ids d =
     (case repo_deleteBatchEvents M ownerId ids d of
        (Inl e, d') \<Rightarrow> (Inl e, d') | (Inr n, d') \<Rightarrow> (Inr (deleted n), d'))"

definition deleteEvent :: "'d event_model \<Rightarrow> string \<Rightarrow> string \<Rightarrow> 'd \<Rightarrow> deletion result \<times> 'd" where
  "deleteEvent M ownerId eventId d =
     (case repo_deleteEvent M ownerId eventId d of
        (Inl e, d') \<Rightarrow> (Inl e, d') | (Inr n, d') \<Rightarrow> (Inr (deleted n), d'))"

definition insertEvent :: "'d event_model \<Rightarrow> new_event \<Rightarrow> 'd \<Rightarrow> event_doc result \<times> 'd" where
  "insertEvent M creatEvent d = repo_insertEvent M creatEvent d"

definition insertBatch :: "'d event_model \<Rightarrow> new_event list \<Rightarrow> 'd \<Rightarrow> (unit result \<times> exn option) \<times> 'd" where
  "insertBatch M createEvents d = repo_insertBatch M createEvents d"

section \<open>The controller\<close>

datatype events_request =
    GetEvents events_query
  | DeleteEvent string
  | DeletePatchEvents "string list"

datatype events_response =
    EventsPage events_page
  | Deleted deletion

fun events_handler ::
  "'d event_model \<Rightarrow> (string \<Rightarrow> date) \<Rightarrow> string \<Rightarrow> events_request \<Rightarrow> 'd \<Rightarrow> events_response result \<times> 'd" where
  "events_handler M legacy sub (GetEvents q) d =
     (case getEvents M legacy sub q d of Inl e \<Rightarrow> (Inl e, d) | Inr p \<Rightarrow> (Inr (EventsPage p), d))"
| "events_handler M legacy sub (DeleteEvent eventId) d =
     (case deleteEvent M sub eventId d of (Inl e, d') \<Rightarrow> (Inl e, d') | (Inr r, d') \<Rightarrow> (Inr (Deleted r), d'))"
| "events_handler M legacy sub (DeletePatchEvents ids) d =
     (case deleteBatchEvents M sub ids d of (Inl e, d') \<Rightarrow> (Inl e, d') | (Inr r, d') \<Rightarrow> (Inr (Deleted r), d'))"

text \<open>The controller has no \<^verbatim>\<open>Auth\<close> decorator, so the default, the bearer guard, is in front of it.\<close>

definition eventsController ::
  "jwt \<Rightarrow> jwt_params \<Rightarrow> int \<Rightarrow> 'd event_model \<Rightarrow> (string \<Rightarrow> date) \<Rightarrow> request \<Rightarrow> events_request \<Rightarrow> 'd
     \<Rightarrow> events_response result \<times> 'd" where
  "eventsController J P now M legacy rq req d =
     (case canActivate J P now None None rq of
        (Inl e, _) \<Rightarrow> (Inl e, d)
      | (Inr _, rq') \<Rightarrow>
          (case ActiveUser ''sub'' rq' of
             Some sub \<Rightarrow> events_handler M legacy sub req d
           | None \<Rightarrow> (Inl null_property_error, d)))"

lemma eventsController_cases:
  "eventsController J P now M legacy rq req d =
     (case bearer J P now rq of
        Inl e \<Rightarrow> (Inl e, d) | Inr c \<Rightarrow> events_handler M legacy (c_sub c) req d)"
  by (simp add: eventsController_def canActivate_def authTypesOf_def run_guards_types ActiveUser_def
      del: list.map split: sum.split)

end
