(* ===== verification/Gateway.thy ===== *)
theory Gateway
  imports Guards Dates
begin

text \<open>
  The websocket gateway, src/src/websocket/events-websocket.gateway.ts: connections with their tokens, the
  room of each user, broadcasts. \<^verbatim>\<open>handleConnection\<close> waits for the verification of the token in between, so it
  is two steps, and a client may be gone before the second. Of \<^verbatim>\<open>socket.io\<close> it uses rooms (pairs of a room and
  a client), \<^verbatim>\<open>emit\<close> to a client or to a room, which reaches open connections only, and \<^verbatim>\<open>disconnect\<close>, which
  closes the connection, takes the client out of its rooms and calls \<^verbatim>\<open>handleDisconnect\<close>.
\<close>

section \<open>State\<close>

record handshake =
  hs_token :: "query_value option"
  hs_authorization :: "string option"

text \<open>What clients get: a broadcast event, the data at the start of a connection, an error with its cause.\<close>

datatype 'p ws_message =
    Broadcast string 'p
  | InitialData string string
  | ErrorMessage string "string option"

record 'p gateway =
  gw_isInitialized :: bool
  gw_connectedClients :: "string list"
  gw_data :: "string \<rightharpoonup> claims"
  gw_open :: "string list"
  gw_rooms :: "(string \<times> string) list"
  gw_pending :: "(string \<times> string) list"
  gw_sent :: "(string \<times> 'p ws_message) list"

definition gw_start :: "'p gateway" where
  "gw_start = \<lparr>gw_isInitialized = False, gw_connectedClients = [], gw_data = Map.empty, gw_open = [], gw_rooms = [],
     gw_pending = [], gw_sent = []\<rparr>"

definition user_room :: "string \<Rightarrow> string" where
  "user_room userId = ''user_'' @ userId"

definition emit :: "string \<Rightarrow> 'p ws_message \<Rightarrow> 'p gateway \<Rightarrow> 'p gateway" where
  "emit client msg g = (if client \<in> set (gw_open g) then g\<lparr>gw_sent := gw_sent g @ [(client, msg)]\<rparr> else g)"

definition members :: "string \<Rightarrow> 'p gateway \<Rightarrow> string list" where
  "members room g = filter (\<lambda>c. (room, c) \<in> set (gw_rooms g)) (gw_open g)"

definition emit_room :: "string \<Rightarrow> 'p ws_message \<Rightarrow> 'p gateway \<Rightarrow> 'p gateway" where
  "emit_room room msg g = g\<lparr>gw_sent := gw_sent g @ map (\<lambda>c. (c, msg)) (members room g)\<rparr>"

definition join :: "string \<Rightarrow> string \<Rightarrow> 'p gateway \<Rightarrow> 'p gateway" where
  "join room client g =
     (if (room, client) \<in> set (gw_rooms g) then g else g\<lparr>gw_rooms := gw_rooms g @ [(room, client)]\<rparr>)"

section \<open>Connections\<close>

definition afterInit :: "'p gateway \<Rightarrow> 'p gateway" where
  "afterInit g = g\<lparr>gw_isInitialized := True\<rparr>"

definition ws_extractToken :: "handshake \<Rightarrow> string option" where
  "ws_extractToken hs =
     (let fallback = (case hs_authorization hs of
            None \<Rightarrow> None
          | Some authHeader \<Rightarrow>
              (case split_on CHR '' '' authHeader of
                 [a, b] \<Rightarrow> if a = ''Bearer'' then Some b else None
               | _ \<Rightarrow> None))
      in case hs_token hs of
           Some (QText queryToken) \<Rightarrow> if queryToken \<noteq> [] then Some queryToken else fallback
         | _ \<Rightarrow> fallback)"

definition handleDisconnect :: "string \<Rightarrow> 'p gateway \<Rightarrow> 'p gateway" where
  "handleDisconnect client g =
     (let g1 = g\<lparr>gw_connectedClients := removeAll client (gw_connectedClients g)\<rparr> in
      case gw_data g client of
        None \<Rightarrow> g1
      | Some payload \<Rightarrow> g1\<lparr>gw_rooms := removeAll (user_room (c_sub payload), client) (gw_rooms g1)\<rparr>)"

definition disconnect :: "string \<Rightarrow> 'p gateway \<Rightarrow> 'p gateway" where
  "disconnect client g =
     (if client \<in> set (gw_open g)
      then handleDisconnect client (g\<lparr>gw_open := removeAll client (gw_open g),
             gw_rooms := filter (\<lambda>rc. snd rc \<noteq> client) (gw_rooms g)\<rparr>)
      else g)"

definition sendInitialData :: "int \<Rightarrow> string \<Rightarrow> claims \<Rightarrow> 'p gateway \<Rightarrow> 'p gateway" where
  "sendInitialData now client payload g = emit client (InitialData (c_sub payload) (toISOString now)) g"

text \<open>\<^verbatim>\<open>handleConnection\<close> up to the verification, and from its outcome on.\<close>

definition connect :: "string \<Rightarrow> handshake \<Rightarrow> 'p gateway \<Rightarrow> 'p gateway" where
  "connect client hs g =
     (let g1 = g\<lparr>gw_open := client # gw_open g\<rparr> in
      case ws_extractToken hs of
        Some token \<Rightarrow>
          if token \<noteq> [] then g1\<lparr>gw_pending := gw_pending g1 @ [(client, token)]\<rparr>
          else disconnect client (emit client (ErrorMessage ''Authentication token required'' None) g1)
      | None \<Rightarrow> disconnect client (emit client (ErrorMessage ''Authentication token required'' None) g1))"

definition verified :: "jwt \<Rightarrow> jwt_params \<Rightarrow> int \<Rightarrow> string \<Rightarrow> string \<Rightarrow> 'p gateway \<Rightarrow> 'p gateway" where
  "verified J P now client token g =
     (let g1 = g\<lparr>gw_pending := remove1 (client, token) (gw_pending g)\<rparr> in
      case jw_verify J P now token of
        Inl error \<Rightarrow> disconnect client (emit client (ErrorMessage ''Authentication failed'' (Some (exn_message error))) g1)
      | Inr payload \<Rightarrow>
          sendInitialData now client payload
            (join (user_room (c_sub payload)) client
              (g1\<lparr>gw_data := (gw_data g1)(client \<mapsto> payload),
                 gw_connectedClients := (if client \<in> set (gw_connectedClients g1) then gw_connectedClients g1
                                         else gw_connectedClients g1 @ [client])\<rparr>)))"

section \<open>Broadcasts\<close>

definition broadcastToUser :: "string \<Rightarrow> 'p \<Rightarrow> 'p gateway \<Rightarrow> 'p gateway" where
  "broadcastToUser userId events g = emit_room (user_room userId) (Broadcast ''events'' events) g"

definition broadcastMetrics :: "string \<Rightarrow> 'p \<Rightarrow> 'p gateway \<Rightarrow> 'p gateway" where
  "broadcastMetrics userId metrics g =
     (if \<not> gw_isInitialized g then g
      else emit_room (user_room userId) (Broadcast ''dashboard_data'' metrics) g)"

section \<open>Runs\<close>

text \<open>A client is a connection: its id is fresh when it connects.\<close>

inductive gw_step :: "jwt \<Rightarrow> jwt_params \<Rightarrow> 'p gateway \<Rightarrow> 'p gateway \<Rightarrow> bool"
  for J :: jwt and P :: jwt_params where
  gw_init: "gw_step J P g (afterInit g)"
| gw_connect: "client \<notin> set (gw_open g) \<Longrightarrow> gw_data g client = None \<Longrightarrow> client \<notin> fst ` set (gw_pending g) \<Longrightarrow>
    client \<notin> snd ` set (gw_rooms g) \<Longrightarrow> gw_step J P g (connect client hs g)"
| gw_verified: "(client, token) \<in> set (gw_pending g) \<Longrightarrow> gw_step J P g (verified J P now client token g)"
| gw_gone: "gw_step J P g (disconnect client g)"
| gw_events: "gw_step J P g (broadcastToUser userId p g)"
| gw_metrics: "gw_step J P g (broadcastMetrics userId p g)"

inductive gw_reachable :: "jwt \<Rightarrow> jwt_params \<Rightarrow> 'p gateway \<Rightarrow> bool" for J :: jwt and P :: jwt_params where
  gw_reach_start: "gw_reachable J P gw_start"
| gw_reach_step: "gw_reachable J P g \<Longrightarrow> gw_step J P g g' \<Longrightarrow> gw_reachable J P g'"

inductive_cases gw_stepE: "gw_step J P g g'"

end
