(* ===== verification/Dashboard.thy ===== *)
theory Dashboard
  imports Metrics
begin

text \<open>
  The read side of src/src/metrics/metrics-aggregation.service.ts: the dashboard computed from the
  minutes of the active window, the window before it, the hours of the last day and the live
  buffer. Ratios are exact rationals where the code computes in binary64.
\<close>

section \<open>The dashboard\<close>

record volume_point =
  vp_time :: string
  vp_events :: "int jsnum"

record count_row =
  cr_name :: string
  cr_count :: "int jsnum"

record share_row =
  sr_name :: string
  sr_value :: "int jsnum"
  sr_percentage :: "rat jsnum"

record performance =
  pf_avgResponseTime :: "int jsnum"
  pf_processingRate :: "int jsnum"
  pf_errorRate :: rat
  pf_uptime :: rat

record dashboard =
  db_totalEvents :: "int jsnum"
  db_totalEventsChange :: "rat jsnum"
  db_activeUsers :: nat
  db_activeUsersChange :: "rat jsnum"
  db_eventsPerHour :: "int jsnum"
  db_eventsPerHourChange :: "rat jsnum"
  db_conversionRate :: "rat jsnum"
  db_conversionRateChange :: rat
  db_eventVolumeData :: "volume_point list"
  db_topEvents :: "count_row list"
  db_eventDistribution :: "share_row list"
  db_geographicDistribution :: "count_row list"
  db_deviceTypes :: "count_row list"
  db_topReferrers :: "count_row list"
  db_performance :: performance
  db_liveEvents :: "live_event list"

section \<open>Arithmetic with NaN\<close>

fun num_map :: "('a \<Rightarrow> 'b) \<Rightarrow> 'a jsnum \<Rightarrow> 'b jsnum" where
  "num_map f (Num a) = Num (f a)"
| "num_map f NaN = NaN"

fun num_map2 :: "('a \<Rightarrow> 'b \<Rightarrow> 'c) \<Rightarrow> 'a jsnum \<Rightarrow> 'b jsnum \<Rightarrow> 'c jsnum" where
  "num_map2 f (Num a) (Num b) = Num (f a b)"
| "num_map2 f _ _ = NaN"

section \<open>Activity\<close>

definition getLastActivityTime :: "'s metrics_env \<Rightarrow> int \<Rightarrow> 's \<Rightarrow> date option" where
  "getLastActivityTime M now s =
     (case rd_get (me_redis M) now ''metrics:last_activity'' s of
        None \<Rightarrow> None
      | Some lastActivity \<Rightarrow> if lastActivity = [] then None else Some (date_of (me_legacy M) lastActivity))"

definition isSystemActive :: "'s metrics_env \<Rightarrow> int \<Rightarrow> 's \<Rightarrow> bool" where
  "isSystemActive M now s =
     (case getLastActivityTime M now s of
        None \<Rightarrow> False
      | Some NaN \<Rightarrow> False
      | Some (Num lastActivity) \<Rightarrow> of_int (now - lastActivity) / (1000 * 60 :: rat) \<le> of_int inactive_threshold)"

section \<open>Merging\<close>

text \<open>
  \<^verbatim>\<open>target[key]\<close> is truthy for a non-empty own property and for an inherited one; the text
  of an inherited function or object is not a number.
\<close>

definition merge_one :: "string \<times> string \<Rightarrow> dict \<Rightarrow> dict" where
  "merge_one kv target =
     (let (key, val) = kv;
          current = (case map_of target key of
              Some v \<Rightarrow> if v = [] then None else Some (parseInt v)
            | None \<Rightarrow> if key \<in> set inherited_names then Some NaN else None)
      in case current of
           Some n \<Rightarrow> dict_set key (show_num (n + parseInt val)) target
         | None \<Rightarrow> dict_set key val target)"

definition mergeRedisDataInPlace :: "dict \<Rightarrow> dict \<Rightarrow> dict" where
  "mergeRedisDataInPlace target source = fold merge_one source target"

text \<open>The hashes of one family at a list of times, merged in their order.\<close>

definition merged_family :: "'s redis \<Rightarrow> int \<Rightarrow> string \<Rightarrow> int list \<Rightarrow> 's \<Rightarrow> dict" where
  "merged_family R now family points s =
     fold (\<lambda>p target. mergeRedisDataInPlace target (rd_hgetall R now (metric_key family (getTimeKey p)) s)) points []"

text \<open>The union of the members of one set family, as \<^verbatim>\<open>Set.add\<close> collects them.\<close>

definition union_family :: "'s redis \<Rightarrow> int \<Rightarrow> string \<Rightarrow> int list \<Rightarrow> 's \<Rightarrow> string list" where
  "union_family R now family points s =
     fold (\<lambda>p us. fold (\<lambda>u us. if u \<in> set us then us else us @ [u])
        (rd_smembers R now (metric_key family (getTimeKey p)) s) us) points []"

definition field_or_zero :: "dict \<Rightarrow> string \<Rightarrow> int jsnum" where
  "field_or_zero d f = parseInt (case map_of d f of None \<Rightarrow> ''0'' | Some v \<Rightarrow> if v = [] then ''0'' else v)"

section \<open>The windows\<close>

definition calculateAverageResponseTime :: "string list \<Rightarrow> int jsnum" where
  "calculateAverageResponseTime responseTimes =
     (if responseTimes = [] then Num 0
      else num_map (\<lambda>sum. math_round (of_int sum / of_nat (length responseTimes)))
             (sum_list (map parseInt responseTimes)))"

record window_metrics =
  wm_totalEvents :: "int jsnum"
  wm_activeUsers :: nat
  wm_eventTypes :: dict
  wm_countries :: dict
  wm_devices :: dict
  wm_referrers :: dict
  wm_conversions :: dict
  wm_conversionRate :: "rat jsnum"
  wm_avgResponseTime :: "int jsnum"

definition window_points :: "int \<Rightarrow> int \<Rightarrow> int list" where
  "window_points currentTime offset = map (\<lambda>i. currentTime - offset - i * 60 * 1000) [0..active_window - 1]"

definition total_conversions :: "dict \<Rightarrow> int jsnum" where
  "total_conversions conversions =
     sum_list (map (\<lambda>(k, v). parseInt (if v = [] then ''0'' else v)) conversions)"

definition getActiveWindowMetrics :: "'s redis \<Rightarrow> int \<Rightarrow> int \<Rightarrow> 's \<Rightarrow> window_metrics" where
  "getActiveWindowMetrics R now currentTime s =
     (let points = window_points currentTime 0;
          volumeData = merged_family R now ''volume'' points s;
          conversions = merged_family R now ''conversions'' points s;
          responseTimes = concat (map (\<lambda>p. rd_lrange_all R now (metric_key ''response_times'' (getTimeKey p)) s) points);
          totalEvents = field_or_zero volumeData ''total_events''
      in \<lparr>wm_totalEvents = totalEvents,
          wm_activeUsers = length (union_family R now ''users'' points s),
          wm_eventTypes = merged_family R now ''event_types'' points s,
          wm_countries = merged_family R now ''countries'' points s,
          wm_devices = merged_family R now ''devices'' points s,
          wm_referrers = merged_family R now ''referrers'' points s,
          wm_conversions = conversions,
          wm_conversionRate = (if num_gt totalEvents (Num 0)
             then num_map2 (\<lambda>c n. of_int c / of_int n * 100) (total_conversions conversions) totalEvents
             else Num 0),
          wm_avgResponseTime = calculateAverageResponseTime responseTimes\<rparr>)"

definition getPreviousWindowMetrics :: "'s redis \<Rightarrow> int \<Rightarrow> int \<Rightarrow> 's \<Rightarrow> int jsnum \<times> nat" where
  "getPreviousWindowMetrics R now currentTime s =
     (let points = window_points currentTime (active_window * 60 * 1000)
      in (field_or_zero (merged_family R now ''volume'' points s) ''total_events'',
          length (union_family R now ''users'' points s)))"

definition generate24HourData :: "'s redis \<Rightarrow> int \<Rightarrow> 's \<Rightarrow> volume_point list" where
  "generate24HourData R now s =
     map (\<lambda>i. let time = now - i * 60 * 60 * 1000
              in \<lparr>vp_time = locale_time time,
                  vp_events = field_or_zero (rd_hgetall R now (metric_key ''volume:hour'' (getHourKey time)) s) ''total_events''\<rparr>)
       (rev [0..23])"

section \<open>Tables\<close>

definition count_rows :: "dict \<Rightarrow> count_row list" where
  "count_rows d = map (\<lambda>(name, count). \<lparr>cr_name = name, cr_count = parseInt count\<rparr>) d"

definition processTopEvents :: "dict \<Rightarrow> count_row list" where
  "processTopEvents eventTypes =
     take 10 (sort_desc cr_count (count_rows (filter (\<lambda>(key, _). key \<noteq> ''total_events'') eventTypes)))"

definition processEventDistribution :: "dict \<Rightarrow> int jsnum \<Rightarrow> share_row list" where
  "processEventDistribution eventTypes totalCount =
     sort_desc sr_value
       (map (\<lambda>(name, count). let val = parseInt count in
               \<lparr>sr_name = name, sr_value = val,
                sr_percentage = (if num_gt totalCount (Num 0)
                  then num_map2 (\<lambda>v n. of_int v / of_int n * 100) val totalCount else Num 0)\<rparr>)
         (filter (\<lambda>(key, _). key \<noteq> ''total_events'') eventTypes))"

definition processGeographicData :: "dict \<Rightarrow> count_row list" where
  "processGeographicData countries = take 5 (sort_desc cr_count (count_rows countries))"

definition processDeviceData :: "dict \<Rightarrow> count_row list" where
  "processDeviceData devices = sort_desc cr_count (count_rows devices)"

definition processReferrerData :: "dict \<Rightarrow> count_row list" where
  "processReferrerData referrers = take 5 (sort_desc cr_count (count_rows referrers))"

fun calculatePercentageChange :: "int jsnum \<Rightarrow> int jsnum \<Rightarrow> rat jsnum" where
  "calculatePercentageChange current (Num previous) =
     (if previous = 0 then (if num_gt current (Num 0) then Num 100 else Num 0)
      else num_map (\<lambda>c. of_int (math_round (of_int (c - previous) / of_int previous * 100 * 100)) / 100) current)"
| "calculatePercentageChange current NaN = NaN"

section \<open>The whole dashboard\<close>

definition generateInactiveMetrics :: "int \<Rightarrow> dashboard" where
  "generateInactiveMetrics now =
     \<lparr>db_totalEvents = Num 0, db_totalEventsChange = Num 0, db_activeUsers = 0, db_activeUsersChange = Num 0,
      db_eventsPerHour = Num 0, db_eventsPerHourChange = Num 0, db_conversionRate = Num 0,
      db_conversionRateChange = 0,
      db_eventVolumeData = map (\<lambda>i. \<lparr>vp_time = locale_time (now - (23 - i) * 60 * 60 * 1000), vp_events = Num 0\<rparr>) [0..23],
      db_topEvents = [], db_eventDistribution = [], db_geographicDistribution = [], db_deviceTypes = [],
      db_topReferrers = [],
      db_performance = \<lparr>pf_avgResponseTime = Num 0, pf_processingRate = Num 0, pf_errorRate = 0, pf_uptime = 9998 / 100\<rparr>,
      db_liveEvents = []\<rparr>"

definition generateDashboardMetrics :: "'s metrics_env \<Rightarrow> int \<Rightarrow> 's metrics_state \<Rightarrow> dashboard" where
  "generateDashboardMetrics M now st =
     (let R = me_redis M; s = ms_redis st in
      if \<not> isSystemActive M now s then generateInactiveMetrics now
      else
        (let active = getActiveWindowMetrics R now now s;
             (prevTotal, prevUsers) = getPreviousWindowMetrics R now now s;
             totalEventsChange = calculatePercentageChange (wm_totalEvents active) prevTotal;
             activeUsersChange = calculatePercentageChange (Num (int (wm_activeUsers active))) (Num (int prevUsers));
             perHour = num_map (\<lambda>n. n * 12) (wm_totalEvents active)
         in \<lparr>db_totalEvents = wm_totalEvents active, db_totalEventsChange = totalEventsChange,
             db_activeUsers = wm_activeUsers active, db_activeUsersChange = activeUsersChange,
             db_eventsPerHour = perHour, db_eventsPerHourChange = totalEventsChange,
             db_conversionRate = wm_conversionRate active, db_conversionRateChange = 0,
             db_eventVolumeData = generate24HourData R now s,
             db_topEvents = processTopEvents (wm_eventTypes active),
             db_eventDistribution = processEventDistribution (wm_eventTypes active) (wm_totalEvents active),
             db_geographicDistribution = processGeographicData (wm_countries active),
             db_deviceTypes = processDeviceData (wm_devices active),
             db_topReferrers = processReferrerData (wm_referrers active),
             db_performance = \<lparr>pf_avgResponseTime = wm_avgResponseTime active,
               pf_processingRate = num_map (\<lambda>n. max n 1) perHour, pf_errorRate = 2 / 100, pf_uptime = 9998 / 100\<rparr>,
             db_liveEvents = ms_live st\<rparr>))"

text \<open>
  A broadcast goes to the room of the event's owner, or, from the ten-second timer, to the
  room of the id \<^verbatim>\<open>all\<close>; the empty owner id counts as none.
\<close>

definition calculateAndBroadcastDashboardMetrics ::
  "'s metrics_env \<Rightarrow> int \<Rightarrow> string option \<Rightarrow> 's metrics_state \<Rightarrow> string \<times> dashboard" where
  "calculateAndBroadcastDashboardMetrics M now userId st =
     (case userId of
        Some u \<Rightarrow> if u \<noteq> [] then (u, generateDashboardMetrics M now st) else (''all'', generateDashboardMetrics M now st)
      | None \<Rightarrow> (''all'', generateDashboardMetrics M now st))"

text \<open>
  \<^verbatim>\<open>processEvent\<close>: recording, then the broadcast; a dropped event or a failed job broadcasts nothing.
\<close>

definition processEvent ::
  "'s metrics_env \<Rightarrow> int \<Rightarrow> nat \<Rightarrow> string \<Rightarrow> string \<Rightarrow> event_request \<Rightarrow> 's metrics_state
     \<Rightarrow> (string \<times> dashboard) option result \<times> 's metrics_state" where
  "processEvent M now pick rnd userId event st =
     (case record_event M now pick rnd event st of
        (Inl e, st') \<Rightarrow> (Inl e, st')
      | (Inr ok, st') \<Rightarrow>
          (Inr (if ok then Some (calculateAndBroadcastDashboardMetrics M now (Some userId) st') else None), st'))"

text \<open>One tick of the timer: a broadcast, then fresh ages in the live buffer.\<close>

definition metrics_tick :: "'s metrics_env \<Rightarrow> int \<Rightarrow> 's metrics_state \<Rightarrow> (string \<times> dashboard) \<times> 's metrics_state" where
  "metrics_tick M now st =
     (calculateAndBroadcastDashboardMetrics M now None st,
      st\<lparr>ms_live := updateLiveEventsTimeAgo now (ms_live st)\<rparr>)"

text \<open>
  The timer of the service: the intervals that are active in the process, the id the next one gets, and the field that holds the
  service's own. The test of the connection only logs.
\<close>

record metrics_timer =
  tm_active :: "nat list"
  tm_next :: nat
  tm_intervalId :: "nat option"

definition startMetricsAggregation :: "metrics_timer \<Rightarrow> metrics_timer" where
  "startMetricsAggregation tm =
     tm\<lparr>tm_active := tm_active tm @ [tm_next tm], tm_next := Suc (tm_next tm), tm_intervalId := Some (tm_next tm)\<rparr>"

definition testRedisConnection :: "unit result \<Rightarrow> string list" where
  "testRedisConnection ping =
     (case ping of
        Inl error \<Rightarrow> [''Redis connection failed for MetricsAggregationService: '' @ exn_message error]
      | Inr _ \<Rightarrow> [])"

definition metrics_constructor ::
  "int \<Rightarrow> unit result \<Rightarrow> 's \<Rightarrow> metrics_timer \<Rightarrow> 's metrics_state \<times> metrics_timer \<times> string list" where
  "metrics_constructor now ping redisClient tm =
     (\<lparr>ms_redis = redisClient, ms_live = [], ms_lastActivity = now\<rparr>,
      startMetricsAggregation (tm\<lparr>tm_intervalId := None\<rparr>), testRedisConnection ping)"

definition metrics_onModuleDestroy :: "metrics_timer \<Rightarrow> metrics_timer" where
  "metrics_onModuleDestroy tm =
     (case tm_intervalId tm of
        None \<Rightarrow> tm
      | Some i \<Rightarrow> tm\<lparr>tm_active := removeAll i (tm_active tm), tm_intervalId := None\<rparr>)"

text \<open>Destroying the service stops its own interval and no other, and a second time does nothing.\<close>

lemma destroy_stops_own_interval:
  fixes r :: 's and now :: int and ping :: "unit result"
  assumes "tm_next tm \<notin> set (tm_active tm)"
  defines "tm' \<equiv> metrics_onModuleDestroy (fst (snd (metrics_constructor now ping r tm)))"
  shows "tm_active tm' = tm_active tm" and "metrics_onModuleDestroy tm' = tm'"
  using assms(1) by (simp_all add: tm'_def metrics_constructor_def startMetricsAggregation_def metrics_onModuleDestroy_def)

text \<open>The debug endpoint: any user's id gives the same dashboard.\<close>

definition testMetricsAggregation :: "'s metrics_env \<Rightarrow> int \<Rightarrow> string \<Rightarrow> 's metrics_state \<Rightarrow> dashboard" where
  "testMetricsAggregation M now userId st = generateDashboardMetrics M now st"

end
