(* ===== verification/Jobs.thy ===== *)
theory Jobs
  imports Events EventsHttp Gateway Dashboard
begin

text \<open>
  The workers of the queues: events to the database (src/src/events/event-to-db.processor.ts), events to the
  websocket (src/src/websocket/events-websocket.processor.ts), metrics (src/src/metrics/metrics-aggregation.processor.ts),
  and the usage tracker (src/src/events/api-usage-tracker.processor.ts), whose queue nobody fills. A job that
  throws is a failed job; no attempts are configured, so the queue does not try again.
\<close>

section \<open>Parsing the payloads of a batch\<close>

text \<open>\<^verbatim>\<open>events.map\<close> with a throwing function: the first error ends it.\<close>

fun map_result :: "('a \<Rightarrow> 'b result) \<Rightarrow> 'a list \<Rightarrow> 'b list result" where
  "map_result f [] = Inr []"
| "map_result f (x # xs) =
     (case f x of Inl e \<Rightarrow> Inl e
      | Inr y \<Rightarrow> (case map_result f xs of Inl e \<Rightarrow> Inl e | Inr ys \<Rightarrow> Inr (y # ys)))"

lemma map_result_Inr: "map_result f xs = Inr ys \<longleftrightarrow> list_all2 (\<lambda>x y. f x = Inr y) xs ys"
proof (induction xs arbitrary: ys)
  case (Cons x xs)
  show ?case
    by (cases "f x"; cases "map_result f xs") (auto simp: list_all2_Cons1 Cons.IH [symmetric])
qed auto

lemma map_result_Inl: "isl (map_result f xs) \<longleftrightarrow> (\<exists>x \<in> set xs. isl (f x))"
  by (induction xs) (auto split: sum.split)

section \<open>Events to the database\<close>

text \<open>A queued event: its owner, the request, when it was received.\<close>

type_synonym queued_event = "(string \<times> event_request) \<times> int"

definition parsed_event :: "queued_event \<Rightarrow> new_event result" where
  "parsed_event q =
     (let ((ownerId, event), receivedAt) = q in
      case json_parse (er_payload event) of
        Inl e \<Rightarrow> Inl e
      | Inr payload \<Rightarrow>
          Inr \<lparr>ne_ownerId = ownerId, ne_eventName = er_eventName event, ne_payload = payload,
               ne_timestamp = er_timestamp event, ne_tags = er_tags event, ne_category = er_category event,
               ne_severity = er_severity event, ne_receivedAt = receivedAt\<rparr>)"

text \<open>
  The result of the job, the error that is left unhandled, and the database. The payloads are parsed outside
  the \<^verbatim>\<open>try\<close>; inside it, an error would be rethrown with its message.
\<close>

definition event_to_db ::
  "'d event_model \<Rightarrow> queued_event list \<Rightarrow> 'd \<Rightarrow> (unit result \<times> exn option) \<times> 'd" where
  "event_to_db M events d =
     (case map_result parsed_event events of
        Inl e \<Rightarrow> ((Inl e, None), d)
      | Inr parsedEvents \<Rightarrow>
          (case insertBatch M parsedEvents d of
             ((Inl error, u), d') \<Rightarrow> ((Inl (JsError (exn_message error)), u), d')
           | ((Inr _, u), d') \<Rightarrow> ((Inr (), u), d')))"

section \<open>Events to the websocket\<close>

text \<open>An event as it is broadcast: with its payload parsed.\<close>

record ws_event =
  we_event :: event_request
  we_payload :: json

definition parse_ws :: "event_request \<Rightarrow> ws_event result" where
  "parse_ws event =
     (case json_parse (er_payload event) of Inl e \<Rightarrow> Inl e | Inr v \<Rightarrow> Inr \<lparr>we_event = event, we_payload = v\<rparr>)"

datatype push = PushEvents "ws_event list" | PushMetrics dashboard

definition ws_process :: "string \<times> event_request list \<Rightarrow> push gateway \<Rightarrow> unit result \<times> push gateway" where
  "ws_process job g =
     (let (ownerId, events) = job in
      case map_result parse_ws events of
        Inl error \<Rightarrow> (Inl error, g)
      | Inr es \<Rightarrow> (Inr (), broadcastToUser ownerId (PushEvents es) g))"

text \<open>
  The count of events by name, a field of the worker that only \<^verbatim>\<open>aggregateEvents\<close> touches (its call is commented out). The field is an
  object: reading a name it inherits finds a function, to whose text \<open>inherited\<close> the 1 is appended, and assigning to \<^verbatim>\<open>__proto__\<close> does
  nothing.
\<close>

datatype event_tally = Times int | Text string

fun tally_or_zero :: "event_tally \<Rightarrow> event_tally" where
  "tally_or_zero (Text []) = Times 0"
| "tally_or_zero v = v"

fun tally_plus_one :: "event_tally \<Rightarrow> event_tally" where
  "tally_plus_one (Times n) = Times (n + 1)"
| "tally_plus_one (Text t) = Text (t @ ''1'')"

definition own_or_inherited :: "(string \<Rightarrow> string) \<Rightarrow> (string \<rightharpoonup> event_tally) \<Rightarrow> string \<Rightarrow> event_tally" where
  "own_or_inherited inherited eventCount name =
     (case eventCount name of
        Some v \<Rightarrow> v
      | None \<Rightarrow> if name \<in> set inherited_names then Text (inherited name) else Times 0)"

definition aggregate_event :: "(string \<Rightarrow> string) \<Rightarrow> event_request \<Rightarrow> (string \<rightharpoonup> event_tally) \<Rightarrow> (string \<rightharpoonup> event_tally)" where
  "aggregate_event inherited event eventCount =
     (let name = er_eventName event; v = tally_plus_one (tally_or_zero (own_or_inherited inherited eventCount name))
      in if name = ''__proto__'' then eventCount else eventCount(name \<mapsto> v))"

definition aggregateEvents :: "(string \<Rightarrow> string) \<Rightarrow> event_request list \<Rightarrow> (string \<rightharpoonup> event_tally) \<Rightarrow> (string \<rightharpoonup> event_tally)" where
  "aggregateEvents inherited events eventCount = fold (aggregate_event inherited) events eventCount"

lemma aggregateEvents_counts:
  assumes "name \<notin> set inherited_names" and "own_or_inherited inherited eventCount name = Times n"
  shows "own_or_inherited inherited (aggregateEvents inherited events eventCount) name
    = Times (n + int (count_list (map er_eventName events) name))"
  using assms(2)
proof (induction events arbitrary: eventCount n)
  case (Cons e events)
  have "own_or_inherited inherited (aggregate_event inherited e eventCount) name = Times (if er_eventName e = name then n + 1 else n)"
    using assms(1) Cons.prems by (auto simp: aggregate_event_def own_or_inherited_def Let_def inherited_names_def split: if_splits)
  from Cons.IH [OF this] show ?case by (simp add: aggregateEvents_def algebra_simps)
qed (simp add: aggregateEvents_def)

section \<open>Metrics\<close>

definition metrics_process ::
  "'s metrics_env \<Rightarrow> int \<Rightarrow> nat \<Rightarrow> string \<Rightarrow> string \<times> event_request
     \<Rightarrow> 's metrics_state \<times> push gateway \<Rightarrow> unit result \<times> 's metrics_state \<times> push gateway" where
  "metrics_process M now pick rnd job st =
     (let (ownerId, event) = job; (ms, g) = st in
      case processEvent M now pick rnd ownerId event ms of
        (Inl error, ms') \<Rightarrow> (Inl error, ms', g)
      | (Inr None, ms') \<Rightarrow> (Inr (), ms', g)
      | (Inr (Some (room, d)), ms') \<Rightarrow> (Inr (), ms', broadcastMetrics room (PushMetrics d) g))"

section \<open>API-key usage\<close>

definition usage_process ::
  "'d api_key_model \<Rightarrow> string \<Rightarrow> int \<Rightarrow> int \<Rightarrow> 'd \<Rightarrow> api_key option result \<times> 'd" where
  "usage_process M key usageCount usageLimit d =
     (if usageLimit \<le> usageCount then (Inl (RpcException ''''), d)
      else updateApiKeyUsage M key (Num usageCount) d)"

end
