(* ===== verification/EventsHttpProps.thy ===== *)
theory EventsHttpProps
  imports EventsHttp
begin

text \<open>
  Properties of the stored events over HTTP: tenants are separated, the pages of a listing are the matching
  events in order, deletions count and report what they removed.
\<close>

section \<open>Lists\<close>

lemma sorted_wrt_key:
  fixes f :: "'a \<Rightarrow> 'b::linorder"
  shows "sorted_wrt (\<lambda>a b. f a \<le> f b) ys = sorted (map f ys)"
    and "sorted_wrt (\<lambda>a b. f b \<le> f a) ys = sorted (map f (rev ys))"
  by (simp_all add: sorted_map sorted_wrt_rev)

text \<open>Cutting a list into pages and putting them together again.\<close>

lemma pages_take: "0 < n \<Longrightarrow> concat (map (\<lambda>i. take n (drop (i * n) xs)) [0..<k]) = take (k * n) xs"
proof (induction k)
  case (Suc k)
  have "take (Suc k * n) xs = take (k * n) xs @ take n (drop (k * n) xs)"
    by (metis add.commute mult_Suc take_add)
  then show ?case using Suc by simp
qed simp

lemma pages_all: "0 < n \<Longrightarrow> length xs \<le> k * n \<Longrightarrow> concat (map (\<lambda>i. take n (drop (i * n) xs)) [0..<k]) = xs"
  by (simp add: pages_take)

lemma ceiling_pages:
  fixes l :: int
  assumes "0 < l"
  shows "n \<le> nat \<lceil>of_nat n / (of_int l :: rat)\<rceil> * nat l"
proof -
  let ?c = "\<lceil>of_nat n / (of_int l :: rat)\<rceil>"
  have "of_nat n / (of_int l :: rat) \<le> of_int ?c" by (rule le_of_int_ceiling)
  moreover have "(0 :: rat) < of_int l" using assms by simp
  ultimately have "(of_nat n :: rat) \<le> of_int ?c * of_int l" by (simp only: pos_divide_le_eq)
  then have "(of_int (int n) :: rat) \<le> of_int (?c * l)" by simp
  then have le: "int n \<le> ?c * l" by (simp only: of_int_le_iff)
  have "0 \<le> of_nat n / (of_int l :: rat)" using assms by simp
  then have "0 \<le> ?c" by (simp add: le_ceiling_iff)
  with le assms have "int n \<le> int (nat ?c * nat l)" by simp
  then show ?thesis by (simp only: of_nat_le_iff)
qed

section \<open>Listings\<close>

definition matching :: "event_filter \<Rightarrow> event_doc list \<Rightarrow> event_doc list" where
  "matching flt ds = filter (event_matches flt) ds"

definition in_order :: "sort_field \<Rightarrow> bool \<Rightarrow> event_doc list \<Rightarrow> event_doc list" where
  "in_order f asc ds = (if asc then sort_key (event_sort_val f) ds else rev (sort_key (event_sort_val f) ds))"

lemma before_in_key:
  "sorted_wrt (before_in f asc) ys = sorted (map (event_sort_val f) (if asc then ys else rev ys))"
  by (cases asc) (simp_all add: sorted_wrt_key [symmetric] sorted_wrt_rev before_in.simps [abs_def] del: sorted_map)

lemma in_order_unique:
  assumes "sorted_wrt (before_in f asc) ys" and "mset ys = mset ds" and "inj_on (event_sort_val f) (set ds)"
  shows "ys = in_order f asc ds"
proof -
  have "sort_key (event_sort_val f) ds = (if asc then ys else rev ys)"
    using assms by (intro sort_key_inj_key_eq) (simp_all add: before_in_key split: if_splits)
  then show ?thesis by (auto simp: in_order_def)
qed

definition other_events :: "string \<Rightarrow> event_doc list \<Rightarrow> event_doc list" where
  "other_events ow ds = filter (\<lambda>e. ec_ownerId e \<noteq> ow) ds"

lemma getEvents_Inr:
  assumes "getEvents M legacy ow q d = Inr p" and "events_filter legacy ow q = Inr flt"
  shows "em_find M flt (sort_field_of q) (ascending q) ((num_or (q_page q) 1 - 1) * num_or (q_limit q) 50)
      (num_or (q_limit q) 50) d = Inr (ep_events p)"
    and "em_countDocuments M flt d = Inr (ep_total p)" and "ep_page p = num_or (q_page q) 1"
    and "ep_limit p = num_or (q_limit q) 50"
    and "ep_totalPages p = (if ep_total p = 0 then 0 else \<lceil>of_nat (ep_total p) / (of_int (num_or (q_limit q) 50) :: rat)\<rceil>)"
  using assms by (auto simp: getEvents_def repo_getEventsWithFilter_def Let_def split: sum.splits)

lemma events_filter_owner: "events_filter legacy ow q = Inr flt \<Longrightarrow> ef_ownerId flt = ow"
  by (auto simp: events_filter_def Let_def split: option.splits if_splits)

context event_collection
begin

lemma listed:
  assumes "getEvents M legacy ow q d = Inr p" and "events_filter legacy ow q = Inr flt"
    and "1 \<le> num_or (q_page q) 1" and "0 < num_or (q_limit q) 50"
  shows "\<exists>ys. mset ys = mset (matching flt (docs d)) \<and> sorted_wrt (before_in (sort_field_of q) (ascending q)) ys
      \<and> ep_events p = take (nat (ep_limit p)) (drop (nat ((ep_page p - 1) * ep_limit p)) ys)"
proof -
  note g = getEvents_Inr [OF assms(1,2)]
  have "0 \<le> (num_or (q_page q) 1 - 1) * num_or (q_limit q) 50" using assms(3,4) by simp
  from em_find [OF g(1) this assms(4)] show ?thesis by (simp add: matching_def g(3,4))
qed

lemma listed_unique:
  assumes "getEvents M legacy ow q d = Inr p" and "events_filter legacy ow q = Inr flt"
    and "1 \<le> num_or (q_page q) 1" and "0 < num_or (q_limit q) 50"
    and "inj_on (event_sort_val (sort_field_of q)) (set (matching flt (docs d)))"
  shows "ep_events p = take (nat (ep_limit p)) (drop (nat ((ep_page p - 1) * ep_limit p))
      (in_order (sort_field_of q) (ascending q) (matching flt (docs d))))"
  using listed [OF assms(1-4)] in_order_unique [OF _ _ assms(5)] by metis

text \<open>No handler adds or changes an event.\<close>

lemma handler_subset:
  assumes "events_handler M legacy ow req d = (r, d')"
  shows "set (docs d') \<subseteq> set (docs d)"
proof (cases req)
  case (GetEvents q)
  with assms show ?thesis by (auto split: sum.splits)
next
  case (DeleteEvent i)
  obtain r1 d1 where q: "em_deleteOne M i ow d = (r1, d1)" by (cases "em_deleteOne M i ow d")
  then have "d' = d1"
    using assms DeleteEvent by (auto simp: deleteEvent_def repo_deleteEvent_def split: sum.splits if_splits)
  then show ?thesis
    using em_deleteOne [of i ow d] em_deleteOne_Inl [of i ow d] q set_remove_first by (cases r1) fastforce+
next
  case (DeletePatchEvents ids)
  obtain r1 d1 where q: "em_deleteMany M ow ids d = (r1, d1)" by (cases "em_deleteMany M ow ids d")
  then have "d' = d1"
    using assms DeletePatchEvents
    by (auto simp: deleteBatchEvents_def repo_deleteBatchEvents_def split: sum.splits if_splits)
  then show ?thesis
    using em_deleteMany [of ow ids d] em_deleteMany_Inl [of ow ids d] q by (cases r1) fastforce+
qed

lemma delete_others:
  assumes "events_handler M legacy ow req d = (r, d')"
  shows "other_events ow (docs d') = other_events ow (docs d)"
proof -
  have f: "other_events ow (filter (\<lambda>e. \<not> (owned_event ow ids e \<and> P e)) ds) = other_events ow ds" for ids P ds
    by (induction ds) (auto simp: other_events_def owned_event_def)
  have rf: "other_events ow (remove_first (owned_event ow ids) ds) = other_events ow ds" for ids ds
    unfolding other_events_def by (rule filter_remove_first) (simp add: owned_event_def)
  show ?thesis
  proof (cases req)
    case (GetEvents q)
    with assms show ?thesis by (auto split: sum.splits)
  next
    case (DeleteEvent i)
    obtain r1 d1 where q: "em_deleteOne M i ow d = (r1, d1)" by (cases "em_deleteOne M i ow d")
    then have "d' = d1"
      using assms DeleteEvent by (auto simp: deleteEvent_def repo_deleteEvent_def split: sum.splits if_splits)
    then show ?thesis
      using em_deleteOne [of i ow d] em_deleteOne_Inl [of i ow d] q rf by (cases r1) fastforce+
  next
    case (DeletePatchEvents ids)
    obtain r1 d1 where q: "em_deleteMany M ow ids d = (r1, d1)" by (cases "em_deleteMany M ow ids d")
    then have "d' = d1"
      using assms DeletePatchEvents
      by (auto simp: deleteBatchEvents_def repo_deleteBatchEvents_def split: sum.splits if_splits)
    then show ?thesis
      using em_deleteMany [of ow ids d] em_deleteMany_Inl [of ow ids d] q
        f [of _ "\<lambda>e. True"] f by (cases r1) fastforce+
  qed
qed

end

section \<open>A collection in memory\<close>

definition mem_casts :: casts where
  "mem_casts = \<lparr>cs_objectId = (\<lambda>s. Some s),
     cs_date = (\<lambda>s. if s = [] then Some None else case date_of (\<lambda>_. NaN) s of NaN \<Rightarrow> None | Num t \<Rightarrow> Some (Some t)),
     cs_mixed = (\<lambda>v. v)\<rparr>"

definition mem_doc :: "event_content \<Rightarrow> event_doc" where
  "mem_doc c = event_content.extend c \<lparr>ed_id = ec_eventName c, ed_createdAt = 0\<rparr>"

definition mem_events :: "casts \<Rightarrow> event_doc list event_model" where
  "mem_events C = \<lparr>
     em_find = (\<lambda>f srt asc skip limit d.
        if bad_dates f then Inl (JsError ''Cast to date failed'')
        else Inr (take (nat limit) (drop (nat skip) (in_order srt asc (matching f d))))),
     em_countDocuments = (\<lambda>f d. if bad_dates f then Inl (JsError ''Cast to date failed'') else Inr (length (matching f d))),
     em_findOwned = (\<lambda>ow limit skip d. Inr (take (nat limit) (drop (nat skip) (filter (\<lambda>e. ec_ownerId e = ow) d)))),
     em_deleteMany = (\<lambda>ow ids d. (Inr (length (filter (owned_event ow (\<lambda>i. i \<in> set ids)) d)),
        filter (\<lambda>e. \<not> owned_event ow (\<lambda>i. i \<in> set ids) e) d)),
     em_deleteOne = (\<lambda>i ow d. (Inr (if list_ex (owned_event ow ((=) i)) d then 1 else 0), remove_first (owned_event ow ((=) i)) d)),
     em_save = (\<lambda>e d. case event_schema C e of
         None \<Rightarrow> (Inl (JsError ''Event validation failed''), d) | Some c \<Rightarrow> (Inr (mem_doc c), d @ [mem_doc c])),
     em_insertMany = (\<lambda>es d. let new = map mem_doc (List.map_filter (event_schema C) es) in (Inr new, d @ new))\<rparr>"

lemma truncate_mem_doc [simp]: "event_content.truncate (mem_doc c) = c"
  by (cases c) (simp add: mem_doc_def event_content.truncate_def event_content.extend_def)

lemma before_in_order: "sorted_wrt (before_in f asc) (in_order f asc ds)"
  by (simp add: before_in_key in_order_def)

lemma mset_in_order: "mset (in_order f asc ds) = mset ds"
  by (simp add: in_order_def)

interpretation meme: event_collection C "mem_events C" "\<lambda>d. d" for C
proof
  fix f srt asc skip limit d xs
  show "em_find (mem_events C) f srt asc skip limit d = Inr xs \<Longrightarrow> 0 \<le> skip \<Longrightarrow> 0 < limit \<Longrightarrow>
      \<exists>ys. mset ys = mset (filter (event_matches f) d) \<and> sorted_wrt (before_in srt asc) ys
        \<and> xs = take (nat limit) (drop (nat skip) ys)"
    by (rule exI [of _ "in_order srt asc (matching f d)"])
      (simp add: mem_events_def before_in_order mset_in_order matching_def split: if_splits)
  show "em_insertMany (mem_events C) es d = (r, d') \<Longrightarrow>
      \<exists>new. d' = d @ new \<and> subseq (map event_content.truncate new) (List.map_filter (event_schema C) es)" for es r d'
    by (rule exI [of _ "map mem_doc (List.map_filter (event_schema C) es)"])
      (auto simp: mem_events_def Let_def comp_def)
qed (auto simp: mem_events_def matching_def split: if_splits)

text \<open>It takes every document.\<close>

lemma mem_stores: "stores_accepted C (mem_events C) (\<lambda>d. d) (\<lambda>_. True)"
  by (simp add: stores_accepted_def mem_events_def Let_def comp_def)

section \<open>Properties\<close>

text \<open>
  C10: Tenants are separated. Without a valid bearer token the events are not touched and the answer is 401.
  With one, whatever is requested, the events of everybody but the token's subject stay as they are, and each
  event of a listing (of a valid page and limit) is one of the subject's.
\<close>

theorem event_requests_act_as_their_subject:
  assumes "event_collection C M docs" and "eventsController J P now M legacy rq req d = (r, d')"
  shows "(case bearer J P now rq of
      Inl e \<Rightarrow> d' = d \<and> (\<exists>m. r = Inl (HttpException Unauthorized m))
    | Inr c \<Rightarrow> other_events (c_sub c) (docs d') = other_events (c_sub c) (docs d)
        \<and> (\<forall>q p. req = GetEvents q \<and> r = Inr (EventsPage p) \<and> 1 \<le> num_or (q_page q) 1 \<and> 0 < num_or (q_limit q) 50 \<longrightarrow>
             (\<forall>e \<in> set (ep_events p). ec_ownerId e = c_sub c \<and> e \<in> set (docs d))))"
proof (cases "bearer J P now rq")
  case (Inl e)
  with bearer_error [OF Inl] assms(2) show ?thesis by (auto simp: eventsController_cases)
next
  case (Inr c)
  with assms(2) have h: "events_handler M legacy (c_sub c) req d = (r, d')"
    by (simp add: eventsController_cases)
  have "\<forall>e \<in> set (ep_events p). ec_ownerId e = c_sub c \<and> e \<in> set (docs d)"
    if "req = GetEvents q" "r = Inr (EventsPage p)" "1 \<le> num_or (q_page q) 1" "0 < num_or (q_limit q) 50" for q p
  proof -
    from h that have g: "getEvents M legacy (c_sub c) q d = Inr p" by (auto split: sum.splits)
    then obtain flt where f: "events_filter legacy (c_sub c) q = Inr flt"
      by (auto simp: getEvents_def split: sum.splits)
    from event_collection.listed [OF assms(1) g f that(3,4)] obtain ys
      where ys: "mset ys = mset (matching flt (docs d))" "set (ep_events p) \<subseteq> set ys"
      by (metis order_trans set_drop_subset set_take_subset)
    then have "set (ep_events p) \<subseteq> set (matching flt (docs d))" by (metis set_mset_mset)
    then show ?thesis using events_filter_owner [OF f] by (auto simp: matching_def event_matches_def)
  qed
  with event_collection.delete_others [OF assms(1) h] show ?thesis by (simp add: Inr)
qed

theorem event_requests_act_as_their_subject_witness:
  "snd (eventsController mem_jwt \<lparr>jp_secret = None, jp_audience = None, jp_issuer = None\<rparr> 8000 (mem_events mem_casts) (\<lambda>_. NaN)
     \<lparr>rq_authorization = Some ''Basic'', rq_cookies = [], rq_user = None\<rparr> (DeleteEvent ''e1'')
     [mem_doc \<lparr>ec_ownerId = ''u1'', ec_eventName = ''e1'', ec_payload = JNull, ec_category = None, ec_tags = [],
        ec_severity = ''INFO'', ec_timestamp = None\<rparr>]) \<noteq> []"
proof -
  let ?P = "\<lparr>jp_secret = None, jp_audience = None, jp_issuer = None\<rparr>"
  let ?rq = "\<lparr>rq_authorization = Some ''Basic'', rq_cookies = [], rq_user = None\<rparr>"
  have b: "bearer mem_jwt ?P 8000 ?rq
      = Inl (HttpException Unauthorized ''Authentication token is missing. Please log in to continue'')"
    by (simp add: bearer_def extractTokenFromHeader_def)
  show ?thesis
    using event_requests_act_as_their_subject [OF meme.event_collection_axioms prod.collapse [symmetric],
        of mem_jwt ?P 8000 mem_casts "\<lambda>_. NaN" ?rq]
    by (simp add: b)
qed

text \<open>
  C11: The pages are the listing. If no two of the events that match a query agree in the sort field, the pages
  one to \<^verbatim>\<open>totalPages\<close> put together are the matching events in order, each once, and each page reports their
  number. (With equal values the database may order every page differently.)
\<close>

theorem pages_are_the_listing:
  assumes "event_collection C M docs" and "events_filter legacy ow q = Inr flt" and "0 < num_or (q_limit q) 50"
    and "\<And>p. 1 \<le> p \<Longrightarrow> getEvents M legacy ow (q\<lparr>q_page := Some (Num p)\<rparr>) d = Inr (pg p)"
    and "inj_on (event_sort_val (sort_field_of q)) (set (matching flt (docs d)))"
  shows "concat (map (\<lambda>p. ep_events (pg (int p))) [1..<Suc (nat (ep_totalPages (pg 1)))])
        = in_order (sort_field_of q) (ascending q) (matching flt (docs d))
    \<and> ep_total (pg 1) = length (matching flt (docs d))"
proof -
  define l where "l = num_or (q_limit q) 50"
  define xs where "xs = in_order (sort_field_of q) (ascending q) (matching flt (docs d))"
  have f: "events_filter legacy ow (q\<lparr>q_page := Some (Num p)\<rparr>) = Inr flt" for p
    using assms(2) by (simp add: events_filter_def)
  have o: "sort_field_of (q\<lparr>q_page := Some (Num p)\<rparr>) = sort_field_of q" "ascending (q\<lparr>q_page := Some (Num p)\<rparr>) = ascending q" for p
    by (simp_all add: sort_field_of_def ascending_def)
  note page = getEvents_Inr [OF assms(4) f]
  have n: "ep_total (pg 1) = length xs"
    using event_collection.em_countDocuments [OF assms(1) page(2) [of 1]]
    by (simp add: xs_def matching_def in_order_def)
  have item: "ep_events (pg (int p)) = take (nat l) (drop ((p - 1) * nat l) xs)" if "1 \<le> p" for p
  proof -
    have p: "num_or (Some (Num (int p))) 1 = int p" using that by (simp add: num_or_def)
    have "nat ((int p - 1) * l) = (p - 1) * nat l"
      using that assms(3) by (simp add: l_def nat_mult_distrib of_nat_diff [symmetric] del: of_nat_diff)
    with event_collection.listed_unique [OF assms(1) assms(4) f] that assms(3,5) page(3,4) p show ?thesis
      by (simp add: o l_def xs_def)
  qed
  have "concat (map (\<lambda>p. ep_events (pg (int p))) [1..<Suc (nat (ep_totalPages (pg 1)))])
      = concat (map (\<lambda>i. take (nat l) (drop (i * nat l) xs)) [0..<nat (ep_totalPages (pg 1))])"
    unfolding map_Suc_upt [symmetric] One_nat_def by (simp add: item comp_def del: upt_Suc of_nat_Suc)
  also have "\<dots> = xs"
    using ceiling_pages [of l "length xs"] page(5) [of 1] assms(3)
    by (intro pages_all) (simp_all add: n l_def num_or_def)
  finally show ?thesis by (simp add: n xs_def in_order_def)
qed

definition demo_doc :: "string \<Rightarrow> int \<Rightarrow> event_doc" where
  "demo_doc name t = mem_doc \<lparr>ec_ownerId = ''u1'', ec_eventName = name, ec_payload = JObj [], ec_category = None,
     ec_tags = [], ec_severity = ''INFO'', ec_timestamp = Some t\<rparr>"

definition demo_query :: events_query where
  "demo_query = \<lparr>q_page = Some (Num 1), q_limit = Some (Num 2), q_eventName = None, q_category = None, q_severity = None,
     q_fromDate = None, q_toDate = None, q_tags = None, q_sortBy = None, q_sortOrder = Some ''asc''\<rparr>"

definition demo_filter :: event_filter where
  "demo_filter = \<lparr>ef_ownerId = ''u1'', ef_eventName = None, ef_category = None, ef_severity = None, ef_tags = None,
     ef_from = None, ef_to = None\<rparr>"

definition demo_docs :: "event_doc list" where
  "demo_docs = [demo_doc ''c'' 30, demo_doc ''a'' 10, demo_doc ''b'' 20]"

lemma demo_filtered: "events_filter legacy ''u1'' (demo_query\<lparr>q_page := p\<rparr>) = Inr demo_filter"
  by (simp add: events_filter_def demo_query_def demo_filter_def non_empty_def)

lemma demo_matching: "matching demo_filter demo_docs = demo_docs"
  by (simp add: matching_def demo_docs_def demo_doc_def mem_doc_def event_content.extend_def event_matches_def
      demo_filter_def opt_holds_def)

lemma demo_page_ok: "\<exists>p. getEvents (mem_events mem_casts) legacy ''u1'' (demo_query\<lparr>q_page := Some (Num n)\<rparr>) demo_docs = Inr p"
  by (simp add: getEvents_def demo_filtered repo_getEventsWithFilter_def mem_events_def bad_dates_def demo_filter_def Let_def)

theorem pages_are_the_listing_witness:
  "let pg = \<lambda>p. projr (getEvents (mem_events mem_casts) (\<lambda>_. NaN) ''u1'' (demo_query\<lparr>q_page := Some (Num p)\<rparr>) demo_docs)
   in concat (map (\<lambda>p. ep_events (pg (int p))) [1..<Suc (nat (ep_totalPages (pg 1)))])
      = in_order ByTimestamp True demo_docs"
proof -
  let ?M = "mem_events mem_casts"
  let ?pg = "\<lambda>p. projr (getEvents ?M (\<lambda>_. NaN) ''u1'' (demo_query\<lparr>q_page := Some (Num p)\<rparr>) demo_docs)"
  have q: "events_filter (\<lambda>_. NaN) ''u1'' demo_query = Inr demo_filter"
    using demo_filtered [of "\<lambda>_. NaN" "Some (Num 1)"] by (simp add: demo_query_def)
  have l: "0 < num_or (q_limit demo_query) 50" by (simp add: demo_query_def num_or_def)
  have s: "sort_field_of demo_query = ByTimestamp" "ascending demo_query = True"
    by (simp_all add: demo_query_def sort_field_of_def ascending_def)
  have g: "getEvents ?M (\<lambda>_. NaN) ''u1'' (demo_query\<lparr>q_page := Some (Num p)\<rparr>) demo_docs = Inr (?pg p)" if "1 \<le> p" for p
    using demo_page_ok [of "\<lambda>_. NaN" p] by auto
  have i: "inj_on (event_sort_val (sort_field_of demo_query)) (set (matching demo_filter demo_docs))"
    by (simp add: demo_matching s) (simp add: demo_docs_def demo_doc_def mem_doc_def event_content.extend_def)
  have "concat (map (\<lambda>p. ep_events (?pg (int p))) [1..<Suc (nat (ep_totalPages (?pg 1)))])
      = in_order (sort_field_of demo_query) (ascending demo_query) (matching demo_filter demo_docs)"
    by (rule pages_are_the_listing [OF meme.event_collection_axioms q l g i, THEN conjunct1])
  then show ?thesis unfolding Let_def s demo_matching .
qed

text \<open>
  Which queries fail, and how. A range whose dates are the wrong way round is refused with 400; a date that
  passed the ISO check but that \<^verbatim>\<open>new Date\<close> cannot read (a week date, say) is not: the database rejects it and the
  caller gets a 500.
\<close>

theorem bad_dates_of_a_query:
  assumes "event_collection C M docs" and "non_empty (q_fromDate q) = Some a"
  shows "(non_empty (q_toDate q) = Some b \<and> num_gt (date_of legacy a) (date_of legacy b) \<longrightarrow>
        getEvents M legacy ow q d = Inl bad_range)
    \<and> (date_of legacy a = NaN \<longrightarrow> (\<exists>m. getEvents M legacy ow q d = Inl (HttpException InternalServerError m)))"
proof -
  have "\<exists>m. getEvents M legacy ow q d = Inl (HttpException InternalServerError m)" if nan: "date_of legacy a = NaN"
  proof -
    obtain flt where f: "events_filter legacy ow q = Inr flt" "ef_from flt = Some NaN"
      using assms(2) nan by (cases "non_empty (q_toDate q)") (auto simp: events_filter_def Let_def)
    then have "isl (em_find M flt srt asc skip limit d)" for srt asc skip limit
      by (intro event_collection.em_find_bad [OF assms(1)]) (simp add: bad_dates_def)
    then obtain e where "em_find M flt (sort_field_of q) (ascending q) ((num_or (q_page q) 1 - 1) * num_or (q_limit q) 50)
        (num_or (q_limit q) 50) d = Inl e"
      by (metis isl_def)
    then show ?thesis by (simp add: getEvents_def f(1) repo_getEventsWithFilter_def Let_def)
  qed
  then show ?thesis
    using assms(2) by (auto simp: getEvents_def events_filter_def Let_def)
qed

theorem bad_dates_of_a_query_witness:
  "\<exists>m. getEvents (mem_events mem_casts) (\<lambda>_. NaN) ''u1'' (demo_query\<lparr>q_fromDate := Some ''2009-W01-1''\<rparr>) demo_docs
    = Inl (HttpException InternalServerError m)"
proof -
  have "parse_iso ''2009-W01-1'' = None" by code_simp
  then have n: "date_of (\<lambda>_. NaN) ''2009-W01-1'' = NaN" by (simp add: date_of_def)
  have a: "non_empty (q_fromDate (demo_query\<lparr>q_fromDate := Some ''2009-W01-1''\<rparr>)) = Some ''2009-W01-1''"
    by (simp add: non_empty_def)
  show ?thesis
    by (rule bad_dates_of_a_query [OF meme.event_collection_axioms a, THEN conjunct2, rule_format, OF n])
qed

text \<open>
  C36: What a deletion answers. When the database carries it out, a deletion that removes nothing leaves the
  collection as it is and is an error, 400 for one event but 500 for a batch; otherwise the answer counts the
  subject's events with the ids, and exactly they are gone (of a single id the first).
\<close>

theorem deletion_counts:
  assumes "event_collection C M docs" and "em_deleteMany M ow ids d = (Inr k, dm)" and "em_deleteOne M i ow d = (Inr k1, d1)"
  shows "(let hits = filter (owned_event ow (\<lambda>i. i \<in> set ids)) (docs d) in
      if hits = []
      then fst (deleteBatchEvents M ow ids d) = Inl (HttpException InternalServerError (exn_message no_match)) \<and> docs dm = docs d
      else deleteBatchEvents M ow ids d = (Inr (deleted (length hits)), dm)
        \<and> docs dm = filter (\<lambda>e. \<not> (ec_ownerId e = ow \<and> ed_id e \<in> set ids)) (docs d))
    \<and> (if list_ex (owned_event ow ((=) i)) (docs d)
      then deleteEvent M ow i d = (Inr (deleted 1), d1) \<and> docs d1 = remove_first (owned_event ow ((=) i)) (docs d)
      else deleteEvent M ow i d = (Inl (HttpException BadRequest (exn_message no_match)), d1) \<and> docs d1 = docs d)"
proof -
  have none: "\<not> list_ex p xs \<Longrightarrow> remove_first p xs = xs" for p :: "event_doc \<Rightarrow> bool" and xs
    by (induction xs) auto
  have miss: "docs d = filter (\<lambda>e. \<not> (ec_ownerId e = ow \<and> ed_id e \<in> set ids)) (docs d)"
    if "filter (owned_event ow (\<lambda>i. i \<in> set ids)) (docs d) = []"
    using that by (intro filter_True [symmetric]) (auto simp: filter_empty_conv owned_event_def)
  show ?thesis
    using event_collection.em_deleteMany [OF assms(1,2)] event_collection.em_deleteOne [OF assms(1,3)] assms(2,3) miss
    by (auto simp: deleteBatchEvents_def repo_deleteBatchEvents_def deleteEvent_def repo_deleteEvent_def no_match_def
        owned_event_def none Let_def)
qed

theorem deletion_counts_witness:
  "fst (deleteBatchEvents (mem_events mem_casts) ''u1'' [''a'', ''zz''] demo_docs) = Inr (deleted 1)"
proof -
  let ?M = "mem_events mem_casts"
  have h: "filter (owned_event ''u1'' (\<lambda>i. i \<in> set [''a'', ''zz''])) demo_docs = [demo_doc ''a'' 10]"
    by (simp add: demo_docs_def demo_doc_def mem_doc_def event_content.extend_def owned_event_def)
  have e: "em_deleteMany ?M ''u1'' [''a'', ''zz''] demo_docs
      = (Inr 1, filter (\<lambda>e. \<not> owned_event ''u1'' (\<lambda>i. i \<in> set [''a'', ''zz'']) e) demo_docs)"
    "em_deleteOne ?M ''q'' ''u1'' demo_docs
      = (Inr (if list_ex (owned_event ''u1'' ((=) ''q'')) demo_docs then 1 else 0), remove_first (owned_event ''u1'' ((=) ''q'')) demo_docs)"
    by (simp_all only: mem_events_def event_model.simps h) simp_all
  show ?thesis
    using deletion_counts [OF meme.event_collection_axioms e, THEN conjunct1] by (simp only: h Let_def) simp
qed

end
