(* ===== verification/Tally.thy ===== *)
theory Tally
  imports Dashboard
begin

text \<open>
  Counting in Redis hashes: the effect of a bump (increments of some fields of a key, then its expiry) on
  the entry of that key, the invariant that a family of keys holds exactly the counts of the
  events of each period as long as they are unexpired, and the sums that merging gives.
\<close>

section \<open>Keys\<close>

lemma metric_key_inject [simp]:
  "metric_key f (show_int i) = metric_key g (show_int j) \<longleftrightarrow> f = g \<and> i = j"
proof
  assume "metric_key f (show_int i) = metric_key g (show_int j)"
  then have "f @ '':'' @ show_int i = g @ '':'' @ show_int j" by (simp add: metric_key_def)
  then have "rev (show_int i) @ CHR '':'' # rev f = rev (show_int j) @ CHR '':'' # rev g"
    by (metis append.assoc append_Cons append_Nil rev.simps(2) rev_append rev_rev_ident)
  from append_sep_inject [OF _ _ this] show "f = g \<and> i = j" by simp
qed simp

lemma metric_key_not_activity [simp]: "metric_key f (show_int i) \<noteq> ''metrics:last_activity''"
proof
  assume "metric_key f (show_int i) = ''metrics:last_activity''"
  then have "f @ '':'' @ show_int i = ''last_activity''" by (simp add: metric_key_def)
  then have "CHR '':'' \<in> set ''last_activity''" by (metis in_set_conv_decomp append_Cons append_Nil)
  then show False by simp
qed

lemma activity_not_metric_key [simp]: "''metrics:last_activity'' \<noteq> metric_key f (show_int i)"
  by (rule metric_key_not_activity [symmetric])

section \<open>The effect of a command on its own entry\<close>

definition entry_hincrby :: "int \<Rightarrow> string \<Rightarrow> entry option \<Rightarrow> entry option" where
  "entry_hincrby now f e = ks_hincrby now [] f 1 (\<lambda>_. e) []"

definition entry_expire :: "int \<Rightarrow> int \<Rightarrow> entry option \<Rightarrow> entry option" where
  "entry_expire now ttl e = ks_expire now [] ttl (\<lambda>_. e) []"

definition entry_bump :: "int \<Rightarrow> string list \<Rightarrow> int \<Rightarrow> entry option \<Rightarrow> entry option" where
  "entry_bump now fs ttl e = entry_expire now ttl (fold (entry_hincrby now) fs e)"

lemma ks_hincrby_at [simp]: "ks_hincrby now k f 1 K k = entry_hincrby now f (K k)"
  by (simp add: entry_hincrby_def ks_hincrby_def ks_update_def live_def split: option.split)

lemma ks_expire_at [simp]: "ks_expire now k ttl K k = entry_expire now ttl (K k)"
  by (simp add: entry_expire_def ks_expire_def live_def split: option.split)

text \<open>A hash that holds exactly the counts \<open>n\<close>: a field for each positive one.\<close>

definition tally :: "dict \<Rightarrow> (string \<Rightarrow> int) \<Rightarrow> bool" where
  "tally h n = (distinct (map fst h) \<and>
     (\<forall>f. 0 \<le> n f \<and> map_of h f = (if n f = 0 then None else Some (show_int (n f)))))"

lemma tally_Nil: "tally [] (\<lambda>f. 0)"
  by (simp add: tally_def)

lemma tally_incr: "tally h n \<Longrightarrow> tally (AList.update f (show_int (n f + 1)) h) (\<lambda>g. n g + (if g = f then 1 else 0))"
  by (auto simp: tally_def distinct_update update_conv' add_nonneg_eq_0_iff)

lemma entry_hincrby_tally:
  assumes "tally h n" and "e = None \<and> h = [] \<or> e = Some (RHash h, d) \<and> unexpired now d"
  shows "\<exists>h' d'. entry_hincrby now f e = Some (RHash h', d') \<and> unexpired now d'
    \<and> tally h' (\<lambda>g. n g + (if g = f then 1 else 0))"
proof -
  have "counter_val (map_of h f) = Some (n f)" using assms(1) by (simp add: tally_def)
  moreover have "n f = 0" if "h = []" using assms(1) that by (auto simp: tally_def split: if_splits)
  ultimately show ?thesis
    using assms(2) tally_incr [OF assms(1), of f]
    by (auto simp: entry_hincrby_def ks_hincrby_def ks_update_def live_def hincrby_val_def unexpired_def)
qed

lemma fold_hincrby_tally:
  assumes "tally h n" and "e = None \<and> h = [] \<or> e = Some (RHash h, d) \<and> unexpired now d" and "fs \<noteq> []"
  shows "\<exists>h' d'. fold (entry_hincrby now) fs e = Some (RHash h', d') \<and> unexpired now d'
    \<and> tally h' (\<lambda>g. n g + int (count_list fs g))"
  using assms
proof (induction fs arbitrary: h n e d)
  case (Cons f fs)
  obtain h1 d1 where s: "entry_hincrby now f e = Some (RHash h1, d1)" "unexpired now d1"
      "tally h1 (\<lambda>g. n g + (if g = f then 1 else 0))"
    using entry_hincrby_tally [OF Cons.prems(1,2)] by blast
  show ?case
  proof (cases "fs = []")
    case True
    have "(\<lambda>g. n g + (if g = f then 1 else 0)) = (\<lambda>g. n g + int (count_list [f] g))" by auto
    with True s show ?thesis by simp
  next
    case False
    have "(\<lambda>g. n g + (if g = f then 1 else 0) + int (count_list fs g)) = (\<lambda>g. n g + int (count_list (f # fs) g))"
      by auto
    with Cons.IH [OF s(3) _ False, of "Some (RHash h1, d1)" d1] s show ?thesis by simp
  qed
qed simp

lemma entry_bump_tally:
  assumes "tally h n" and "e = None \<and> h = [] \<or> e = Some (RHash h, d) \<and> unexpired now d" and "fs \<noteq> []"
  shows "\<exists>h'. entry_bump now fs ttl e = Some (RHash h', Some (now + 1000 * ttl))
    \<and> tally h' (\<lambda>g. n g + int (count_list fs g))"
  using fold_hincrby_tally [OF assms]
  by (auto simp: entry_bump_def entry_expire_def ks_expire_def live_def)

section \<open>A family of periodic counters\<close>

text \<open>
  The events so far, oldest first, with the times they were processed at; \<open>flds\<close> lists the fields an
  event increments.
\<close>

definition period_events :: "int \<Rightarrow> ('x \<Rightarrow> string list) \<Rightarrow> int \<Rightarrow> (int \<times> 'x) list \<Rightarrow> (int \<times> 'x) list" where
  "period_events P flds m evs = filter (\<lambda>(now, x). now div P = m \<and> flds x \<noteq> []) evs"

definition field_count :: "('x \<Rightarrow> string list) \<Rightarrow> (int \<times> 'x) list \<Rightarrow> string \<Rightarrow> int" where
  "field_count flds evs f = sum_list (map (\<lambda>(now, x). int (count_list (flds x) f)) evs)"

definition family_inv ::
  "int \<Rightarrow> int \<Rightarrow> ('x \<Rightarrow> string list) \<Rightarrow> (int \<Rightarrow> string) \<Rightarrow> (int \<times> 'x) list \<Rightarrow> keyspace \<Rightarrow> bool" where
  "family_inv P ttl flds key evs K = (\<forall>m.
     let E = period_events P flds m evs in
     if E = [] then K (key m) = None
     else \<exists>h. K (key m) = Some (RHash h, Some (fst (last E) + 1000 * ttl)) \<and> tally h (field_count flds E))"

lemma field_count_append: "field_count flds (xs @ ys) f = field_count flds xs f + field_count flds ys f"
  by (simp add: field_count_def)

lemma field_count_Nil [simp]: "field_count flds [] f = 0"
  by (simp add: field_count_def)

lemma field_count_nonneg: "0 \<le> field_count flds xs f"
  by (induction xs) (auto simp: field_count_def)

lemma period_events_append:
  "period_events P flds m (xs @ ys) = period_events P flds m xs @ period_events P flds m ys"
  by (simp add: period_events_def)

lemma div_gap:
  fixes a b P :: int
  assumes "0 < P" and "a div P = b div P"
  shows "b - a < P"
proof -
  have "P * (b div P) + b mod P = b" "P * (a div P) + a mod P = a" by simp_all
  moreover have "0 \<le> a mod P" "b mod P < P" using assms(1) by simp_all
  moreover have "P * (b div P) = P * (a div P)" using assms(2) by simp
  ultimately show ?thesis by linarith
qed

lemma family_emptyD:
  "family_inv P ttl flds key evs K \<Longrightarrow> period_events P flds m evs = [] \<Longrightarrow> K (key m) = None"
  unfolding family_inv_def Let_def by metis

lemma family_entryD:
  "family_inv P ttl flds key evs K \<Longrightarrow> period_events P flds m evs \<noteq> [] \<Longrightarrow>
   \<exists>h. K (key m) = Some (RHash h, Some (fst (last (period_events P flds m evs)) + 1000 * ttl))
     \<and> tally h (field_count flds (period_events P flds m evs))"
  unfolding family_inv_def Let_def by metis

lemma family_step:
  assumes "family_inv P ttl flds key evs K" and "0 < P" and "P \<le> 1000 * ttl"
    and "\<And>m. K' (key m) = (if now div P = m \<and> flds x \<noteq> [] then entry_bump now (flds x) ttl (K (key m)) else K (key m))"
  shows "family_inv P ttl flds key (evs @ [(now, x)]) K'"
  unfolding family_inv_def
proof (rule allI)
  fix m
  let ?E = "period_events P flds m evs"
  show "let E = period_events P flds m (evs @ [(now, x)]) in
     if E = [] then K' (key m) = None
     else \<exists>h. K' (key m) = Some (RHash h, Some (fst (last E) + 1000 * ttl)) \<and> tally h (field_count flds E)"
  proof (cases "now div P = m \<and> flds x \<noteq> []")
    case False
    then have "period_events P flds m (evs @ [(now, x)]) = ?E" by (auto simp: period_events_def)
    moreover have "K' (key m) = K (key m)" using False assms(4) by presburger
    ultimately show ?thesis
      using family_emptyD [OF assms(1), of m] family_entryD [OF assms(1), of m] by (simp add: Let_def)
  next
    case True
    then have e: "period_events P flds m (evs @ [(now, x)]) = ?E @ [(now, x)]" by (simp add: period_events_def)
    obtain h d where t: "tally h (field_count flds ?E)"
      "K (key m) = None \<and> h = [] \<or> K (key m) = Some (RHash h, d) \<and> unexpired now d"
    proof (cases "?E = []")
      case True
      then have "field_count flds ?E = (\<lambda>f. 0)" by auto
      then show ?thesis
        using tally_Nil family_emptyD [OF assms(1) True] by (intro that [of "[]" None]) simp_all
    next
      case False
      then have "last ?E \<in> set ?E" by simp
      then have "fst (last ?E) div P = m" by (auto simp: period_events_def)
      with True assms(2,3) have u: "now < fst (last ?E) + 1000 * ttl"
        using div_gap [of P "fst (last ?E)" now] by simp
      obtain h where "K (key m) = Some (RHash h, Some (fst (last ?E) + 1000 * ttl))" "tally h (field_count flds ?E)"
        using family_entryD [OF assms(1) False] by blast
      then show ?thesis using u by (intro that [of h "Some (fst (last ?E) + 1000 * ttl)"]) (simp_all add: unexpired_def)
    qed
    obtain h' where "entry_bump now (flds x) ttl (K (key m)) = Some (RHash h', Some (now + 1000 * ttl))"
      "tally h' (\<lambda>g. field_count flds ?E g + int (count_list (flds x) g))"
      using entry_bump_tally [OF t] True by blast
    moreover have "(\<lambda>g. field_count flds ?E g + int (count_list (flds x) g)) = field_count flds (?E @ [(now, x)])"
      by (rule ext) (simp add: field_count_append field_count_def)
    moreover have "K' (key m) = entry_bump now (flds x) ttl (K (key m))" using True assms(4) by presburger
    ultimately show ?thesis by (simp add: e)
  qed
qed

lemma family_start: "(\<And>m. K (key m) = None) \<Longrightarrow> family_inv P ttl flds key [] K"
  by (simp add: family_inv_def period_events_def)

context redis_server
begin

text \<open>Reading a period whose last event is unexpired gives its counts, an expired one nothing.\<close>

lemma family_read:
  assumes "family_inv P ttl flds key evs (ks s)"
    and "period_events P flds m evs \<noteq> [] \<Longrightarrow> t < fst (last (period_events P flds m evs)) + 1000 * ttl"
  shows "tally (rd_hgetall R t (key m) s) (field_count flds (period_events P flds m evs))"
proof (cases "period_events P flds m evs = []")
  case True
  then have "ks s (key m) = None" by (rule family_emptyD [OF assms(1)])
  then have "rd_hgetall R t (key m) s = []" by (simp add: hgetall_empty ks_hash_def live_def)
  moreover have "field_count flds (period_events P flds m evs) = (\<lambda>f. 0)" using True by auto
  ultimately show ?thesis by (simp add: tally_Nil)
next
  case False
  then obtain h where h: "ks s (key m) = Some (RHash h, Some (fst (last (period_events P flds m evs)) + 1000 * ttl))"
      "tally h (field_count flds (period_events P flds m evs))"
    using family_entryD [OF assms(1)] by blast
  then have "map_of (rd_hgetall R t (key m) s) = map_of h"
    using assms(2) [OF False] by (simp add: hgetall_map ks_hash_def live_def unexpired_def)
  then show ?thesis using h(2) hgetall_distinct by (simp add: tally_def)
qed

lemma family_expired:
  assumes "family_inv P ttl flds key evs (ks s)"
    and "period_events P flds m evs \<noteq> [] \<Longrightarrow> fst (last (period_events P flds m evs)) + 1000 * ttl \<le> t"
  shows "rd_hgetall R t (key m) s = []"
proof (cases "period_events P flds m evs = []")
  case True
  then have "ks s (key m) = None" by (rule family_emptyD [OF assms(1)])
  then show ?thesis by (simp add: hgetall_empty ks_hash_def live_def)
next
  case False
  then obtain h where "ks s (key m) = Some (RHash h, Some (fst (last (period_events P flds m evs)) + 1000 * ttl))"
    using family_entryD [OF assms(1)] by blast
  then show ?thesis
    using assms(2) [OF False] by (simp add: hgetall_empty ks_hash_def live_def unexpired_def)
qed

end

section \<open>Merging\<close>

text \<open>A merged dictionary holds the sums, under all names but the inherited ones.\<close>

definition merge_value :: "string option \<Rightarrow> string option \<Rightarrow> string option" where
  "merge_value x y = (case y of None \<Rightarrow> x
     | Some v \<Rightarrow> (case x of None \<Rightarrow> Some v
        | Some u \<Rightarrow> if u = [] then Some v else Some (show_num (parseInt u + parseInt v))))"

lemma merge_one_other: "k \<noteq> fst kv \<Longrightarrow> map_of (merge_one kv d) k = map_of d k"
  by (auto simp: merge_one_def map_of_dict_set Let_def split: prod.split option.split)

lemma merge_one_same:
  "k \<notin> set inherited_names \<Longrightarrow> map_of (merge_one (k, v) d) k = merge_value (map_of d k) (Some v)"
  by (auto simp: merge_one_def map_of_dict_set merge_value_def inherited_names_def split: option.split)

lemma merge_map_of:
  assumes "distinct (map fst src)" and "k \<notin> set inherited_names"
  shows "map_of (mergeRedisDataInPlace d src) k = merge_value (map_of d k) (map_of src k)"
  using assms(1)
proof (induction src arbitrary: d)
  case Nil
  then show ?case by (simp add: mergeRedisDataInPlace_def merge_value_def)
next
  case (Cons kv src)
  obtain k' v where kv: "kv = (k', v)" by (cases kv)
  have "map_of (mergeRedisDataInPlace d (kv # src)) k = merge_value (map_of (merge_one kv d) k) (map_of src k)"
    using Cons by (simp add: mergeRedisDataInPlace_def)
  also have "\<dots> = merge_value (map_of d k) (map_of (kv # src) k)"
  proof (cases "k = k'")
    case True
    then have "map_of src k = None" using Cons.prems kv by (simp add: map_of_eq_None_iff)
    with True merge_one_same [OF assms(2), of v d] show ?thesis by (simp add: kv merge_value_def)
  next
    case False
    then show ?thesis by (simp add: kv merge_one_other)
  qed
  finally show ?case .
qed

definition merged_tally :: "dict \<Rightarrow> (string \<Rightarrow> int) \<Rightarrow> bool" where
  "merged_tally d n = (\<forall>f. f \<notin> set inherited_names \<longrightarrow>
     0 \<le> n f \<and> map_of d f = (if n f = 0 then None else Some (show_int (n f))))"

lemma merge_tally:
  assumes "merged_tally d n" and "tally src m"
  shows "merged_tally (mergeRedisDataInPlace d src) (\<lambda>f. n f + m f)"
  unfolding merged_tally_def
proof (intro allI impI)
  fix f
  assume f: "f \<notin> set inherited_names"
  have "distinct (map fst src)" and m: "0 \<le> m f" "map_of src f = (if m f = 0 then None else Some (show_int (m f)))"
    using assms(2) by (auto simp: tally_def)
  moreover have n: "0 \<le> n f" "map_of d f = (if n f = 0 then None else Some (show_int (n f)))"
    using assms(1) f by (auto simp: merged_tally_def)
  ultimately show "0 \<le> n f + m f \<and> map_of (mergeRedisDataInPlace d src) f
      = (if n f + m f = 0 then None else Some (show_int (n f + m f)))"
    using merge_map_of [OF _ f, of src d] by (auto simp: merge_value_def)
qed

lemma parseInt_zero: "parseInt ''0'' = Num 0"
proof -
  have "show_int 0 = ''0''" by (simp add: show_int_def show_nat.simps digit_char_def char_of_def bit_0)
  then show ?thesis using parseInt_show_int [of 0] by simp
qed

lemma field_or_zero_of:
  "map_of d f = (if i = 0 then None else Some (show_int i)) \<Longrightarrow> field_or_zero d f = Num i"
  by (cases "i = 0") (simp_all add: field_or_zero_def parseInt_zero)

lemma field_or_zero_tally:
  "merged_tally d n \<Longrightarrow> f \<notin> set inherited_names \<Longrightarrow> field_or_zero d f = Num (n f)"
  by (rule field_or_zero_of) (simp add: merged_tally_def)

lemma field_or_zero_full: "tally d n \<Longrightarrow> field_or_zero d f = Num (n f)"
  by (rule field_or_zero_of) (simp add: tally_def)

text \<open>Without inherited names among the fields the merged dictionary is exactly the tally.\<close>

lemma merge_one_keys: "set (map fst (merge_one kv d)) \<subseteq> insert (fst kv) (set (map fst d))"
proof
  fix k
  assume "k \<in> set (map fst (merge_one kv d))"
  then have "map_of (merge_one kv d) k \<noteq> None" by (simp add: map_of_eq_None_iff)
  then have "k = fst kv \<or> map_of d k \<noteq> None" using merge_one_other [of k kv d] by metis
  then show "k \<in> insert (fst kv) (set (map fst d))"
    by (metis insertCI map_of_eq_None_iff set_map)
qed

lemma merge_keys: "set (map fst (mergeRedisDataInPlace d src)) \<subseteq> set (map fst d) \<union> set (map fst src)"
proof (induction src arbitrary: d)
  case (Cons kv src)
  have "mergeRedisDataInPlace d (kv # src) = mergeRedisDataInPlace (merge_one kv d) src"
    by (simp add: mergeRedisDataInPlace_def)
  then show ?case using Cons [of "merge_one kv d"] merge_one_keys [of kv d] by auto
qed (simp add: mergeRedisDataInPlace_def)

lemma distinct_merge_one: "distinct (map fst d) \<Longrightarrow> distinct (map fst (merge_one kv d))"
  by (auto simp: merge_one_def Let_def distinct_dict_set split: prod.split option.split)

lemma distinct_merge: "distinct (map fst d) \<Longrightarrow> distinct (map fst (mergeRedisDataInPlace d src))"
  unfolding mergeRedisDataInPlace_def
  by (rule fold_invariant_list [of "\<lambda>d. distinct (map fst d)"]) (auto intro: distinct_merge_one)

lemma tally_merge:
  assumes "tally d n" and "tally src m" and "\<And>f. f \<in> set inherited_names \<Longrightarrow> n f = 0 \<and> m f = 0"
  shows "tally (mergeRedisDataInPlace d src) (\<lambda>f. n f + m f)"
proof -
  have "merged_tally d n" using assms(1) by (simp add: tally_def merged_tally_def)
  note mt = merge_tally [OF this assms(2)]
  have "map_of (mergeRedisDataInPlace d src) f = None" if "f \<in> set inherited_names" for f
  proof -
    have "map_of d f = None" "map_of src f = None"
      using assms that by (simp_all add: tally_def)
    then show ?thesis using merge_keys [of d src] by (auto simp: map_of_eq_None_iff)
  qed
  moreover have "distinct (map fst (mergeRedisDataInPlace d src))"
    using assms(1) by (intro distinct_merge) (simp add: tally_def)
  ultimately show ?thesis
    using mt assms(1,2,3) unfolding tally_def merged_tally_def by (metis add.right_neutral add_nonneg_nonneg)
qed

end
