(* ===== verification/MetricsEffects.thy ===== *)
theory MetricsEffects
  imports Tally
begin

text \<open>
  What recording events does to Redis, family by family: each counting family bumps the fields of the event
  at the key of the event's period and nothing else, so that after any history the
  families hold the counts of \<open>Tally\<close>.
\<close>

section \<open>The fields an event increments\<close>

text \<open>
  An event as it was recorded: the drawn country index, the request, the parsed payload.
\<close>

record recorded =
  rc_pick :: nat
  rc_event :: event_request
  rc_payload :: json

definition single_arg :: "string list \<Rightarrow> string list" where
  "single_arg args = (case args of [a] \<Rightarrow> [a] | _ \<Rightarrow> [])"

definition label_fields :: "(rat \<Rightarrow> string) \<Rightarrow> string \<Rightarrow> json \<Rightarrow> json \<Rightarrow> string list" where
  "label_fields sn field dflt payload =
     (case prop_or payload field dflt of Inl e \<Rightarrow> [] | Inr v \<Rightarrow> single_arg (redis_args sn v))"

definition volume_fields :: "recorded \<Rightarrow> string list" where
  "volume_fields x = [''total_events'', er_eventName (rc_event x)]"

definition type_fields :: "recorded \<Rightarrow> string list" where
  "type_fields x = [er_eventName (rc_event x)]"

definition conversion_fields :: "recorded \<Rightarrow> string list" where
  "conversion_fields x =
     (if rc_payload x \<noteq> JNull \<and> er_eventName (rc_event x) \<in> set conversion_events
      then [er_eventName (rc_event x)] else [])"

definition device_fields :: "(rat \<Rightarrow> string) \<Rightarrow> recorded \<Rightarrow> string list" where
  "device_fields sn x = label_fields sn ''device'' (JStr ''unknown'') (rc_payload x)"

definition referrer_fields :: "(rat \<Rightarrow> string) \<Rightarrow> recorded \<Rightarrow> string list" where
  "referrer_fields sn x = label_fields sn ''referrer'' (JStr ''Direct'') (rc_payload x)"

definition country_fields :: "(rat \<Rightarrow> string) \<Rightarrow> recorded \<Rightarrow> string list" where
  "country_fields sn x = label_fields sn ''country''
     (JStr (getCountryFromIP (rc_pick x)
       (case get_prop (rc_payload x) ''ip'' of Inr v \<Rightarrow> v | Inl e \<Rightarrow> None))) (rc_payload x)"

lemma prop_or_null: "isl (prop_or p f d) = (p = JNull)"
  by (cases p) (auto simp: prop_or_def split: option.split)

lemma prop_or_cases:
  obtains (null) "p = JNull" and "\<And>f d. prop_or p f d = Inl null_property_error"
  | (props) "p \<noteq> JNull" and "\<And>f d. \<exists>v. prop_or p f d = Inr v"
proof (cases "p = JNull")
  case True
  then show ?thesis by (intro null) (simp_all add: prop_or_def)
next
  case False
  then have "\<exists>v. prop_or p f d = Inr v" for f d
    using prop_or_null [of p f d] by (cases "prop_or p f d") auto
  with False show ?thesis by (rule props)
qed

section \<open>Effects of the updates\<close>

context redis_server
begin

lemma count_value_at:
  "ks (count_value R now (metric_key f (show_int i)) args ttl s) (metric_key g (show_int j)) =
     (if f = g \<and> i = j \<and> single_arg args \<noteq> [] then entry_bump now (single_arg args) ttl (ks s (metric_key g (show_int j)))
      else ks s (metric_key g (show_int j)))"
  by (cases "f = g \<and> i = j")
    (auto simp: count_value_def single_arg_def ks_simps entry_bump_def split: list.split)

lemma fold_sadd_other: "k' \<noteq> k \<Longrightarrow> ks (fold (rd_sadd R now k) xs s) k' = ks s k'"
  by (induction xs arbitrary: s) (simp_all add: ks_simps)

lemma activity_other: "ks (updateLastActivityTime R now s) (metric_key g (show_int j)) = ks s (metric_key g (show_int j))"
  by (simp add: updateLastActivityTime_def ks_simps)

lemma volume_at:
  assumes "g \<noteq> ''volume:day''"
  shows "ks (updateVolumeMetrics R now (show_int i) (show_int h) (show_int dd) event s) (metric_key g (show_int j)) =
     (if g = ''volume'' \<and> j = i then entry_bump now [''total_events'', er_eventName event] window_ttl (ks s (metric_key g (show_int j)))
      else if g = ''volume:hour'' \<and> j = h then entry_bump now [''total_events'', er_eventName event] 3600 (ks s (metric_key g (show_int j)))
      else ks s (metric_key g (show_int j)))"
proof -
  consider "g = ''volume''" "j = i" | "g = ''volume:hour''" "j = h" | "\<not> (g = ''volume'' \<and> j = i)" "\<not> (g = ''volume:hour'' \<and> j = h)"
    by blast
  then show ?thesis
  proof cases
    case 1
    then show ?thesis by (simp add: updateVolumeMetrics_def Let_def ks_simps entry_bump_def)
  next
    case 2
    then show ?thesis by (simp add: updateVolumeMetrics_def Let_def ks_simps entry_bump_def)
  next
    case 3
    then have "metric_key g (show_int j) \<noteq> metric_key ''volume'' (show_int i)"
      "metric_key g (show_int j) \<noteq> metric_key ''volume:hour'' (show_int h)"
      "metric_key g (show_int j) \<noteq> metric_key ''volume:day'' (show_int dd)"
      using assms by auto
    with 3 show ?thesis by (auto simp: updateVolumeMetrics_def Let_def ks_simps)
  qed
qed

lemma day_at:
  "ks (updateVolumeMetrics R now (show_int i) (show_int h) (show_int dd) event s) (metric_key ''volume:day'' (show_int j)) =
     (if j = dd then entry_bump now [''total_events''] 86400 (ks s (metric_key ''volume:day'' (show_int j)))
      else ks s (metric_key ''volume:day'' (show_int j)))"
  by (cases "j = dd") (simp_all add: updateVolumeMetrics_def Let_def ks_simps entry_bump_def)

lemma user_other:
  assumes "g \<notin> {''users'', ''sessions'', ''conversions''}"
  shows "ks (updateUserMetrics R sn now (show_int i) event payload s) (metric_key g (show_int j)) = ks s (metric_key g (show_int j))"
  using assms by (auto simp: updateUserMetrics_def Let_def ks_simps sadd_all_def fold_sadd_other split: sum.split)

lemma conversions_at:
  "ks (updateUserMetrics R sn now (show_int i) event payload s) (metric_key ''conversions'' (show_int j)) =
     (if j = i \<and> payload \<noteq> JNull \<and> er_eventName event \<in> set conversion_events
      then entry_bump now [er_eventName event] window_ttl (ks s (metric_key ''conversions'' (show_int j)))
      else ks s (metric_key ''conversions'' (show_int j)))"
proof (cases rule: prop_or_cases [of payload])
  case null
  then show ?thesis by (simp add: updateUserMetrics_def)
next
  case props
  then obtain u v where "prop_or payload ''userId'' (JStr ''anonymous'') = Inr u"
    "prop_or payload ''sessionId'' JNull = Inr v" by metis
  with props(1) show ?thesis
    by (cases "j = i") (auto simp: updateUserMetrics_def Let_def ks_simps sadd_all_def fold_sadd_other entry_bump_def)
qed

lemma types_at:
  "ks (updateEventTypeMetrics R now (show_int i) event s) (metric_key g (show_int j)) =
     (if g = ''event_types'' \<and> j = i then entry_bump now [er_eventName event] window_ttl (ks s (metric_key g (show_int j)))
      else ks s (metric_key g (show_int j)))"
  by (cases "g = ''event_types'' \<and> j = i") (auto simp: updateEventTypeMetrics_def Let_def ks_simps entry_bump_def)

lemma geo_at:
  "ks (updateGeographicMetrics R sn pick now (show_int i) payload s) (metric_key g (show_int j)) =
     (let fs = country_fields sn \<lparr>rc_pick = pick, rc_event = event, rc_payload = payload\<rparr> in
      if g = ''countries'' \<and> j = i \<and> fs \<noteq> [] then entry_bump now fs window_ttl (ks s (metric_key g (show_int j)))
      else ks s (metric_key g (show_int j)))"
  by (simp add: updateGeographicMetrics_def country_fields_def label_fields_def Let_def count_value_at split: sum.split)

lemma device_at:
  "ks (updateDeviceMetrics R sn now (show_int i) payload s) (metric_key g (show_int j)) =
     (let fs = label_fields sn ''device'' (JStr ''unknown'') payload in
      if g = ''devices'' \<and> j = i \<and> fs \<noteq> [] then entry_bump now fs window_ttl (ks s (metric_key g (show_int j)))
      else ks s (metric_key g (show_int j)))"
  by (simp add: updateDeviceMetrics_def label_fields_def Let_def count_value_at split: sum.split)

lemma referrer_at:
  "ks (updateReferrerMetrics R sn now (show_int i) payload s) (metric_key g (show_int j)) =
     (let fs = label_fields sn ''referrer'' (JStr ''Direct'') payload in
      if g = ''referrers'' \<and> j = i \<and> fs \<noteq> [] then entry_bump now fs window_ttl (ks s (metric_key g (show_int j)))
      else ks s (metric_key g (show_int j)))"
  by (simp add: updateReferrerMetrics_def label_fields_def Let_def count_value_at split: sum.split)

lemma performance_other:
  "g \<noteq> ''response_times'' \<Longrightarrow>
   ks (updatePerformanceMetrics R now (show_int i) eventTime s) (metric_key g (show_int j)) = ks s (metric_key g (show_int j))"
  by (simp add: updatePerformanceMetrics_def Let_def ks_simps)

end

text \<open>The counting families: name, period in milliseconds, lifetime in seconds, fields of an event.\<close>

definition minute_ms :: int where "minute_ms = 1000 * 60"
definition hour_ms :: int where "hour_ms = 1000 * 60 * 60"
definition day_ms :: int where "day_ms = 1000 * 60 * 60 * 24"

definition families :: "(rat \<Rightarrow> string) \<Rightarrow> (string \<times> int \<times> int \<times> (recorded \<Rightarrow> string list)) list" where
  "families sn =
     [(''volume'', minute_ms, window_ttl, volume_fields),
      (''volume:hour'', hour_ms, 3600, volume_fields),
      (''volume:day'', day_ms, 86400, \<lambda>_. [''total_events'']),
      (''event_types'', minute_ms, window_ttl, type_fields),
      (''conversions'', minute_ms, window_ttl, conversion_fields),
      (''countries'', minute_ms, window_ttl, country_fields sn),
      (''devices'', minute_ms, window_ttl, device_fields sn),
      (''referrers'', minute_ms, window_ttl, referrer_fields sn)]"

definition family_key :: "string \<Rightarrow> int \<Rightarrow> string" where
  "family_key f m = metric_key f (show_int m)"

locale metrics_service = redis_server "me_redis M" ks for M :: "'s metrics_env" and ks :: "'s \<Rightarrow> keyspace"
begin

lemma count_event_family:
  assumes "(f, P, ttl, flds) \<in> set (families (me_show_number M))"
  shows "ks (count_event M now pick event eventTime payload s) (family_key f m) =
     (let fs = flds \<lparr>rc_pick = pick, rc_event = event, rc_payload = payload\<rparr> in
      if now div P = m \<and> fs \<noteq> [] then entry_bump now fs ttl (ks s (family_key f m)) else ks s (family_key f m))"
proof -
  note at = volume_at day_at user_other conversions_at types_at device_at referrer_at
    geo_at [where event = event] performance_other activity_other
  note keys = getTimeKey_def getHourKey_def getDayKey_def family_key_def
  note flds = volume_fields_def type_fields_def conversion_fields_def device_fields_def referrer_fields_def
    minute_ms_def hour_ms_def day_ms_def
  show ?thesis
    using assms unfolding families_def list.set insert_iff empty_iff prod.inject simp_thms
    by (elim disjE conjE; simp only:; simp add: count_event_def Let_def keys at flds)
qed

end

end
