(* ===== verification/MetricsProps.thy ===== *)
theory MetricsProps
  imports MetricsEffects
begin

text \<open>
  Properties of the metrics over arbitrary histories of recorded events: what the dashboard
  shows is what was processed, in which windows, and where it is not.
\<close>

section \<open>Histories\<close>

text \<open>A processed job: when, with which random draws, which event.\<close>

record job =
  jb_now :: int
  jb_pick :: nat
  jb_rnd :: string
  jb_event :: event_request

definition run_job :: "'s metrics_env \<Rightarrow> job \<Rightarrow> 's metrics_state \<Rightarrow> 's metrics_state" where
  "run_job M j st = snd (record_event M (jb_now j) (jb_pick j) (jb_rnd j) (jb_event j) st)"

definition valid_job :: "'s metrics_env \<Rightarrow> job \<Rightarrow> bool" where
  "valid_job M j = (date_of (me_legacy M) (er_timestamp (jb_event j)) \<noteq> NaN)"

definition recorded_of :: "job \<Rightarrow> int \<times> recorded" where
  "recorded_of j = (jb_now j, \<lparr>rc_pick = jb_pick j, rc_event = jb_event j, rc_payload = parse_payload (jb_event j)\<rparr>)"

definition history :: "'s metrics_env \<Rightarrow> job list \<Rightarrow> (int \<times> recorded) list" where
  "history M jobs = map recorded_of (filter (valid_job M) jobs)"

definition no_metrics :: "(rat \<Rightarrow> string) \<Rightarrow> keyspace \<Rightarrow> bool" where
  "no_metrics sn K = (\<forall>(f, P, ttl, flds) \<in> set (families sn). \<forall>m. K (family_key f m) = None)"

lemma families_periods: "(f, P, ttl, flds) \<in> set (families sn) \<Longrightarrow> 0 < P \<and> P \<le> 1000 * ttl"
  unfolding families_def list.set insert_iff empty_iff prod.inject simp_thms
  by (elim disjE conjE; simp only:; simp add: minute_ms_def hour_ms_def day_ms_def window_ttl_def active_window_def)

context metrics_service
begin

lemma run_job_redis:
  "ms_redis (run_job M j st) =
     (case date_of (me_legacy M) (er_timestamp (jb_event j)) of
        NaN \<Rightarrow> ms_redis st
      | Num e \<Rightarrow> count_event M (jb_now j) (jb_pick j) (jb_event j) e (parse_payload (jb_event j)) (ms_redis st))"
  by (simp add: run_job_def record_event_def Let_def split: jsnum.split sum.split)

lemma run_family:
  assumes "(f, P, ttl, flds) \<in> set (families (me_show_number M))"
    and "\<And>m. ks (ms_redis st) (family_key f m) = None"
  shows "family_inv P ttl flds (family_key f) (history M jobs) (ks (ms_redis (fold (run_job M) jobs st)))"
proof (induction jobs rule: rev_induct)
  case Nil
  then show ?case using assms(2) by (simp add: history_def family_start)
next
  case (snoc j jobs)
  show ?case
  proof (cases "date_of (me_legacy M) (er_timestamp (jb_event j))")
    case NaN
    with snoc show ?thesis by (simp add: history_def valid_job_def run_job_redis)
  next
    case (Num e)
    have "history M (jobs @ [j]) = history M jobs @ [recorded_of j]"
      using Num by (simp add: history_def valid_job_def)
    moreover have "family_inv P ttl flds (family_key f) (history M jobs @ [recorded_of j])
        (ks (ms_redis (run_job M j (fold (run_job M) jobs st))))"
      unfolding recorded_of_def
      using snoc families_periods [OF assms(1)] count_event_family [OF assms(1)] Num
      by (intro family_step [OF snoc]) (simp_all add: run_job_redis Let_def)
    ultimately show ?thesis by simp
  qed
qed

end

section \<open>Windows\<close>

lemma div_bounds:
  fixes a P :: int
  assumes "0 < P"
  shows "P * (a div P) \<le> a" and "a < P * (a div P) + P"
proof -
  have "P * (a div P) + a mod P = a" by simp
  moreover have "0 \<le> a mod P" "a mod P < P" using assms by simp_all
  ultimately show "P * (a div P) \<le> a" and "a < P * (a div P) + P" by linarith+
qed

definition in_periods :: "int \<Rightarrow> int list \<Rightarrow> (int \<times> 'x) list \<Rightarrow> (int \<times> 'x) list" where
  "in_periods P ms evs = filter (\<lambda>(now, x). now div P \<in> set ms) evs"

lemma field_count_period: "field_count flds (period_events P flds m evs) f = field_count flds (in_periods P [m] evs) f"
  by (induction evs) (auto simp: field_count_def period_events_def in_periods_def)

lemma field_count_in_periods_Cons:
  "m \<notin> set ms \<Longrightarrow> field_count flds (in_periods P (m # ms) evs) f
     = field_count flds (in_periods P [m] evs) f + field_count flds (in_periods P ms evs) f"
  by (induction evs) (auto simp: field_count_def in_periods_def)

lemma field_count_in_periods:
  "distinct ms \<Longrightarrow> sum_list (map (\<lambda>m. field_count flds (period_events P flds m evs) f) ms)
     = field_count flds (in_periods P ms evs) f"
proof (induction ms)
  case Nil
  then show ?case by (simp add: in_periods_def field_count_def)
next
  case (Cons m ms)
  then show ?case by (simp add: field_count_in_periods_Cons [of m ms] field_count_period)
qed

definition window_minutes :: "int \<Rightarrow> int \<Rightarrow> int list" where
  "window_minutes t back = map (\<lambda>i. t div minute_ms - back - i) [0..active_window - 1]"

lemma window_points_minutes:
  "map (\<lambda>p. metric_key f (getTimeKey p)) (window_points t (back * 60 * 1000))
     = map (family_key f) (window_minutes t back)"
proof -
  have "(t - back * 60 * 1000 - i * 60 * 1000) div (1000 * 60) = t div (1000 * 60) - back - i" for i
  proof -
    have "t - back * 60 * 1000 - i * 60 * 1000 = t + (- back - i) * (1000 * 60)" by simp
    then show ?thesis by (simp only: div_mult_self1)
  qed
  then show ?thesis
    by (simp add: window_points_def window_minutes_def getTimeKey_def family_key_def minute_ms_def)
qed

lemma window_minutes_distinct: "distinct (window_minutes t back)"
  by (auto simp: window_minutes_def distinct_map inj_on_def)

lemma window_minutes_set: "set (window_minutes t back) = {t div minute_ms - back - 4 .. t div minute_ms - back}"
proof -
  have "set (window_minutes t back) = (\<lambda>i. t div minute_ms - back - i) ` {0..4}"
    by (simp add: window_minutes_def active_window_def)
  also have "\<dots> = {t div minute_ms - back - 4 .. t div minute_ms - back}"
    by (auto simp: image_iff Bex_def intro: exI [of _ "t div minute_ms - back - _"])
  finally show ?thesis .
qed

text \<open>Merging a list of hashes that are tallies.\<close>

lemma fold_merge_tally:
  assumes "merged_tally d n" and "\<And>p. p \<in> set ps \<Longrightarrow> tally (h p) (m p)"
  shows "merged_tally (fold (\<lambda>p target. mergeRedisDataInPlace target (h p)) ps d) (\<lambda>f. n f + sum_list (map (\<lambda>p. m p f) ps))"
  using assms
proof (induction ps arbitrary: d n)
  case (Cons p ps)
  have "merged_tally (mergeRedisDataInPlace d (h p)) (\<lambda>f. n f + m p f)"
    using Cons.prems by (intro merge_tally) simp_all
  from Cons.IH [OF this] Cons.prems(2) show ?case by (simp add: add.assoc)
qed simp

lemma fold_tally_merge:
  assumes "tally d n" and "\<And>p. p \<in> set ps \<Longrightarrow> tally (h p) (m p)"
    and "\<And>f. f \<in> set inherited_names \<Longrightarrow> n f = 0 \<and> (\<forall>p \<in> set ps. m p f = 0)"
  shows "tally (fold (\<lambda>p target. mergeRedisDataInPlace target (h p)) ps d) (\<lambda>f. n f + sum_list (map (\<lambda>p. m p f) ps))"
  using assms
proof (induction ps arbitrary: d n)
  case (Cons p ps)
  have "tally (mergeRedisDataInPlace d (h p)) (\<lambda>f. n f + m p f)"
    using Cons.prems by (intro tally_merge) simp_all
  from Cons.IH [OF this] Cons.prems(2,3) show ?case by (simp add: add.assoc)
qed simp

lemma merged_family_keys:
  "merged_family R t f points s
     = fold (\<lambda>k target. mergeRedisDataInPlace target (rd_hgetall R t k s)) (map (\<lambda>p. metric_key f (getTimeKey p)) points) []"
  by (simp add: merged_family_def fold_map comp_def)

lemma merged_tally_Nil: "merged_tally [] (\<lambda>f. 0)"
  by (simp add: merged_tally_def)

context metrics_service
begin

text \<open>A minute of the active window is unexpired when it is read.\<close>

lemma window_unexpired:
  assumes "m \<in> set (window_minutes t 0)" and "period_events minute_ms flds m evs \<noteq> []"
  shows "t < fst (last (period_events minute_ms flds m evs)) + 1000 * window_ttl"
proof -
  have "last (period_events minute_ms flds m evs) \<in> set (period_events minute_ms flds m evs)"
    using assms(2) by simp
  then have "fst (last (period_events minute_ms flds m evs)) div minute_ms = m"
    by (auto simp: period_events_def)
  moreover have "t div minute_ms - 4 \<le> m" using assms(1) by (simp add: window_minutes_set)
  ultimately show ?thesis
    using div_bounds(2) [of minute_ms t] div_bounds(1) [of minute_ms "fst (last (period_events minute_ms flds m evs))"]
    by (simp add: minute_ms_def window_ttl_def active_window_def)
qed

text \<open>The merged hashes of a minute family over the active window, and with no inherited names.\<close>

lemma window_merged:
  assumes "(f, minute_ms, window_ttl, flds) \<in> set (families (me_show_number M))"
    and "family_inv minute_ms window_ttl flds (family_key f) evs (ks s)"
  shows "merged_tally (merged_family (me_redis M) t f (window_points t 0) s)
      (field_count flds (in_periods minute_ms (window_minutes t 0) evs))"
proof -
  let ?ms = "window_minutes t 0"
  have "merged_tally (fold (\<lambda>m target. mergeRedisDataInPlace target (rd_hgetall (me_redis M) t (family_key f m) s)) ?ms [])
      (\<lambda>g. 0 + sum_list (map (\<lambda>m. field_count flds (period_events minute_ms flds m evs) g) ?ms))"
    using window_unexpired
    by (intro fold_merge_tally [OF merged_tally_Nil] family_read [OF assms(2)]) blast
  then have "merged_tally (fold (\<lambda>m target. mergeRedisDataInPlace target (rd_hgetall (me_redis M) t (family_key f m) s)) ?ms [])
      (field_count flds (in_periods minute_ms ?ms evs))"
    by (simp add: field_count_in_periods [OF window_minutes_distinct])
  then show ?thesis
    using window_points_minutes [of f t 0] by (simp add: merged_family_keys fold_map comp_def)
qed

lemma window_tally:
  assumes "(f, minute_ms, window_ttl, flds) \<in> set (families (me_show_number M))"
    and "family_inv minute_ms window_ttl flds (family_key f) evs (ks s)"
    and "\<And>g. g \<in> set inherited_names \<Longrightarrow> field_count flds (in_periods minute_ms (window_minutes t 0) evs) g = 0"
  shows "tally (merged_family (me_redis M) t f (window_points t 0) s)
      (field_count flds (in_periods minute_ms (window_minutes t 0) evs))"
proof -
  let ?ms = "window_minutes t 0"
  have z: "field_count flds (period_events minute_ms flds m evs) g = 0" if "g \<in> set inherited_names" "m \<in> set ?ms" for m g
  proof -
    have "sum_list (map (\<lambda>m. field_count flds (period_events minute_ms flds m evs) g) ?ms) = 0"
      using assms(3) [OF that(1)] by (simp add: field_count_in_periods [OF window_minutes_distinct])
    then show ?thesis
      using that(2) by (subst (asm) sum_list_nonneg_eq_0_iff) (auto simp: field_count_nonneg)
  qed
  have "tally (fold (\<lambda>m target. mergeRedisDataInPlace target (rd_hgetall (me_redis M) t (family_key f m) s)) ?ms [])
      (\<lambda>g. 0 + sum_list (map (\<lambda>m. field_count flds (period_events minute_ms flds m evs) g) ?ms))"
    using window_unexpired z
    by (intro fold_tally_merge [OF tally_Nil] family_read [OF assms(2)]) blast+
  then have "tally (fold (\<lambda>m target. mergeRedisDataInPlace target (rd_hgetall (me_redis M) t (family_key f m) s)) ?ms [])
      (field_count flds (in_periods minute_ms ?ms evs))"
    by (simp add: field_count_in_periods [OF window_minutes_distinct])
  then show ?thesis
    using window_points_minutes [of f t 0] by (simp add: merged_family_keys fold_map comp_def)
qed

end

end
