(* ===== verification/MetricsCounts.thy ===== *)
theory MetricsCounts
  imports MetricsProps
begin

text \<open>
  The counts the dashboard shows, for every history of processed events from an empty Redis: the
  active window is exact, the previous window and the day chart forget what has expired.
\<close>

section \<open>Counting jobs\<close>

definition named :: "string \<Rightarrow> job \<Rightarrow> bool" where
  "named name j = (er_eventName (jb_event j) = name)"

definition jobs_in :: "'s metrics_env \<Rightarrow> int \<Rightarrow> int set \<Rightarrow> job list \<Rightarrow> job list" where
  "jobs_in M P ms jobs = filter (\<lambda>j. valid_job M j \<and> jb_now j div P \<in> ms) jobs"

text \<open>The value of \<^verbatim>\<open>total_events\<close> for a list of jobs: an event of that very name counts twice.\<close>

definition volume_total :: "job list \<Rightarrow> int" where
  "volume_total js = int (length js) + int (length (filter (named ''total_events'') js))"

definition active_jobs :: "'s metrics_env \<Rightarrow> int \<Rightarrow> job list \<Rightarrow> job list" where
  "active_jobs M t jobs = jobs_in M minute_ms {t div minute_ms - 4 .. t div minute_ms} jobs"

definition is_conversion :: "job \<Rightarrow> bool" where
  "is_conversion j = (er_eventName (jb_event j) \<in> set conversion_events \<and> parse_payload (jb_event j) \<noteq> JNull)"

lemma in_periods_history:
  "in_periods P ms (history M jobs) = map recorded_of (jobs_in M P (set ms) jobs)"
  by (induction jobs) (auto simp: in_periods_def history_def jobs_in_def recorded_of_def)

lemma count_volume: "field_count volume_fields (map recorded_of js) ''total_events'' = volume_total js"
  by (induction js) (auto simp: field_count_def recorded_of_def volume_fields_def volume_total_def named_def)

lemma count_type: "field_count type_fields (map recorded_of js) name = int (length (filter (named name) js))"
  by (induction js) (auto simp: field_count_def recorded_of_def type_fields_def named_def)

lemma period_events_history:
  assumes "\<And>x. flds x \<noteq> []"
  shows "period_events P flds m (history M jobs) = map recorded_of (jobs_in M P {m} jobs)"
  using assms by (induction jobs) (auto simp: period_events_def history_def jobs_in_def recorded_of_def)

lemma volume_fields_nonempty: "volume_fields x \<noteq> []"
  by (simp add: volume_fields_def)

section \<open>Sums over a tally\<close>

lemma sum_count_list: "finite K \<Longrightarrow> set xs \<subseteq> K \<Longrightarrow> (\<Sum>k\<in>K. int (count_list xs k)) = int (length xs)"
proof (induction xs)
  case (Cons x xs)
  have "(\<Sum>k\<in>K. int (count_list (x # xs) k)) = (\<Sum>k\<in>K. int (count_list xs k) + (if k = x then 1 else 0))"
    by (rule sum.cong) auto
  also have "\<dots> = (\<Sum>k\<in>K. int (count_list xs k)) + 1"
    using Cons.prems by (simp add: sum.distrib sum.delta)
  finally show ?case using Cons by simp
qed simp

lemma sum_field_count:
  assumes "finite K" and "\<And>now x. (now, x) \<in> set evs \<Longrightarrow> set (flds x) \<subseteq> K"
  shows "(\<Sum>k\<in>K. field_count flds evs k) = sum_list (map (\<lambda>(now, x). int (length (flds x))) evs)"
  using assms(2)
proof (induction evs)
  case (Cons e evs)
  obtain now x where e: "e = (now, x)" by (cases e)
  have "field_count flds (e # evs) k = int (count_list (flds x) k) + field_count flds evs k" for k
    by (simp add: field_count_def e)
  then have "(\<Sum>k\<in>K. field_count flds (e # evs) k)
      = (\<Sum>k\<in>K. int (count_list (flds x) k)) + (\<Sum>k\<in>K. field_count flds evs k)"
    by (simp add: sum.distrib)
  moreover have "(\<Sum>k\<in>K. int (count_list (flds x) k)) = int (length (flds x))"
    using Cons.prems e assms(1) by (intro sum_count_list) auto
  moreover have "(\<Sum>k\<in>K. field_count flds evs k) = sum_list (map (\<lambda>(now, x). int (length (flds x))) evs)"
    using Cons by auto
  ultimately show ?case by (simp add: e)
qed simp

lemma field_count_pos: "(now, x) \<in> set evs \<Longrightarrow> f \<in> set (flds x) \<Longrightarrow> field_count flds evs f \<noteq> 0"
proof -
  assume "(now, x) \<in> set evs" "f \<in> set (flds x)"
  then obtain us vs where "evs = us @ (now, x) # vs" by (auto dest: split_list)
  then have "field_count flds evs f = field_count flds us f + int (count_list (flds x) f) + field_count flds vs f"
    by (simp add: field_count_def)
  moreover have "0 < count_list (flds x) f" using \<open>f \<in> set (flds x)\<close> by (simp add: count_list_0_iff zero_less_iff_neq_zero)
  ultimately show ?thesis using field_count_nonneg [of flds us f] field_count_nonneg [of flds vs f] by simp
qed

text \<open>The values of a tally of the events add up to the number of their fields.\<close>

lemma tally_entry: "tally d n \<Longrightarrow> (k, v) \<in> set d \<Longrightarrow> v = show_int (n k) \<and> 0 < n k"
proof -
  assume t: "tally d n" and kv: "(k, v) \<in> set d"
  then have "map_of d k = Some v" unfolding tally_def by (blast intro: map_of_is_SomeI)
  moreover have "0 \<le> n k" "map_of d k = (if n k = 0 then None else Some (show_int (n k)))"
    using t by (simp_all add: tally_def)
  ultimately show ?thesis by (auto split: if_splits)
qed

lemma tally_total:
  assumes "tally d (field_count flds evs)"
  shows "sum_list (map (\<lambda>(k, v). field_count flds evs k) d) = sum_list (map (\<lambda>(now, x). int (length (flds x))) evs)"
proof -
  have "distinct (map fst d)" using assms by (simp add: tally_def)
  then have "sum_list (map (\<lambda>k. field_count flds evs k) (map fst d)) = (\<Sum>k\<in>set (map fst d). field_count flds evs k)"
    by (rule sum_list_distinct_conv_sum_set)
  also have "\<dots> = sum_list (map (\<lambda>(now, x). int (length (flds x))) evs)"
  proof (rule sum_field_count)
    fix now x
    assume "(now, x) \<in> set evs"
    then have "\<forall>f \<in> set (flds x). map_of d f \<noteq> None"
      using field_count_pos assms by (fastforce simp: tally_def)
    then show "set (flds x) \<subseteq> set (map fst d)"
      by (metis map_of_eq_None_iff set_map subsetI)
  qed simp
  finally show ?thesis by (simp add: comp_def split_def)
qed

lemma total_conversions_tally: "tally d n \<Longrightarrow> total_conversions d = Num (sum_list (map (\<lambda>(k, v). n k) d))"
proof -
  assume t: "tally d n"
  have e: "map (\<lambda>p. parseInt (if snd p = [] then ''0'' else snd p)) d = map (\<lambda>p. Num (n (fst p))) d"
    by (intro map_cong refl) (auto dest!: tally_entry [OF t] split: prod.split)
  show ?thesis by (simp only: total_conversions_def split_def e sum_list_Num)
qed

section \<open>Properties\<close>

lemma conversion_fields_history:
  "sum_list (map (\<lambda>(now, x). int (length (conversion_fields x))) (map recorded_of js)) = int (length (filter is_conversion js))"
  by (induction js) (auto simp: recorded_of_def conversion_fields_def is_conversion_def)

lemma conversion_not_inherited: "f \<in> set inherited_names \<Longrightarrow> field_count conversion_fields evs f = 0"
proof -
  assume "f \<in> set inherited_names"
  then have "f \<notin> set conversion_events" by (auto simp: inherited_names_def conversion_events_def)
  then have "count_list (conversion_fields x) f = 0" for x
    by (auto simp: conversion_fields_def count_list_0_iff)
  then show ?thesis by (induction evs) (auto simp: field_count_def)
qed

lemma minute_families:
  "(''volume'', minute_ms, window_ttl, volume_fields) \<in> set (families sn)"
  "(''event_types'', minute_ms, window_ttl, type_fields) \<in> set (families sn)"
  "(''conversions'', minute_ms, window_ttl, conversion_fields) \<in> set (families sn)"
  "(''volume:hour'', hour_ms, 3600, volume_fields) \<in> set (families sn)"
  by (simp_all add: families_def)

lemma total_not_inherited: "''total_events'' \<notin> set inherited_names"
  by (simp add: inherited_names_def)

lemma active_minutes: "set (window_minutes t 0) = {t div minute_ms - 4 .. t div minute_ms}"
  by (simp add: window_minutes_set)

text \<open>
  C9: The active window is exact. After any history of processed events from a Redis without metrics
  keys, in any order of times, the dashboard's total at time \<open>t\<close> is the number of events processed in the
  clock minute of \<open>t\<close> and the four before it (an event called \<^verbatim>\<open>total_events\<close> counts twice), the count of each
  event name that no object inherits is the number of those events, and the conversion rate is
  the share of conversion events in the total.
\<close>

theorem active_window_exact:
  assumes "metrics_service M ks" and "\<And>f m. ks (ms_redis st0) (family_key f m) = None"
    and "w = getActiveWindowMetrics (me_redis M) t t (ms_redis (fold (run_job M) jobs st0))"
    and "js = active_jobs M t jobs"
  shows "wm_totalEvents w = Num (volume_total js)
    \<and> (\<forall>name. name \<notin> set inherited_names \<longrightarrow>
         field_or_zero (wm_eventTypes w) name = Num (int (length (filter (named name) js))))
    \<and> wm_conversionRate w = (if js = [] then Num 0
         else Num (of_int (int (length (filter is_conversion js))) / of_int (volume_total js) * 100))"
proof -
  let ?s = "ms_redis (fold (run_job M) jobs st0)"
  note inv = metrics_service.run_family [OF assms(1) _ assms(2)]
  have E: "in_periods minute_ms (window_minutes t 0) (history M jobs) = map recorded_of js"
    by (simp add: in_periods_history active_minutes assms(4) active_jobs_def)
  note vol = metrics_service.window_merged [OF assms(1) minute_families(1) inv [OF minute_families(1)], of t jobs, unfolded E]
  note ty = metrics_service.window_merged [OF assms(1) minute_families(2) inv [OF minute_families(2)], of t jobs, unfolded E]
  have cv: "tally (merged_family (me_redis M) t ''conversions'' (window_points t 0) ?s)
      (field_count conversion_fields (map recorded_of js))"
    unfolding E [symmetric]
    by (rule metrics_service.window_tally [OF assms(1) minute_families(3) inv [OF minute_families(3)]])
      (rule conversion_not_inherited)
  have tot: "field_or_zero (merged_family (me_redis M) t ''volume'' (window_points t 0) ?s) ''total_events'' = Num (volume_total js)"
    using field_or_zero_tally [OF vol total_not_inherited] by (simp add: count_volume)
  have conv: "total_conversions (merged_family (me_redis M) t ''conversions'' (window_points t 0) ?s)
      = Num (int (length (filter is_conversion js)))"
    using total_conversions_tally [OF cv] unfolding tally_total [OF cv] conversion_fields_history .
  have "volume_total js = 0 \<longleftrightarrow> js = []" "0 \<le> volume_total js"
    by (cases js; simp add: volume_total_def)+
  then show ?thesis
    using field_or_zero_tally [OF ty]
    by (auto simp: assms(3) getActiveWindowMetrics_def Let_def tot conv count_type)
qed

definition demo_menv :: "keyspace metrics_env" where
  "demo_menv = \<lparr>me_redis = mem_redis, me_legacy = (\<lambda>s. NaN), me_show_number = (\<lambda>q. ''n'')\<rparr>"

definition demo_mstate :: "keyspace metrics_state" where
  "demo_mstate = \<lparr>ms_redis = Map.empty, ms_live = [], ms_lastActivity = 0\<rparr>"

definition demo_event :: "string \<Rightarrow> string \<Rightarrow> event_request" where
  "demo_event name payload = \<lparr>er_eventName = name, er_payload = payload, er_timestamp = ''1970'',
     er_tags = [], er_category = None, er_severity = None\<rparr>"

definition demo_job :: "int \<Rightarrow> string \<Rightarrow> string \<Rightarrow> job" where
  "demo_job now name payload = \<lparr>jb_now = now, jb_pick = 0, jb_rnd = ''r'', jb_event = demo_event name payload\<rparr>"

lemma demo_metrics_service: "metrics_service demo_menv (\<lambda>K. K)"
  by (simp add: metrics_service_def demo_menv_def mem.redis_server_axioms)

interpretation demo_metrics: metrics_service demo_menv "\<lambda>K. K"
  by (rule demo_metrics_service)

lemma demo_parse: "parse_iso ''1970'' = Some 0"
  by code_simp

lemma demo_valid: "valid_job demo_menv (demo_job now name payload)"
  by (simp add: valid_job_def demo_menv_def demo_job_def demo_event_def date_of_def demo_parse)

lemma demo_no_metrics: "ms_redis demo_mstate (family_key f m) = None"
  by (simp add: demo_mstate_def)

lemma demo_redis: "me_redis demo_menv = mem_redis"
  by (simp add: demo_menv_def)

theorem active_window_exact_witness:
  "wm_totalEvents (getActiveWindowMetrics mem_redis 400000 400000 (ms_redis (fold (run_job demo_menv)
     [demo_job 1000 ''a'' ''null'', demo_job 130000 ''b'' ''{}'', demo_job 390000 ''b'' ''{}''] demo_mstate))) = Num 2"
proof -
  let ?jobs = "[demo_job 1000 ''a'' ''null'', demo_job 130000 ''b'' ''{}'', demo_job 390000 ''b'' ''{}'']"
  have js: "active_jobs demo_menv 400000 ?jobs = [demo_job 130000 ''b'' ''{}'', demo_job 390000 ''b'' ''{}'']"
    by (simp add: active_jobs_def jobs_in_def demo_valid minute_ms_def) (simp add: demo_job_def)
  have "wm_totalEvents (getActiveWindowMetrics (me_redis demo_menv) 400000 400000
      (ms_redis (fold (run_job demo_menv) ?jobs demo_mstate))) = Num (volume_total (active_jobs demo_menv 400000 ?jobs))"
    by (rule active_window_exact [of demo_menv "\<lambda>K. K" demo_mstate, OF demo_metrics_service demo_no_metrics refl refl,
          THEN conjunct1])
  moreover have "volume_total (active_jobs demo_menv 400000 ?jobs) = 2"
    unfolding js by (simp add: volume_total_def named_def demo_job_def demo_event_def)
  ultimately show ?thesis by (simp add: demo_menv_def)
qed

section \<open>What has expired\<close>

text \<open>
  The jobs of one period, if their hash is still there: it lives \<open>ttl\<close> seconds after the last of them.
\<close>

definition unexpired_jobs :: "int \<Rightarrow> int \<Rightarrow> job list \<Rightarrow> job list" where
  "unexpired_jobs ttl t js = (if js \<noteq> [] \<and> t < jb_now (last js) + 1000 * ttl then js else [])"

context metrics_service
begin

lemma period_hash:
  assumes "(f, P, ttl, volume_fields) \<in> set (families (me_show_number M))"
    and "\<And>m. ks (ms_redis st0) (family_key f m) = None"
  shows "tally (rd_hgetall (me_redis M) t (family_key f m) (ms_redis (fold (run_job M) jobs st0)))
      (field_count volume_fields (map recorded_of (unexpired_jobs ttl t (jobs_in M P {m} jobs))))"
proof -
  let ?js = "jobs_in M P {m} jobs"
  note inv = run_family [OF assms, of jobs]
  have E: "period_events P volume_fields m (history M jobs) = map recorded_of ?js"
    by (rule period_events_history [OF volume_fields_nonempty])
  have l: "?js \<noteq> [] \<Longrightarrow> fst (last (map recorded_of ?js)) = jb_now (last ?js)"
    by (simp add: last_map recorded_of_def)
  show ?thesis
  proof (cases "?js \<noteq> [] \<and> t < jb_now (last ?js) + 1000 * ttl")
    case True
    then show ?thesis
      using family_read [OF inv, of m t] l by (simp add: E unexpired_jobs_def)
  next
    case False
    then have "rd_hgetall (me_redis M) t (family_key f m) (ms_redis (fold (run_job M) jobs st0)) = []"
      using l by (intro family_expired [OF inv]) (auto simp: E)
    moreover have "field_count volume_fields (map recorded_of (unexpired_jobs ttl t ?js)) = (\<lambda>f. 0)"
      using False by (auto simp: unexpired_jobs_def)
    ultimately show ?thesis by (simp add: tally_Nil)
  qed
qed

end

lemma period_over:
  assumes "0 < P" and "j \<in> set (jobs_in M P {m} jobs)" and "(m + k) \<le> t div P"
  shows "jb_now j + (k - 1) * P < t"
proof -
  have "jb_now j div P = m" using assms(2) by (simp add: jobs_in_def)
  then have "jb_now j < P * m + P" using div_bounds(2) [OF assms(1), of "jb_now j"] by simp
  moreover have "P * (m + k) \<le> t"
    using div_bounds(1) [OF assms(1), of t] mult_left_mono [OF assms(3), of P] assms(1) by linarith
  ultimately show ?thesis by (simp add: algebra_simps)
qed

lemma expired_minute:
  assumes "m + 8 \<le> t div minute_ms"
  shows "unexpired_jobs window_ttl t (jobs_in M minute_ms {m} jobs) = []"
proof (rule ccontr)
  let ?js = "jobs_in M minute_ms {m} jobs"
  assume "unexpired_jobs window_ttl t ?js \<noteq> []"
  then have js: "?js \<noteq> []" and u: "t < jb_now (last ?js) + 1000 * window_ttl"
    by (auto simp: unexpired_jobs_def split: if_splits)
  from js have "last ?js \<in> set ?js" by simp
  from period_over [OF _ this assms] u show False
    by (simp add: minute_ms_def window_ttl_def active_window_def)
qed

lemma expired_hour:
  assumes "m + 2 \<le> t div hour_ms"
  shows "unexpired_jobs 3600 t (jobs_in M hour_ms {m} jobs) = []"
proof (rule ccontr)
  let ?js = "jobs_in M hour_ms {m} jobs"
  assume "unexpired_jobs 3600 t ?js \<noteq> []"
  then have js: "?js \<noteq> []" and u: "t < jb_now (last ?js) + 1000 * 3600"
    by (auto simp: unexpired_jobs_def split: if_splits)
  from js have "last ?js \<in> set ?js" by simp
  from period_over [OF _ this assms] u show False by (simp add: hour_ms_def)
qed

text \<open>
  The previous window forgets. Its total is the sum over the minutes five, six and seven before the
  current one of the events of those whose last event is less than seven minutes old; the minutes eight and
  nine before never count, as a minute's keys live seven minutes after its last event.
\<close>

theorem previous_window_forgets:
  assumes "metrics_service M ks" and "\<And>f m. ks (ms_redis st0) (family_key f m) = None"
  shows "fst (getPreviousWindowMetrics (me_redis M) t t (ms_redis (fold (run_job M) jobs st0)))
    = Num (sum_list (map (\<lambda>i. volume_total (unexpired_jobs 420 t (jobs_in M minute_ms {t div minute_ms - i} jobs))) [5, 6, 7]))"
proof -
  let ?s = "ms_redis (fold (run_job M) jobs st0)"
  let ?u = "\<lambda>m. unexpired_jobs window_ttl t (jobs_in M minute_ms {m} jobs)"
  let ?ms = "window_minutes t 5"
  have "merged_tally (fold (\<lambda>m target. mergeRedisDataInPlace target (rd_hgetall (me_redis M) t (family_key ''volume'' m) ?s)) ?ms [])
      (\<lambda>g. 0 + sum_list (map (\<lambda>m. field_count volume_fields (map recorded_of (?u m)) g) ?ms))"
    by (intro fold_merge_tally [OF merged_tally_Nil]
        metrics_service.period_hash [OF assms(1) minute_families(1) assms(2)])
  then have "merged_tally (merged_family (me_redis M) t ''volume'' (window_points t (5 * 60 * 1000)) ?s)
      (\<lambda>g. 0 + sum_list (map (\<lambda>m. field_count volume_fields (map recorded_of (?u m)) g) ?ms))"
    using window_points_minutes [of "''volume''" t 5] by (simp add: merged_family_keys fold_map comp_def)
  from field_or_zero_tally [OF this total_not_inherited]
  have "fst (getPreviousWindowMetrics (me_redis M) t t ?s) = Num (sum_list (map (\<lambda>m. volume_total (?u m)) ?ms))"
    by (simp add: getPreviousWindowMetrics_def active_window_def count_volume)
  also have "?ms = [t div minute_ms - 5, t div minute_ms - 6, t div minute_ms - 7, t div minute_ms - 8, t div minute_ms - 9]"
    by (simp add: window_minutes_def active_window_def upto.simps)
  finally show ?thesis
    using expired_minute [of "t div minute_ms - 8" t M jobs] expired_minute [of "t div minute_ms - 9" t M jobs]
    by (simp add: volume_total_def window_ttl_def active_window_def)
qed

lemma minute_div: "600000 div minute_ms = 10"
  by (simp add: minute_ms_def)

theorem previous_window_forgets_witness:
  "fst (getPreviousWindowMetrics mem_redis 600000 600000 (ms_redis (fold (run_job demo_menv)
     [demo_job 60000 ''a'' ''{}'', demo_job 120000 ''a'' ''{}''] demo_mstate))) = Num 0"
proof -
  let ?jobs = "[demo_job 60000 ''a'' ''{}'', demo_job 120000 ''a'' ''{}'']"
  have e: "jobs_in demo_menv minute_ms {5} ?jobs = []" "jobs_in demo_menv minute_ms {4} ?jobs = []"
    "jobs_in demo_menv minute_ms {3} ?jobs = []"
    by (simp_all add: jobs_in_def minute_ms_def) (simp_all add: demo_job_def)
  show ?thesis
    using previous_window_forgets [of demo_menv "\<lambda>K. K" demo_mstate, OF demo_metrics_service demo_no_metrics, of 600000 ?jobs]
    by (simp add: demo_redis minute_div e unexpired_jobs_def volume_total_def)
qed

text \<open>
  The day chart covers two hours. Of its 24 points, the last is the number of events of the current hour, the
  one before counts the previous hour only while its last event is less than an hour old, and
  the 22 others are zero whatever was processed, as an hour's keys live one hour after its last event.
\<close>

theorem day_chart_covers_two_hours:
  assumes "metrics_service M ks" and "\<And>f m. ks (ms_redis st0) (family_key f m) = None"
  shows "map vp_events (generate24HourData (me_redis M) t (ms_redis (fold (run_job M) jobs st0)))
    = replicate 22 (Num 0)
      @ [Num (volume_total (unexpired_jobs 3600 t (jobs_in M hour_ms {t div hour_ms - 1} jobs))),
         Num (volume_total (unexpired_jobs 3600 t (jobs_in M hour_ms {t div hour_ms} jobs)))]"
proof -
  let ?s = "ms_redis (fold (run_job M) jobs st0)"
  let ?u = "\<lambda>m. unexpired_jobs 3600 t (jobs_in M hour_ms {m} jobs)"
  have key: "metric_key ''volume:hour'' (getHourKey (t - 3600000 * i)) = family_key ''volume:hour'' (t div hour_ms - i)" for i
  proof -
    have "t - 3600000 * i = t + (- i) * (1000 * 60 * 60)" by simp
    then have "(t - 3600000 * i) div (1000 * 60 * 60) = - i + t div (1000 * 60 * 60)"
      by (simp only: div_mult_self1)
    then show ?thesis by (simp add: getHourKey_def family_key_def hour_ms_def)
  qed
  have point: "field_or_zero (rd_hgetall (me_redis M) t (family_key ''volume:hour'' m) ?s) ''total_events'' = Num (volume_total (?u m))" for m
    using field_or_zero_full [OF metrics_service.period_hash [OF assms(1) minute_families(4) assms(2)]]
    by (simp add: count_volume)
  have z: "2 \<le> i \<Longrightarrow> volume_total (?u (t div hour_ms - i)) = 0" for i
    using expired_hour [of "t div hour_ms - i" t M jobs] by (simp add: volume_total_def)
  have "map vp_events (generate24HourData (me_redis M) t ?s)
      = map (\<lambda>i. Num (volume_total (?u (t div hour_ms - i)))) (rev [0..23])"
    by (simp add: generate24HourData_def key point comp_def Let_def)
  also have "rev [0..23] = rev [2..23] @ [1, 0 :: int]"
    by (simp add: upto.simps)
  also have "map (\<lambda>i. Num (volume_total (?u (t div hour_ms - i)))) (rev [2..23] @ [1, 0])
      = map (\<lambda>i. Num 0) (rev [2..23 :: int]) @ [Num (volume_total (?u (t div hour_ms - 1))), Num (volume_total (?u (t div hour_ms)))]"
    using z by simp
  also have "map (\<lambda>i. Num 0) (rev [2..23 :: int]) = replicate 22 (Num (0 :: int))"
    by (simp add: eval_nat_numeral)
  finally show ?thesis .
qed

lemma hour_div: "10000000 div hour_ms = 2"
  by (simp add: hour_ms_def)

theorem day_chart_covers_two_hours_witness:
  "map vp_events (generate24HourData mem_redis 10000000 (ms_redis (fold (run_job demo_menv)
     [demo_job 1000 ''a'' ''{}''] demo_mstate))) = replicate 24 (Num 0)"
proof -
  let ?jobs = "[demo_job 1000 ''a'' ''{}'']"
  have e: "jobs_in demo_menv hour_ms {2} ?jobs = []" "jobs_in demo_menv hour_ms {1} ?jobs = []"
    by (simp_all add: jobs_in_def hour_ms_def) (simp_all add: demo_job_def)
  show ?thesis
    using day_chart_covers_two_hours [of demo_menv "\<lambda>K. K" demo_mstate, OF demo_metrics_service demo_no_metrics, of 10000000 ?jobs]
    by (simp add: demo_redis hour_div e unexpired_jobs_def volume_total_def numeral_eq_Suc)
qed

end
