(* ===== verification/EventsProps.thy ===== *)
theory EventsProps
  imports Events ApiKeyProps MetricsCounts
begin

text \<open>
  Properties of the ingestion: whatever the interleaving, the server refines the event log of its
  specification, its four consumers agree with that log, and nothing but an error ends a stream.
\<close>

section \<open>The abstraction\<close>

definition stream_owner :: "stream \<Rightarrow> string" where
  "stream_owner s = hd (sm_metadata s OWNER_ID)"

definition stream_key :: "stream \<Rightarrow> string" where
  "stream_key s = hd (sm_metadata s API_KEY_ID)"

definition abs_log :: "('s, 'd) ingest \<Rightarrow> event_log" where
  "abs_log st = \<lparr>lg_streams = map (\<lambda>s. (stream_owner s, sm_error s = None)) (ig_streams st), lg_events = ig_metrics st\<rparr>"

definition key_id :: "api_key \<Rightarrow> string \<times> string \<times> bool" where
  "key_id a = (ak_key a, ak_ownerId a, ak_active a)"

text \<open>Who owns an active key.\<close>

definition owns_active :: "api_key list \<Rightarrow> string \<Rightarrow> string \<Rightarrow> bool" where
  "owns_active ds key ownerId = ((key, ownerId, True) \<in> key_id ` set ds)"

text \<open>The streams carry the metadata the interceptor set; the consumers agree.\<close>

definition streams_ok :: "('s, 'd) ingest \<Rightarrow> bool" where
  "streams_ok st = (\<forall>md \<in> set (map sm_metadata (ig_streams st)). \<exists>k ow. md API_KEY_ID = [k] \<and> md OWNER_ID = [ow])"

definition sinks_agree :: "('s, 'd) ingest \<Rightarrow> bool" where
  "sinks_agree st =
     (map fst (concat (eb_jobs (ig_batcher st)) @ eb_buffer (ig_batcher st)) = ig_metrics st
      \<and> (\<forall>ow. concat (wb_sent ow (ig_ws st)) @ wb_pending ow (ig_ws st) = map snd (filter (\<lambda>x. fst x = ow) (ig_metrics st)))
      \<and> (\<forall>s \<in> set (ig_streams st). set (sm_responses s) \<subseteq> {received})
      \<and> sum_list (map (\<lambda>s. length (sm_responses s)) (ig_streams st)) = length (ig_metrics st))"

lemma sum_list_update_nth:
  "i < length xs \<Longrightarrow> sum_list (map f (xs[i := x])) + f (xs ! i) = sum_list (map f xs) + (f x :: nat)"
  by (induction xs arbitrary: i) (auto split: nat.split)

lemma map_update_same: "f x = f (xs ! i) \<Longrightarrow> map f (xs[i := x]) = map f xs"
  by (cases "i < length xs") (auto intro!: nth_equalityI simp: nth_list_update)

lemma API_KEY_ID_OWNER_ID [simp]: "API_KEY_ID \<noteq> OWNER_ID" "OWNER_ID \<noteq> API_KEY_ID"
  by (simp_all add: API_KEY_ID_def OWNER_ID_def)

context api_key_collection
begin

lemma key_id_update: "map key_id (update_first p (ak_usageCount_update f) ds) = map key_id ds"
  by (rule map_update_first) (simp add: key_id_def)

lemma updateUsage_keeps: "map key_id (docs (snd (akm_updateUsage M ko c d))) = map key_id (docs d)"
proof (cases "ko = None \<or> c = NaN")
  case True
  then show ?thesis by (simp add: akm_updateUsage_bad)
next
  case False
  then obtain k n where "ko = Some k" "c = Num n" by (cases c) auto
  then show ?thesis
    using akm_updateUsage [of k n d "fst (akm_updateUsage M ko c d)" "snd (akm_updateUsage M ko c d)"]
    by (auto simp: key_id_update)
qed

lemma incrementUsage_keeps:
  "map key_id (docs (us_db (snd (incrementUsage R M now k u)))) = map key_id (docs (us_db u))"
  by (simp add: incrementUsage_defs Let_def repo_updateApiKeyUsage_def updateUsage_keeps split: prod.split)

lemma intercept_Inr:
  assumes "intercept M md d = Inr (md', a)"
  shows "\<exists>key. extractApiKeyFromHeader md = Some key \<and> owns_active (docs d) key (ak_ownerId a)
    \<and> md' API_KEY_ID = [ak_key a] \<and> md' OWNER_ID = [ak_ownerId a] \<and> ak_key a = key"
proof -
  from assms obtain key where key: "extractApiKeyFromHeader md = Some key" "validateApiKey M key d = Inr a"
    and md': "md' = md_set API_KEY_ID (ak_key a) (md_set OWNER_ID (ak_ownerId a) md)"
    by (auto simp: intercept_def split: option.splits if_splits sum.splits)
  from key(2) have "akm_findOne M key d = Inr (Some a)" "ak_active a"
    by (auto simp: validateApiKey_def repo_findApiKey_def split: sum.splits option.splits if_splits)
  then have "a \<in> set (docs d) \<and> has_key key a" "ak_active a"
    using akm_findOne find_SomeD by metis+
  then have "owns_active (docs d) key (ak_ownerId a)" "ak_key a = key"
    by (force simp: owns_active_def key_id_def has_key_def)+
  with key(1) show ?thesis by (auto simp: md' md_set_def)
qed

end

lemma on_next_open:
  assumes "streams_ok st" and "i < length (ig_streams st)"
  shows "on_next N now i e st = (Inr (), st\<lparr>ig_usage := snd (incrementUsage (ie_redis N) (ie_keys N) now
        (stream_key (ig_streams st ! i)) (ig_usage st)),
      ig_batcher := addStreamEvent now (stream_owner (ig_streams st ! i), e) (ig_batcher st),
      ig_ws := addEvent (stream_owner (ig_streams st ! i)) e (ig_ws st),
      ig_metrics := ig_metrics st @ [(stream_owner (ig_streams st ! i), e)],
      ig_streams := (ig_streams st)[i := (ig_streams st ! i)\<lparr>sm_responses := sm_responses (ig_streams st ! i) @ [received]\<rparr>]\<rparr>)"
proof -
  obtain k ow where "sm_metadata (ig_streams st ! i) API_KEY_ID = [k]" "sm_metadata (ig_streams st ! i) OWNER_ID = [ow]"
    using assms by (auto simp: streams_ok_def dest!: nth_mem)
  then show ?thesis by (simp add: on_next_def stream_owner_def stream_key_def Let_def)
qed

lemma addStreamEvent_conserves:
  "concat (eb_jobs (addStreamEvent now x b)) @ eb_buffer (addStreamEvent now x b) = concat (eb_jobs b) @ eb_buffer b @ [(x, now)]"
  using evb.conserve [of "Receive now x" b] by simp

lemma addEvent_conserves:
  "concat (wb_sent ow (addEvent k e w)) @ wb_pending ow (addEvent k e w)
    = concat (wb_sent ow w) @ wb_pending ow w @ (if k = ow then [e] else [])"
  using wsb.conserve [of ow "WsReceive k e" w] by simp

lemma flushBatch_conserves: "concat (eb_jobs (flushBatch b)) @ eb_buffer (flushBatch b) = concat (eb_jobs b) @ eb_buffer b"
  using evb.conserve [of Tick b] by simp

lemma flushAll_conserves:
  "concat (wb_sent ow (flushAllBatches w)) @ wb_pending ow (flushAllBatches w) = concat (wb_sent ow w) @ wb_pending ow w"
  using wsb.conserve [of ow WsTick w] by simp

section \<open>The simulation\<close>

definition ingest_inv :: "(string \<times> string \<times> bool) list \<Rightarrow> ('d \<Rightarrow> api_key list) \<Rightarrow> ('s, 'd) ingest \<Rightarrow> bool" where
  "ingest_inv ids docs st = (streams_ok st \<and> sinks_agree st \<and> map key_id (docs (us_db (ig_usage st))) = ids)"

lemma inv_start: "ingest_inv (map key_id (docs (us_db u))) docs (ingest_start u)"
  by (auto simp: ingest_inv_def streams_ok_def sinks_agree_def ingest_start_def eb_init_def wb_init_def
      wb_pending_def wb_sent_def)

lemma next_sinks:
  assumes "streams_ok st" and "sinks_agree st" and "i < length (ig_streams st)"
  shows "sinks_agree (snd (on_next N now i e st))"
proof -
  let ?s = "ig_streams st ! i"
  have m: "?s \<in> set (ig_streams st)" using assms(3) by simp
  have r: "\<forall>s \<in> set ((ig_streams st)[i := ?s\<lparr>sm_responses := sm_responses ?s @ [received]\<rparr>]). set (sm_responses s) \<subseteq> {received}"
    using assms(2) m set_update_subset_insert [of "ig_streams st" i] by (fastforce simp: sinks_agree_def)
  show ?thesis
    using assms(2) r sum_list_update_nth [OF assms(3), of "\<lambda>s. length (sm_responses s)"
        "?s\<lparr>sm_responses := sm_responses ?s @ [received]\<rparr>"]
    by (simp add: on_next_open [OF assms(1,3)] sinks_agree_def addStreamEvent_conserves addEvent_conserves)
qed

context api_key_collection
begin

lemma step_inv:
  assumes "ingest_step N now op st st'" and "ie_keys N = M" and "ingest_inv ids docs st"
  shows "ingest_inv ids docs st'"
  using assms(1)
proof cases
  case (open_step md)
  then show ?thesis
    using assms(2,3) intercept_Inr
    by (cases "intercept M md (us_db (ig_usage st))")
      (fastforce simp: open_stream_def ingest_inv_def streams_ok_def sinks_agree_def)+
next
  case (next_step i event)
  then have st': "st' = snd (on_next N now i event st)" and i: "i < length (ig_streams st)" by simp_all
  have "streams_ok st" "sinks_agree st" using assms(3) by (simp_all add: ingest_inv_def)
  note o = on_next_open [OF this(1) i] and sinks = next_sinks [OF this i]
  have "streams_ok st'"
    using \<open>streams_ok st\<close> by (simp add: st' o streams_ok_def map_update_same del: set_map)
  then show ?thesis
    using assms(2,3) sinks by (simp add: st' ingest_inv_def) (simp add: o incrementUsage_keeps)
next
  case (error_step i)
  then show ?thesis
    using assms(3) sum_list_update_nth [of i "ig_streams st" "\<lambda>s. length (sm_responses s)"
        "(ig_streams st ! i)\<lparr>sm_error := Some (RpcException ''Internal server error'')\<rparr>"]
      set_update_subset_insert [of "ig_streams st" i]
    by (fastforce simp: ingest_inv_def on_error_def streams_ok_def sinks_agree_def map_update_same simp del: set_map)
next
  case (task_step k)
  then show ?thesis
    using assms(3) by (simp add: run_task_def ingest_inv_def streams_ok_def sinks_agree_def Let_def split: option.split)
next
  case flush_step
  then show ?thesis
    using assms(3) by (simp add: ingest_inv_def streams_ok_def sinks_agree_def flushBatch_conserves)
next
  case ws_step
  then show ?thesis
    using assms(3) by (simp add: ingest_inv_def streams_ok_def sinks_agree_def flushAll_conserves)
qed (use assms(3) in simp)

lemma step_refines:
  assumes "ingest_step N now op st st'" and "ie_keys N = M" and "ingest_inv (map key_id ds) docs st"
  shows "log_step (owns_active ds) op (abs_log st) (abs_log st')"
  using assms(1)
proof cases
  case (open_step md)
  show ?thesis
  proof (cases "intercept M md (us_db (ig_usage st))")
    case (Inl e)
    then have "st' = st" using open_step assms(2) by (simp add: open_stream_def)
    with open_step show ?thesis by (simp add: log_refuse)
  next
    case (Inr x)
    obtain md' a where x: "x = (md', a)" by (cases x)
    from intercept_Inr [of md "us_db (ig_usage st)" md' a] Inr x obtain key
      where k: "extractApiKeyFromHeader md = Some key" "owns_active (docs (us_db (ig_usage st))) key (ak_ownerId a)"
        "md' OWNER_ID = [ak_ownerId a]" by auto
    have "owns_active ds key (ak_ownerId a)"
      using k(2) assms(3) unfolding owns_active_def ingest_inv_def set_map [symmetric] by metis
    from log_accept [of md key "owns_active ds" "ak_ownerId a" "abs_log st", OF k(1) this] show ?thesis
      using open_step Inr x k(3) assms(2) by (simp add: open_stream_def abs_log_def stream_owner_def)
  qed
next
  case (next_step i event)
  have "streams_ok st" using assms(3) by (simp add: ingest_inv_def)
  note o = on_next_open [OF this next_step(3), of N now event]
  have "abs_log st' = abs_log st\<lparr>lg_events := lg_events (abs_log st) @ [(stream_owner (ig_streams st ! i), event)]\<rparr>"
    by (simp add: next_step(2) o abs_log_def map_update_same stream_owner_def)
  moreover have "log_step (owns_active ds) (Next i event) (abs_log st)
      (abs_log st\<lparr>lg_events := lg_events (abs_log st) @ [(stream_owner (ig_streams st ! i), event)]\<rparr>)"
    using next_step by (intro log_event) (simp_all add: abs_log_def)
  ultimately show ?thesis by (simp add: next_step(1))
next
  case (error_step i)
  have "abs_log st' = abs_log st\<lparr>lg_streams := (lg_streams (abs_log st))[i := (stream_owner (ig_streams st ! i), False)]\<rparr>"
    by (simp add: error_step(2) on_error_def abs_log_def map_update stream_owner_def)
  moreover have "log_step (owns_active ds) (StreamError i) (abs_log st)
      (abs_log st\<lparr>lg_streams := (lg_streams (abs_log st))[i := (stream_owner (ig_streams st ! i), False)]\<rparr>)"
    using error_step by (intro log_error) (simp_all add: abs_log_def)
  ultimately show ?thesis by (simp add: error_step(1))
next
  case (task_step k)
  then have "abs_log st' = abs_log st" by (simp add: run_task_def abs_log_def Let_def split: option.split)
  with task_step show ?thesis by (simp add: log_skip)
qed (simp_all add: log_skip abs_log_def)

lemma runs_simulation:
  assumes "ingest_runs N ops (ingest_start u) st" and "ie_keys N = M"
  shows "log_runs (owns_active (docs (us_db u))) (map snd ops) \<lparr>lg_streams = [], lg_events = []\<rparr> (abs_log st)
    \<and> ingest_inv (map key_id (docs (us_db u))) docs st"
  using assms(1)
proof (induction "ingest_start u" st rule: ingest_runs.induct)
  case runs_nil
  then show ?case
    using inv_start [of docs u] by (simp add: abs_log_def ingest_start_def log_nil)
next
  case (runs_snoc ops st' now op st'')
  then show ?case
    using step_inv [OF _ assms(2)] step_refines [OF _ assms(2)] by (auto intro: log_snoc)
qed

end

section \<open>Properties\<close>

text \<open>
  C2: The ingestion refines an event log. Whatever the interleaving of streams, errors, timers and pending
  commands, every run of the server is a run of the specification with the same events: a stream is accepted
  only with an active key and belongs to that key's owner (the owner a client claims in its own metadata is
  overwritten), and each of its events is logged once, under that owner. The batches for the database, those
  for the websocket of each owner, the metrics jobs and the responses all agree with that log.
\<close>

theorem ingestion_refines_event_log:
  assumes "api_key_collection (ie_keys N) docs" and "ingest_runs N ops (ingest_start u) st"
  shows "log_runs (owns_active (docs (us_db u))) (map snd ops) \<lparr>lg_streams = [], lg_events = []\<rparr> (abs_log st) \<and> sinks_agree st"
  using api_key_collection.runs_simulation [OF assms(1,2) refl] by (simp add: ingest_inv_def)

definition demo_ingest_env :: "(keyspace, key_db) ingest_env" where
  "demo_ingest_env = \<lparr>ie_redis = mem_redis, ie_keys = mem_keys\<rparr>"

definition demo_md :: metadata where
  "demo_md = (\<lambda>k. [])(''x-api-key'' := [''k1''], OWNER_ID := [''victim''])"

definition demo_opened :: "(keyspace, key_db) ingest" where
  "demo_opened = snd (open_stream demo_ingest_env demo_md (ingest_start demo_usage))"

definition demo_sent :: "(keyspace, key_db) ingest" where
  "demo_sent = snd (on_next demo_ingest_env 2 0 (demo_event ''a'' ''{}'') demo_opened)"

lemma demo_intercept:
  "intercept mem_keys demo_md (us_db demo_usage)
    = Inr (md_set API_KEY_ID ''k1'' (md_set OWNER_ID ''u1'' demo_md), demo_key)"
  by (simp add: intercept_def extractApiKeyFromHeader_def demo_md_def OWNER_ID_def validateApiKey_def repo_findApiKey_def
      mem_keys_def demo_usage_docs has_key_def demo_key_fields)

lemma demo_runs: "ingest_runs demo_ingest_env [(1, OpenStream demo_md), (2, Next 0 (demo_event ''a'' ''{}''))]
    (ingest_start demo_usage) demo_sent"
proof -
  have "ingest_runs demo_ingest_env ([] @ [(1, OpenStream demo_md)]) (ingest_start demo_usage) demo_opened"
    unfolding demo_opened_def by (rule runs_snoc [OF runs_nil open_step])
  moreover have "ingest_step demo_ingest_env 2 (Next 0 (demo_event ''a'' ''{}'')) demo_opened demo_sent"
    unfolding demo_sent_def
    by (rule next_step) (simp_all add: demo_opened_def open_stream_def demo_ingest_env_def ingest_start_def demo_intercept)
  ultimately show ?thesis using runs_snoc by fastforce
qed

lemma demo_keys: "api_key_collection (ie_keys demo_ingest_env) key_docs"
  by (simp add: demo_ingest_env_def memk.api_key_collection_axioms)

theorem ingestion_refines_event_log_witness:
  "log_runs (owns_active [demo_key]) [OpenStream demo_md, Next 0 (demo_event ''a'' ''{}'')]
    \<lparr>lg_streams = [], lg_events = []\<rparr> (abs_log demo_sent)"
  using ingestion_refines_event_log [OF demo_keys demo_runs] by (simp add: demo_usage_docs)

text \<open>
  Nothing that was acknowledged stays behind. After any run, one tick of each batcher is possible, leaves
  the log as it is, and puts every logged event into a job for the database and, per owner, into a job
  for the websocket, in the order of the log.
\<close>

theorem logged_events_reach_their_jobs:
  assumes "api_key_collection (ie_keys N) docs" and "ingest_runs N ops (ingest_start u) st"
  shows "\<exists>st'. ingest_runs N (ops @ [(t, FlushTick), (t', WebSocketTick)]) (ingest_start u) st'
    \<and> ig_metrics st' = ig_metrics st \<and> map fst (concat (eb_jobs (ig_batcher st'))) = ig_metrics st
    \<and> (\<forall>ow. concat (wb_sent ow (ig_ws st')) = map snd (filter (\<lambda>x. fst x = ow) (ig_metrics st)))"
proof -
  define st1 where "st1 = st\<lparr>ig_batcher := flushBatch (ig_batcher st)\<rparr>"
  define st2 where "st2 = st1\<lparr>ig_ws := flushAllBatches (ig_ws st1)\<rparr>"
  have r: "ingest_runs N ((ops @ [(t, FlushTick)]) @ [(t', WebSocketTick)]) (ingest_start u) st2"
    unfolding st2_def st1_def by (intro runs_snoc [OF _ ws_step] runs_snoc [OF assms(2) flush_step])
  then have "sinks_agree st2"
    using api_key_collection.runs_simulation [OF assms(1) r refl] by (simp add: ingest_inv_def)
  then have "map fst (concat (eb_jobs (ig_batcher st2))) = ig_metrics st"
    "concat (wb_sent ow (ig_ws st2)) = map snd (filter (\<lambda>x. fst x = ow) (ig_metrics st))" for ow
    by (auto simp: sinks_agree_def st2_def st1_def flushBatch_sel flushAll_sel)
  with r show ?thesis by (intro exI [of _ st2]) (simp add: st2_def st1_def)
qed

theorem logged_events_reach_their_jobs_witness:
  "\<exists>st' :: (keyspace, key_db) ingest. map fst (concat (eb_jobs (ig_batcher st'))) = ig_metrics demo_sent \<and> ig_metrics demo_sent \<noteq> []"
proof -
  have "ig_metrics demo_sent = ig_metrics demo_opened @ [(stream_owner (ig_streams demo_opened ! 0), demo_event ''a'' ''{}'')]"
    unfolding demo_sent_def
    by (subst on_next_open)
      (simp_all add: streams_ok_def demo_opened_def open_stream_def demo_ingest_env_def ingest_start_def demo_intercept md_set_def)
  then have "ig_metrics demo_sent \<noteq> []" by simp
  moreover obtain st' :: "(keyspace, key_db) ingest" where "map fst (concat (eb_jobs (ig_batcher st'))) = ig_metrics demo_sent"
    using logged_events_reach_their_jobs [OF demo_keys demo_runs, of 3 4] by blast
  ultimately show ?thesis by blast
qed

text \<open>
  C32: The usage limit does not stop a stream. In every reachable state, and whatever the database and the counters have come to
  say of the stream's key since (deactivated, deleted, over its limit), an event of an open stream is counted for that key, handed to the
  two batchers and the metrics, and acknowledged, also when the report of that very increment says that the limit is exceeded.
\<close>

theorem open_streams_are_never_limited:
  assumes "api_key_collection (ie_keys N) docs" and "ingest_runs N ops (ingest_start u) st"
    and "i < length (ig_streams st)" and "sm_error (ig_streams st ! i) = None"
    and "inc = incrementUsage (ie_redis N) (ie_keys N) now (stream_key (ig_streams st ! i)) usage"
  shows "\<exists>st'. on_next N now i e (st\<lparr>ig_usage := usage\<rparr>) = (Inr (), st') \<and> ig_usage st' = snd inc
    \<and> ig_batcher st' = addStreamEvent now (stream_owner (ig_streams st ! i), e) (ig_batcher st)
    \<and> ig_ws st' = addEvent (stream_owner (ig_streams st ! i)) e (ig_ws st)
    \<and> ig_metrics st' = ig_metrics st @ [(stream_owner (ig_streams st ! i), e)]
    \<and> sm_responses (ig_streams st' ! i) = sm_responses (ig_streams st ! i) @ [received]
    \<and> sm_error (ig_streams st' ! i) = None"
proof -
  have "streams_ok st"
    using api_key_collection.runs_simulation [OF assms(1,2) refl] by (simp add: ingest_inv_def)
  then have "streams_ok (st\<lparr>ig_usage := usage\<rparr>)" by (simp add: streams_ok_def)
  from on_next_open [OF this, of i N now e] show ?thesis by (simp add: assms(3-5))
qed

text \<open>
  In the witness the key's limit is 999 and its count 998 when the stream opens and is initialised; the second
  event exceeds the limit and is acknowledged all the same.
\<close>

definition demo_ready :: "(keyspace, key_db) ingest" where
  "demo_ready = run_task demo_ingest_env 2 0 (run_task demo_ingest_env 2 0 demo_opened)"

definition demo_first :: "(keyspace, key_db) ingest" where
  "demo_first = snd (on_next demo_ingest_env 3 0 (demo_event ''a'' ''{}'') demo_ready)"

lemma demo_opened_eq: "demo_opened = (ingest_start demo_usage)\<lparr>ig_tasks := [\<lparr>it_status = status_of demo_key, it_exists = None\<rparr>],
    ig_streams := [\<lparr>sm_metadata = md_set API_KEY_ID ''k1'' (md_set OWNER_ID ''u1'' demo_md), sm_responses = [], sm_error = None\<rparr>]\<rparr>"
  by (simp add: demo_opened_def open_stream_def demo_ingest_env_def ingest_start_def demo_intercept)

lemma demo_ready_eq: "demo_ready = demo_opened\<lparr>ig_tasks := [],
    ig_usage := demo_usage\<lparr>us_redis := initializeApiKeyUsage mem_redis 2 ''k1'' (status_of demo_key) (us_redis demo_usage)\<rparr>\<rparr>"
  by (simp add: demo_ready_def run_task_def demo_opened_eq demo_ingest_env_def ingest_start_def
      initializeApiKeyUsage_def status_of_def demo_key_fields)

lemma demo_first_eq:
  "ig_usage demo_first = snd (incrementUsage mem_redis mem_keys 3 ''k1'' (ig_usage demo_ready))"
  "length (ig_streams demo_first) = 1" "sm_error (ig_streams demo_first ! 0) = None" "stream_key (ig_streams demo_first ! 0) = ''k1''"
  by (simp_all add: demo_first_def on_next_def demo_ready_eq demo_opened_eq md_set_def API_KEY_ID_def OWNER_ID_def
      demo_ingest_env_def stream_key_def)

lemma demo_first_runs: "ingest_runs demo_ingest_env [(1, OpenStream demo_md), (2, TaskStep 0), (2, TaskStep 0),
    (3, Next 0 (demo_event ''a'' ''{}''))] (ingest_start demo_usage) demo_first"
proof -
  have a: "ingest_runs demo_ingest_env ([] @ [(1, OpenStream demo_md)]) (ingest_start demo_usage) demo_opened"
    unfolding demo_opened_def by (rule runs_snoc [OF runs_nil open_step])
  have t: "0 < length (ig_tasks demo_opened)" "0 < length (ig_tasks (run_task demo_ingest_env 2 0 demo_opened))"
    by (simp_all add: demo_opened_eq run_task_def)
  have s: "0 < length (ig_streams demo_ready)" "sm_error (ig_streams demo_ready ! 0) = None"
    by (simp_all add: demo_ready_eq demo_opened_eq)
  note b = runs_snoc [OF runs_snoc [OF a task_step [OF t(1)]] task_step [OF t(2), where now = 2], folded demo_ready_def]
  show ?thesis using runs_snoc [OF b next_step [OF s]] by (simp add: demo_first_def)
qed

theorem open_streams_are_never_limited_witness:
  "fst (on_next demo_ingest_env 4 0 (demo_event ''b'' ''{}'') demo_first) = Inr ()
    \<and> ur_limitExceeded (fst (incrementUsage mem_redis mem_keys 4 ''k1'' (ig_usage demo_first)))"
proof -
  have f: "find (has_key (ak_key demo_key)) (key_docs (us_db demo_usage)) = Some demo_key"
    by (simp add: demo_usage_docs has_key_def)
  have "metered (\<lambda>K. K) key_docs ''k1'' ''k1'' 999 998 0 (ig_usage demo_ready)"
    using demo_usage.initialize_metered [OF _ _ f, of "''k1''" 2]
    by (simp add: demo_ready_eq demo_key_fields) (simp add: demo_usage_def)
  from demo_usage.increment_metered(1) [OF this, of 3]
  have "metered (\<lambda>K. K) key_docs ''k1'' ''k1'' 999 998 (Suc 0) (ig_usage demo_first)" by (simp add: demo_first_eq)
  from demo_usage.increment_metered(3) [OF this, of 4]
  have limit: "ur_limitExceeded (fst (incrementUsage mem_redis mem_keys 4 ''k1'' (ig_usage demo_first)))" by simp
  have i: "0 < length (ig_streams demo_first)" by (simp add: demo_first_eq)
  from open_streams_are_never_limited [OF demo_keys demo_first_runs i demo_first_eq(3) refl, of 4 "demo_event ''b'' ''{}''" "ig_usage demo_first"] limit
  show ?thesis by auto
qed

end
