(* ===== verification/GatewayProps.thy ===== *)
theory GatewayProps
  imports Gateway
begin

text \<open>
  Properties of the websocket gateway: a broadcast for a user reaches exactly the open connections whose token
  was verified for that user, and a connection that closes while its token is verified is never forgotten.
\<close>

definition verified_claims :: "jwt \<Rightarrow> jwt_params \<Rightarrow> claims \<Rightarrow> bool" where
  "verified_claims J P c = (\<exists>t tok. jw_verify J P t tok = Inr c)"

definition gw_inv :: "jwt \<Rightarrow> jwt_params \<Rightarrow> 'p gateway \<Rightarrow> bool" where
  "gw_inv J P g =
     ((\<forall>c cl. gw_data g c = Some cl \<longrightarrow> verified_claims J P cl)
      \<and> (\<forall>room c. (room, c) \<in> set (gw_rooms g) \<longrightarrow> (\<exists>cl. gw_data g c = Some cl \<and> room = user_room (c_sub cl)))
      \<and> (\<forall>c cl. c \<in> set (gw_open g) \<and> gw_data g c = Some cl \<longrightarrow> (user_room (c_sub cl), c) \<in> set (gw_rooms g))
      \<and> (\<forall>c \<in> fst ` set (gw_pending g). gw_data g c = None)
      \<and> distinct (map fst (gw_pending g)) \<and> distinct (gw_open g))"

lemma user_room_inject [simp]: "user_room u = user_room v \<longleftrightarrow> u = v"
  by (simp add: user_room_def)

lemma emit_sel [simp]:
  "gw_data (emit c m g) = gw_data g" "gw_rooms (emit c m g) = gw_rooms g" "gw_open (emit c m g) = gw_open g"
  "gw_pending (emit c m g) = gw_pending g" "gw_connectedClients (emit c m g) = gw_connectedClients g"
  "gw_isInitialized (emit c m g) = gw_isInitialized g"
  by (simp_all add: emit_def)

lemma emit_room_sel [simp]:
  "gw_data (emit_room r m g) = gw_data g" "gw_rooms (emit_room r m g) = gw_rooms g" "gw_open (emit_room r m g) = gw_open g"
  "gw_pending (emit_room r m g) = gw_pending g" "gw_connectedClients (emit_room r m g) = gw_connectedClients g"
  by (simp_all add: emit_room_def)

lemma join_sel [simp]:
  "gw_data (join r c g) = gw_data g" "gw_open (join r c g) = gw_open g" "gw_pending (join r c g) = gw_pending g"
  "gw_connectedClients (join r c g) = gw_connectedClients g" "set (gw_rooms (join r c g)) = insert (r, c) (set (gw_rooms g))"
  by (auto simp: join_def)

lemma disconnect_sel [simp]:
  "gw_data (disconnect c g) = gw_data g" "gw_open (disconnect c g) = removeAll c (gw_open g)"
  "gw_pending (disconnect c g) = gw_pending g"
  "set (gw_rooms (disconnect c g)) = (if c \<in> set (gw_open g) then {rc \<in> set (gw_rooms g). snd rc \<noteq> c} else set (gw_rooms g))"
  "gw_connectedClients (disconnect c g) = (if c \<in> set (gw_open g) then removeAll c (gw_connectedClients g) else gw_connectedClients g)"
  by (auto simp: disconnect_def handleDisconnect_def Let_def split: option.split)

lemma gw_inv_disconnect: "gw_inv J P g \<Longrightarrow> gw_inv J P (disconnect c g)"
  by (auto simp: gw_inv_def distinct_removeAll)

lemma gw_inv_emit: "gw_inv J P (emit c m g) = gw_inv J P g"
  by (simp add: gw_inv_def)

lemma remove1_key: "distinct (map fst xs) \<Longrightarrow> (k, v) \<in> set xs \<Longrightarrow> k \<notin> fst ` set (remove1 (k, v) xs)"
  by (induction xs) force+

lemma distinct_remove1_key: "distinct (map fst xs) \<Longrightarrow> distinct (map fst (remove1 x xs))"
  by (induction xs) (force dest: subsetD [OF set_remove1_subset])+

lemma gw_inv_step:
  assumes "gw_step J P g g'" and "gw_inv J P g"
  shows "gw_inv J P g'"
  using assms(1)
proof cases
  case (gw_connect client hs)
  have "gw_inv J P (g\<lparr>gw_open := client # gw_open g\<rparr>)"
    using assms(2) gw_connect by (auto simp: gw_inv_def)
  moreover have "gw_inv J P (g\<lparr>gw_open := client # gw_open g, gw_pending := gw_pending g @ [(client, token)]\<rparr>)" for token
    using assms(2) gw_connect by (auto simp: gw_inv_def)
  ultimately show ?thesis
    by (auto simp: gw_connect(1) connect_def Let_def gw_inv_disconnect gw_inv_emit split: option.split)
next
  case (gw_verified client token now)
  then have n: "gw_data g client = None" and out: "(room, client) \<notin> set (gw_rooms g)" for room
    using assms(2) by (force simp: gw_inv_def)+
  have "distinct (map fst (gw_pending g))" using assms(2) by (simp add: gw_inv_def)
  note p = remove1_key [OF this gw_verified(2)] and p2 = distinct_remove1_key [OF this, of "(client, token)"]
  have p3: "fst ` set (remove1 (client, token) (gw_pending g)) \<subseteq> fst ` set (gw_pending g)"
    by (intro image_mono set_remove1_subset)
  show ?thesis
  proof (cases "jw_verify J P now token")
    case (Inl e)
    have "gw_inv J P (g\<lparr>gw_pending := remove1 (client, token) (gw_pending g)\<rparr>)"
      using assms(2) p2 p3 by (auto simp: gw_inv_def)
    then show ?thesis by (simp add: gw_verified(1) verified_def Inl gw_inv_disconnect gw_inv_emit Let_def)
  next
    case (Inr cl)
    then have "verified_claims J P cl" by (auto simp: verified_claims_def)
    then show ?thesis
      using assms(2) n out p p2 p3
      by (auto simp: gw_verified(1) verified_def Inr sendInitialData_def gw_inv_def Let_def)
  qed
qed (use assms(2) in \<open>simp_all add: gw_inv_def distinct_removeAll afterInit_def broadcastToUser_def broadcastMetrics_def\<close>)

lemma gw_reachable_inv: "gw_reachable J P g \<Longrightarrow> gw_inv J P g"
proof (induction rule: gw_reachable.induct)
  case gw_reach_start
  then show ?case by (simp add: gw_inv_def gw_start_def)
next
  case (gw_reach_step g g')
  then show ?case by (blast intro: gw_inv_step)
qed

lemma gw_inv_members:
  assumes "gw_inv J P g"
  shows "set (members (user_room u) g) = {c \<in> set (gw_open g). \<exists>cl. gw_data g c = Some cl \<and> c_sub cl = u}"
    and "distinct (members (user_room u) g)"
  using assms by (fastforce simp: members_def gw_inv_def)+

section \<open>Properties\<close>

text \<open>
  C13: A broadcast reaches exactly its user. In every reachable state, the events and, once the server is
  initialised, the metrics broadcast to a user go once to each open connection whose token was verified for that
  subject, and to no other; the user data of a connection always come from a verified token.
\<close>

theorem broadcasts_reach_exactly_the_user:
  assumes "gw_reachable J P g" and "to = members (user_room u) g"
  shows "gw_sent (broadcastToUser u p g) = gw_sent g @ map (\<lambda>c. (c, Broadcast ''events'' p)) to
    \<and> gw_sent (broadcastMetrics u p g)
        = gw_sent g @ (if gw_isInitialized g then map (\<lambda>c. (c, Broadcast ''dashboard_data'' p)) to else [])
    \<and> distinct to \<and> set to = {c \<in> set (gw_open g). \<exists>cl. gw_data g c = Some cl \<and> c_sub cl = u}
    \<and> (\<forall>c cl. gw_data g c = Some cl \<longrightarrow> (\<exists>t tok. jw_verify J P t tok = Inr cl))"
  using gw_reachable_inv [OF assms(1)] gw_inv_members [OF gw_reachable_inv [OF assms(1)], of u] assms(2)
  by (simp add: broadcastToUser_def broadcastMetrics_def emit_room_def gw_inv_def verified_claims_def)

definition demo_claims :: "string \<Rightarrow> claims" where
  "demo_claims u = \<lparr>c_sub = u, c_email = None, c_role = None, c_refreshTokenId = None\<rparr>"

definition demo_hs :: "string \<Rightarrow> handshake" where
  "demo_hs u = \<lparr>hs_token = Some (QText (enc_token 100 (demo_claims u))), hs_authorization = None\<rparr>"

definition demo_P :: jwt_params where
  "demo_P = \<lparr>jp_secret = Some ''s'', jp_audience = None, jp_issuer = None\<rparr>"

definition demo_waiting :: "string gateway" where
  "demo_waiting = connect ''s1'' (demo_hs ''u1'') (afterInit gw_start)"

definition demo_online :: "string gateway" where
  "demo_online = verified mem_jwt demo_P 5000 ''s1'' (enc_token 100 (demo_claims ''u1'')) demo_waiting"

lemma enc_token_nonempty: "enc_token e c \<noteq> []"
  by (simp add: enc_token_def enc_field_def)

lemma demo_verify: "jw_verify mem_jwt P 5000 (enc_token 100 c) = Inr c"
  by (simp add: mem_jwt_def)

lemma demo_waiting_eq: "demo_waiting = (afterInit gw_start)\<lparr>gw_open := [''s1''],
    gw_pending := [(''s1'', enc_token 100 (demo_claims ''u1''))]\<rparr>"
  by (simp add: demo_waiting_def connect_def ws_extractToken_def demo_hs_def enc_token_nonempty afterInit_def gw_start_def Let_def)

lemma demo_waiting_reachable: "gw_reachable mem_jwt demo_P demo_waiting"
proof -
  have "gw_reachable mem_jwt demo_P (afterInit gw_start :: string gateway)"
    by (rule gw_reach_step [OF gw_reach_start gw_init])
  then show ?thesis
    unfolding demo_waiting_def by (rule gw_reach_step, intro gw_connect) (simp_all add: afterInit_def gw_start_def)
qed

lemma demo_online_reachable: "gw_reachable mem_jwt demo_P demo_online"
  unfolding demo_online_def
  by (rule gw_reach_step [OF demo_waiting_reachable], rule gw_verified) (simp add: demo_waiting_eq)

theorem broadcasts_reach_exactly_the_user_witness:
  "(\<exists>cs. distinct cs \<and> set cs = {''s1''} \<and>
     gw_sent (broadcastToUser ''u1'' ''x'' demo_online) = gw_sent demo_online @ map (\<lambda>c. (c, Broadcast ''events'' ''x'')) cs)"
proof -
  have m: "members (user_room ''u1'') demo_online = [''s1'']"
    by (simp add: demo_online_def verified_def demo_verify demo_waiting_eq sendInitialData_def join_def emit_def
        afterInit_def gw_start_def members_def demo_claims_def Let_def)
  show ?thesis
    using broadcasts_reach_exactly_the_user [OF demo_online_reachable refl, of "''u1''" "''x''"]
    by (intro exI [of _ "members (user_room ''u1'') demo_online"]) (simp add: m)
qed



end
