(* ===== verification/MetricsViews.thy ===== *)
theory MetricsViews
  imports MetricsCounts
begin

text \<open>
  What the dashboard makes of the counts: the top list, the distribution, the switch to the
  inactive view, the live buffer, and the events that break a view.
\<close>

section \<open>Tables\<close>

lemma top_of_sort:
  assumes "all_num f xs" and "x \<in> set xs" and "x \<notin> set (take n (sort_desc f xs))"
  shows "length (take n (sort_desc f xs)) = n \<and> (\<forall>y \<in> set (take n (sort_desc f xs)). num_ge (f y) (f x))"
proof -
  let ?s = "sort_desc f xs"
  have "x \<in> set (take n ?s @ drop n ?s)" using assms(2) by simp
  then have d: "x \<in> set (drop n ?s)" using assms(3) by (simp only: set_append Un_iff) blast
  have "desc_by f (take n ?s @ drop n ?s)" using sort_desc_sorted [OF assms(1)] by simp
  then have "\<forall>y \<in> set (take n ?s). num_ge (f y) (f x)"
    using d unfolding desc_by_def sorted_wrt_append by blast
  moreover have "n < length ?s" using d by (cases "n < length ?s") simp_all
  ultimately show ?thesis by simp
qed

lemma desc_by_take: "desc_by f xs \<Longrightarrow> desc_by f (take n xs)"
  unfolding desc_by_def by (metis append_take_drop_id sorted_wrt_append)

lemma sum_sort_desc: "sum_list (map g (sort_desc f xs)) = sum_list (map (g :: _ \<Rightarrow> 'b::comm_monoid_add) xs)"
  by (metis mset_map mset_sort_desc sum_mset_sum_list)

context metrics_service
begin

lemma window_types:
  assumes "\<And>f m. ks (ms_redis st0) (family_key f m) = None"
    and "\<forall>j \<in> set (active_jobs M t jobs). er_eventName (jb_event j) \<notin> set inherited_names"
  shows "tally (wm_eventTypes (getActiveWindowMetrics (me_redis M) t t (ms_redis (fold (run_job M) jobs st0))))
      (\<lambda>name. int (length (filter (named name) (active_jobs M t jobs))))"
proof -
  have E: "in_periods minute_ms (window_minutes t 0) (history M jobs) = map recorded_of (active_jobs M t jobs)"
    by (simp add: in_periods_history active_minutes active_jobs_def)
  have "tally (merged_family (me_redis M) t ''event_types'' (window_points t 0) (ms_redis (fold (run_job M) jobs st0)))
      (field_count type_fields (map recorded_of (active_jobs M t jobs)))"
    unfolding E [symmetric]
  proof (rule window_tally [OF minute_families(2) run_family [OF minute_families(2) assms(1)]])
    fix g
    assume "g \<in> set inherited_names"
    then have "filter (named g) (active_jobs M t jobs) = []"
      using assms(2) by (auto simp: filter_empty_conv named_def)
    then show "field_count type_fields (in_periods minute_ms (window_minutes t 0) (history M jobs)) g = 0"
      by (simp add: E count_type)
  qed
  moreover have "field_count type_fields (map recorded_of (active_jobs M t jobs))
      = (\<lambda>name. int (length (filter (named name) (active_jobs M t jobs))))"
    by (rule ext) (rule count_type)
  ultimately show ?thesis by (simp add: getActiveWindowMetrics_def Let_def)
qed

end

definition counted_rows :: "(string \<Rightarrow> int) \<Rightarrow> count_row list \<Rightarrow> bool" where
  "counted_rows n rows = (distinct (map cr_name rows) \<and> (\<forall>r \<in> set rows. 0 < n (cr_name r) \<and> cr_count r = Num (n (cr_name r))))"

lemma count_rows_tally:
  assumes "tally d n"
  shows "counted_rows n (count_rows (filter (\<lambda>(k, _). P k) d))"
    and "cr_name ` set (count_rows (filter (\<lambda>(k, _). P k) d)) = {k. P k \<and> 0 < n k}"
proof -
  have e: "count_rows (filter (\<lambda>(k, _). P k) d) = map (\<lambda>kv. \<lparr>cr_name = fst kv, cr_count = Num (n (fst kv))\<rparr>) (filter (\<lambda>(k, _). P k) d)"
    unfolding count_rows_def by (intro map_cong refl) (auto dest!: tally_entry [OF assms])
  have dist: "distinct (map fst d)" using assms by (simp add: tally_def)
  have "distinct (map fst (filter (\<lambda>(k, _). P k) d))"
    using dist by (induction d) auto
  then show "counted_rows n (count_rows (filter (\<lambda>(k, _). P k) d))"
    using tally_entry [OF assms] by (auto simp: counted_rows_def e comp_def)
  show "cr_name ` set (count_rows (filter (\<lambda>(k, _). P k) d)) = {k. P k \<and> 0 < n k}"
  proof (rule set_eqI)
    fix k
    have "k \<in> fst ` set d \<longleftrightarrow> 0 < n k"
      using assms map_of_eq_None_iff [of d k] unfolding tally_def by (metis antisym_conv2 option.distinct(1))
    then show "k \<in> cr_name ` set (count_rows (filter (\<lambda>(k, _). P k) d)) \<longleftrightarrow> k \<in> {k. P k \<and> 0 < n k}"
      by (force simp: e)
  qed
qed

text \<open>What the top list is for exact counts.\<close>

definition top_rows :: "(string \<Rightarrow> int) \<Rightarrow> count_row list \<Rightarrow> bool" where
  "top_rows n rows = (length rows \<le> 10 \<and> desc_by cr_count rows \<and> distinct (map cr_name rows)
    \<and> (\<forall>r \<in> set rows. cr_name r \<noteq> ''total_events'' \<and> 0 < n (cr_name r) \<and> cr_count r = Num (n (cr_name r)))
    \<and> (\<forall>name. name \<noteq> ''total_events'' \<and> 0 < n name \<and> name \<notin> cr_name ` set rows \<longrightarrow>
         length rows = 10 \<and> (\<forall>r \<in> set rows. n name \<le> n (cr_name r))))"

lemma top_rows_tally:
  assumes "tally d n"
  shows "top_rows n (processTopEvents d)"
proof -
  define all where "all = count_rows (filter (\<lambda>(key, _). key \<noteq> ''total_events'') d)"
  define rows where "rows = take 10 (sort_desc cr_count all)"
  note all = count_rows_tally [OF assms, of "\<lambda>k. k \<noteq> ''total_events''", folded all_def]
  have num: "all_num cr_count all" using all(1) by (auto simp: all_num_def counted_rows_def list_all_iff)
  have sub: "set rows \<subseteq> set all" using set_take_subset [of 10 "sort_desc cr_count all"] by (simp add: rows_def)
  have "distinct (map cr_name (sort_desc cr_count all))"
    using all(1) by (metis counted_rows_def mset_eq_imp_distinct_iff mset_map mset_sort_desc)
  then have dist: "distinct (map cr_name rows)" by (simp add: rows_def take_map [symmetric] distinct_take)
  have vals: "\<forall>r \<in> set rows. cr_name r \<noteq> ''total_events'' \<and> 0 < n (cr_name r) \<and> cr_count r = Num (n (cr_name r))"
    using sub all unfolding counted_rows_def by blast
  have rest: "length rows = 10 \<and> (\<forall>r \<in> set rows. n name \<le> n (cr_name r))"
    if out: "name \<noteq> ''total_events''" "0 < n name" "name \<notin> cr_name ` set rows" for name
  proof -
    have "name \<in> cr_name ` set all" using out(1,2) by (simp add: all(2))
    then obtain x where x: "x \<in> set all" "cr_name x = name" by blast
    then have v: "cr_count x = Num (n name)" using all(1) unfolding counted_rows_def by metis
    have "x \<notin> set (take 10 (sort_desc cr_count all))" using out(3) x(2) unfolding rows_def by blast
    from top_of_sort [OF num x(1) this]
    have "length rows = 10" "\<forall>y \<in> set rows. num_ge (cr_count y) (Num (n name))"
      by (simp_all add: v rows_def)
    with vals show ?thesis by auto
  qed
  have "top_rows n rows"
    unfolding top_rows_def
  proof (intro conjI allI impI)
    show "desc_by cr_count rows" using desc_by_take [OF sort_desc_sorted [OF num]] by (simp add: rows_def)
    show "length rows \<le> 10" by (simp add: rows_def)
  qed (use dist vals rest in blast)+
  then show ?thesis by (simp add: rows_def all_def processTopEvents_def)
qed

text \<open>
  C25: The top list. When no event of the active window is called like a property every object has, the
  list holds at most ten names, each once, in descending order of their exact counts in the window, and
  a name left out (other than \<^verbatim>\<open>total_events\<close>) means that there are ten and none of them has a smaller count.
\<close>

theorem top_events_exact:
  assumes "metrics_service M ks" and "\<And>f m. ks (ms_redis st0) (family_key f m) = None"
    and "js = active_jobs M t jobs" and "\<forall>j \<in> set js. er_eventName (jb_event j) \<notin> set inherited_names"
    and "n = (\<lambda>name. int (length (filter (named name) js)))"
    and "rows = processTopEvents (wm_eventTypes (getActiveWindowMetrics (me_redis M) t t (ms_redis (fold (run_job M) jobs st0))))"
  shows "length rows \<le> 10 \<and> desc_by cr_count rows \<and> distinct (map cr_name rows)
    \<and> (\<forall>r \<in> set rows. cr_name r \<noteq> ''total_events'' \<and> 0 < n (cr_name r) \<and> cr_count r = Num (n (cr_name r)))
    \<and> (\<forall>name. name \<noteq> ''total_events'' \<and> 0 < n name \<and> name \<notin> cr_name ` set rows \<longrightarrow>
         length rows = 10 \<and> (\<forall>r \<in> set rows. n name \<le> n (cr_name r)))"
proof -
  have "tally (wm_eventTypes (getActiveWindowMetrics (me_redis M) t t (ms_redis (fold (run_job M) jobs st0)))) n"
    using metrics_service.window_types [OF assms(1,2), of t jobs] assms(3-5) by simp
  from top_rows_tally [OF this] show ?thesis
    unfolding assms(6) [symmetric] top_rows_def .
qed

theorem top_events_exact_witness:
  "length (processTopEvents (wm_eventTypes (getActiveWindowMetrics mem_redis 400000 400000
     (ms_redis (fold (run_job demo_menv) [demo_job 390000 ''b'' ''{}''] demo_mstate))))) \<le> 10"
proof -
  let ?jobs = "[demo_job 390000 ''b'' ''{}'']"
  have "\<forall>j \<in> set (active_jobs demo_menv 400000 ?jobs). er_eventName (jb_event j) \<notin> set inherited_names"
    by (auto simp: active_jobs_def jobs_in_def demo_job_def demo_event_def inherited_names_def)
  from top_events_exact [of demo_menv "\<lambda>K. K" demo_mstate "active_jobs demo_menv 400000 ?jobs" 400000 ?jobs,
      OF demo_metrics_service demo_no_metrics refl this refl refl, THEN conjunct1]
  show ?thesis by (simp only: demo_redis)
qed

end
