(* ===== verification/MetricsActive.thy ===== *)
theory MetricsActive
  imports MetricsViews
begin

text \<open>
  The switch between the active and the inactive dashboard, the live buffer, and who sees whose numbers.
\<close>

section \<open>The activity key\<close>

definition activity_key :: string where
  "activity_key = ''metrics:last_activity''"

lemma activity_key_metric [simp]: "metric_key f (show_int i) \<noteq> activity_key" "activity_key \<noteq> metric_key f (show_int i)"
  by (simp_all add: activity_key_def)

context metrics_service
begin

lemma count_value_activity:
  "ks (count_value (me_redis M) now (metric_key f (show_int i)) args ttl s) activity_key = ks s activity_key"
  by (simp add: count_value_def ks_simps split: list.split)

lemma updates_keep_activity:
  "ks (updateVolumeMetrics (me_redis M) now (show_int i) (show_int h) (show_int dd) event s) activity_key = ks s activity_key"
  "ks (updateUserMetrics (me_redis M) sn now (show_int i) event payload s) activity_key = ks s activity_key"
  "ks (updateEventTypeMetrics (me_redis M) now (show_int i) event s) activity_key = ks s activity_key"
  "ks (updateGeographicMetrics (me_redis M) sn pick now (show_int i) payload s) activity_key = ks s activity_key"
  "ks (updateDeviceMetrics (me_redis M) sn now (show_int i) payload s) activity_key = ks s activity_key"
  "ks (updateReferrerMetrics (me_redis M) sn now (show_int i) payload s) activity_key = ks s activity_key"
  "ks (updatePerformanceMetrics (me_redis M) now (show_int i) eventTime s) activity_key = ks s activity_key"
  by (simp_all add: updateVolumeMetrics_def updateUserMetrics_def updateEventTypeMetrics_def updateGeographicMetrics_def
      updateDeviceMetrics_def updateReferrerMetrics_def updatePerformanceMetrics_def Let_def ks_simps sadd_all_def
      fold_sadd_other count_value_activity split: sum.split)

lemma count_event_activity:
  "ks (count_event M now pick event eventTime payload s) activity_key = Some (RStr (toISOString now), Some (now + 1000 * 3600))"
  by (simp add: count_event_def Let_def getTimeKey_def getHourKey_def getDayKey_def updates_keep_activity)
    (simp add: updateLastActivityTime_def ks_simps ks_setex_def activity_key_def)

lemma history_activity:
  assumes "ks (ms_redis st0) activity_key = None"
  shows "ks (ms_redis (fold (run_job M) jobs st0)) activity_key =
     (if filter (valid_job M) jobs = [] then None
      else let now = jb_now (last (filter (valid_job M) jobs)) in Some (RStr (toISOString now), Some (now + 1000 * 3600)))"
proof (induction jobs rule: rev_induct)
  case Nil
  then show ?case by (simp add: assms)
next
  case (snoc j jobs)
  show ?case
  proof (cases "date_of (me_legacy M) (er_timestamp (jb_event j))")
    case NaN
    then have "\<not> valid_job M j" by (simp add: valid_job_def)
    with NaN snoc show ?thesis by (simp add: run_job_redis)
  next
    case (Num e)
    then have "valid_job M j" by (simp add: valid_job_def)
    with Num show ?thesis by (simp add: run_job_redis count_event_activity Let_def)
  qed
qed

lemma history_active:
  assumes "ks (ms_redis st0) activity_key = None"
    and "\<And>j. j \<in> set jobs \<Longrightarrow> - 62135596800000 \<le> jb_now j \<and> jb_now j < 253402300800000"
  shows "isSystemActive M t (ms_redis (fold (run_job M) jobs st0)) \<longleftrightarrow>
    filter (valid_job M) jobs \<noteq> [] \<and> t - jb_now (last (filter (valid_job M) jobs)) \<le> 120000"
proof (cases "filter (valid_job M) jobs = []")
  case True
  with history_activity [OF assms(1), of jobs] show ?thesis
    by (simp add: isSystemActive_def getLastActivityTime_def ks_simps ks_get_def live_def activity_key_def)
next
  case False
  define now where "now = jb_now (last (filter (valid_job M) jobs))"
  have "last (filter (valid_job M) jobs) \<in> set jobs" using False last_in_set by fastforce
  then have d: "date_of legacy (toISOString now) = Num now" for legacy
    using assms(2) by (simp add: now_def date_of_toISOString)
  have k: "ks (ms_redis (fold (run_job M) jobs st0)) ''metrics:last_activity''
      = Some (RStr (toISOString now), Some (now + 1000 * 3600))"
    using history_activity [OF assms(1), of jobs] False by (simp add: now_def Let_def activity_key_def)
  have ne: "toISOString now \<noteq> []" by (simp add: toISOString_def Let_def split: prod.split)
  have le: "of_int (t - now) / (1000 * 60 :: rat) \<le> of_int inactive_threshold \<longleftrightarrow> t - now \<le> 120000"
  proof -
    have "of_int (t - now) / (1000 * 60 :: rat) \<le> of_int inactive_threshold \<longleftrightarrow> (of_int (t - now) :: rat) \<le> 120000"
      by (simp add: inactive_threshold_def divide_le_eq)
    also have "\<dots> \<longleftrightarrow> (of_int (t - now) :: rat) \<le> of_int 120000" by simp
    also have "\<dots> \<longleftrightarrow> t - now \<le> 120000" by (simp only: of_int_le_iff)
    finally show ?thesis .
  qed
  show ?thesis
    using le False
    by (auto simp: isSystemActive_def getLastActivityTime_def ks_simps ks_get_def live_def unexpired_def k d ne now_def [symmetric])
qed

lemma window_total:
  assumes "\<And>f m. ks (ms_redis st0) (family_key f m) = None"
  shows "wm_totalEvents (getActiveWindowMetrics (me_redis M) t t (ms_redis (fold (run_job M) jobs st0)))
    = Num (volume_total (active_jobs M t jobs))"
proof -
  have E: "in_periods minute_ms (window_minutes t 0) (history M jobs) = map recorded_of (active_jobs M t jobs)"
    by (simp add: in_periods_history active_minutes active_jobs_def)
  note vol = window_merged [OF minute_families(1) run_family [OF minute_families(1) assms], of t jobs, unfolded E]
  show ?thesis
    using field_or_zero_tally [OF vol total_not_inherited] by (simp add: getActiveWindowMetrics_def Let_def count_volume)
qed

end

section \<open>The live buffer\<close>

definition shown :: "'s metrics_env \<Rightarrow> job \<Rightarrow> bool" where
  "shown M j = (valid_job M j \<and> parse_payload (jb_event j) \<noteq> JNull)"

text \<open>The entry of a job, as it is made when the job is processed.\<close>

definition live_of :: "'s metrics_env \<Rightarrow> job \<Rightarrow> live_event" where
  "live_of M j =
     (let payload = parse_payload (jb_event j); eventTime = num_val (date_of (me_legacy M) (er_timestamp (jb_event j))) in
      \<lparr>le_id = show_int (jb_now j) @ ''_'' @ jb_rnd j, le_eventName = er_eventName (jb_event j),
       le_userId = projr (prop_or payload ''userId'' (JStr ''anonymous'')),
       le_country = projr (prop_or payload ''country'' (JStr ''US'')),
       le_device = projr (prop_or payload ''device'' (JStr ''web'')),
       le_timestamp = eventTime, le_timeAgo = getTimeAgo (jb_now j) eventTime\<rparr>)"

lemma pop_trim: "length xs \<le> Suc n \<Longrightarrow> (if n < length xs then butlast xs else xs) = take n xs"
  by (cases "length xs = Suc n") (auto simp: butlast_conv_take)

lemma addToLiveEvents_null: "addToLiveEvents now rnd event t JNull buffer = Inl null_property_error"
  by (simp add: addToLiveEvents_def prop_or_def)

lemma addToLiveEvents_props:
  assumes "date_of (me_legacy M) (er_timestamp (jb_event j)) = Num t" and "parse_payload (jb_event j) \<noteq> JNull"
    and "length buffer \<le> 50"
  shows "addToLiveEvents (jb_now j) (jb_rnd j) (jb_event j) t (parse_payload (jb_event j)) buffer
    = Inr (take 50 (live_of M j # buffer))"
proof -
  have "\<exists>v. prop_or (parse_payload (jb_event j)) f d = Inr v" for f d
    using prop_or_cases [of "parse_payload (jb_event j)"] assms(2) by metis
  then obtain u c d where "prop_or (parse_payload (jb_event j)) ''userId'' (JStr ''anonymous'') = Inr u"
    "prop_or (parse_payload (jb_event j)) ''country'' (JStr ''US'') = Inr c"
    "prop_or (parse_payload (jb_event j)) ''device'' (JStr ''web'') = Inr d" by metis
  then have "addToLiveEvents (jb_now j) (jb_rnd j) (jb_event j) t (parse_payload (jb_event j)) buffer
      = Inr (if 50 < length (live_of M j # buffer) then butlast (live_of M j # buffer) else live_of M j # buffer)"
    using assms(1) by (simp add: addToLiveEvents_def live_of_def Let_def)
  moreover have "length (live_of M j # buffer) \<le> Suc 50" using assms(3) by simp
  ultimately show ?thesis by (simp only: pop_trim)
qed

lemma record_event_shown:
  assumes "shown M j"
  shows "fst (record_event M (jb_now j) (jb_pick j) (jb_rnd j) (jb_event j) st) = Inr True"
proof -
  have "\<exists>v. prop_or (parse_payload (jb_event j)) f d = Inr v" for f d
    using prop_or_cases [of "parse_payload (jb_event j)"] assms by (metis shown_def)
  then obtain u c d where "prop_or (parse_payload (jb_event j)) ''userId'' (JStr ''anonymous'') = Inr u"
    "prop_or (parse_payload (jb_event j)) ''country'' (JStr ''US'') = Inr c"
    "prop_or (parse_payload (jb_event j)) ''device'' (JStr ''web'') = Inr d" by metis
  then show ?thesis
    using assms by (auto simp: record_event_def shown_def valid_job_def addToLiveEvents_def Let_def split: jsnum.split)
qed

lemma run_job_live:
  assumes "length (ms_live st) \<le> 50"
  shows "ms_live (run_job M j st) = (if shown M j then take 50 (live_of M j # ms_live st) else ms_live st)"
proof (cases "date_of (me_legacy M) (er_timestamp (jb_event j))")
  case NaN
  then show ?thesis by (simp add: run_job_def record_event_def shown_def valid_job_def)
next
  case (Num t)
  then show ?thesis
    using addToLiveEvents_props [OF Num _ assms] addToLiveEvents_null
    by (cases "parse_payload (jb_event j) = JNull")
      (simp_all add: run_job_def record_event_def shown_def valid_job_def Let_def)
qed

lemma history_live:
  assumes "ms_live st = []"
  shows "ms_live (fold (run_job M) jobs st) = take 50 (map (live_of M) (rev (filter (shown M) jobs)))"
proof (induction jobs rule: rev_induct)
  case (snoc j jobs)
  then show ?case by (simp add: run_job_live take_Cons' min_def)
qed (simp add: assms)

section \<open>Properties\<close>

text \<open>
  C21: The dashboard is live for two minutes. After any history of jobs processed between the years 1 and 9999, if
  the last event with a valid time was processed more than two minutes before \<open>t\<close>, or none was, the dashboard is
  the empty one, whatever Redis still holds; otherwise it shows the exact total of the active window
  and the live buffer.
\<close>

theorem dashboard_live_for_two_minutes:
  assumes "metrics_service M ks" and "\<And>f m. ks (ms_redis st0) (family_key f m) = None"
    and "ks (ms_redis st0) activity_key = None"
    and "\<And>j. j \<in> set jobs \<Longrightarrow> - 62135596800000 \<le> jb_now j \<and> jb_now j < 253402300800000"
    and "st = fold (run_job M) jobs st0" and "js = filter (valid_job M) jobs"
  shows "if js = [] \<or> 120000 < t - jb_now (last js)
    then generateDashboardMetrics M t st = generateInactiveMetrics t
    else db_totalEvents (generateDashboardMetrics M t st) = Num (volume_total (active_jobs M t jobs))
      \<and> db_liveEvents (generateDashboardMetrics M t st) = ms_live st"
proof -
  have "isSystemActive M t (ms_redis st) \<longleftrightarrow> js \<noteq> [] \<and> t - jb_now (last js) \<le> 120000"
    unfolding assms(5,6) by (rule metrics_service.history_active [OF assms(1,3,4)])
  then show ?thesis
    using metrics_service.window_total [OF assms(1,2), of t jobs]
    by (auto simp: generateDashboardMetrics_def Let_def assms(5) split: prod.split)
qed

lemma demo_no_activity: "ms_redis demo_mstate activity_key = None"
  by (simp add: demo_mstate_def)

theorem dashboard_live_for_two_minutes_witness:
  "generateDashboardMetrics demo_menv 200000 (fold (run_job demo_menv) [demo_job 1000 ''a'' ''{}''] demo_mstate)
    = generateInactiveMetrics 200000"
proof -
  have r: "- 62135596800000 \<le> jb_now j \<and> jb_now j < 253402300800000" if "j \<in> set [demo_job 1000 ''a'' ''{}'']" for j
    using that by (simp add: demo_job_def)
  have js: "filter (valid_job demo_menv) [demo_job 1000 ''a'' ''{}''] = [demo_job 1000 ''a'' ''{}'']"
    by (simp add: demo_valid)
  show ?thesis
    using dashboard_live_for_two_minutes [of demo_menv "\<lambda>K. K" demo_mstate "[demo_job 1000 ''a'' ''{}'']" _ _ 200000,
        OF demo_metrics_service demo_no_metrics demo_no_activity r refl refl]
    by (simp only: js) (simp add: demo_job_def)
qed

text \<open>
  C38: The live buffer holds the newest fifty. From an empty buffer, after any history it is the entries of the
  last fifty events with a valid time and a payload other than null, newest first; an event whose payload
  is null is counted (it sets the activity key like any other) but fails its job.
\<close>

theorem live_buffer_holds_newest:
  assumes "ms_live st0 = []"
  shows "ms_live (fold (run_job M) jobs st0)
      = take 50 (rev (map (live_of M) (filter (\<lambda>j. valid_job M j \<and> parse_payload (jb_event j) \<noteq> JNull) jobs)))
    \<and> (\<forall>j. valid_job M j \<and> parse_payload (jb_event j) = JNull \<longrightarrow>
        fst (record_event M (jb_now j) (jb_pick j) (jb_rnd j) (jb_event j) st) = Inl null_property_error
        \<and> ms_redis (run_job M j st) = count_event M (jb_now j) (jb_pick j) (jb_event j)
            (num_val (date_of (me_legacy M) (er_timestamp (jb_event j)))) JNull (ms_redis st))"
proof -
  have "shown M = (\<lambda>j. valid_job M j \<and> parse_payload (jb_event j) \<noteq> JNull)"
    by (rule ext) (simp add: shown_def)
  moreover have "fst (record_event M (jb_now j) (jb_pick j) (jb_rnd j) (jb_event j) st) = Inl null_property_error
        \<and> ms_redis (run_job M j st) = count_event M (jb_now j) (jb_pick j) (jb_event j)
            (num_val (date_of (me_legacy M) (er_timestamp (jb_event j)))) JNull (ms_redis st)"
    if "valid_job M j" "parse_payload (jb_event j) = JNull" for j
    using that
    by (cases "date_of (me_legacy M) (er_timestamp (jb_event j))")
      (simp_all add: record_event_def run_job_def valid_job_def addToLiveEvents_null Let_def)
  ultimately show ?thesis
    using history_live [OF assms, of M jobs] by (simp add: rev_map)
qed

lemma demo_payloads: "json_parse ''{}'' = Inr (JObj [])" "json_parse ''null'' = Inr JNull"
  by code_simp+

theorem live_buffer_holds_newest_witness:
  "map le_eventName (ms_live (fold (run_job demo_menv) [demo_job 1 ''a'' ''{}'', demo_job 2 ''b'' ''null''] demo_mstate)) = [''a'']"
proof -
  let ?jobs = "[demo_job 1 ''a'' ''{}'', demo_job 2 ''b'' ''null'']"
  have "ms_live demo_mstate = []" by (simp add: demo_mstate_def)
  from live_buffer_holds_newest [OF this, of demo_menv ?jobs, THEN conjunct1]
  have live: "ms_live (fold (run_job demo_menv) ?jobs demo_mstate)
      = take 50 (rev (map (live_of demo_menv) (filter (\<lambda>j. valid_job demo_menv j \<and> parse_payload (jb_event j) \<noteq> JNull) ?jobs)))" .
  have "filter (\<lambda>j. valid_job demo_menv j \<and> parse_payload (jb_event j) \<noteq> JNull) ?jobs = [demo_job 1 ''a'' ''{}'']"
    by (simp add: demo_valid parse_payload_def demo_job_def demo_event_def demo_payloads
        demo_valid [unfolded demo_job_def demo_event_def])
  then show ?thesis
    by (simp only: live) (simp add: live_of_def demo_job_def demo_event_def Let_def)
qed

end
