(* ===== verification/JobsProps.thy ===== *)
theory JobsProps
  imports Jobs EventsHttpProps EventsProps GatewayProps MetricsActive
begin

text \<open>
  Properties of the workers and of the way from the stream to them: a batch is stored as a whole or not at all, an
  acknowledged event can be lost to another owner's payload, and every owner's dashboard counts everybody's events.
\<close>

section \<open>Batches\<close>

definition unparsable :: "event_request \<Rightarrow> bool" where
  "unparsable e = isl (json_parse (er_payload e))"

text \<open>The documents a batch should become: those that pass the schema.\<close>

definition batch_contents :: "casts \<Rightarrow> queued_event list \<Rightarrow> event_content list" where
  "batch_contents C events = List.map_filter (\<lambda>q. event_schema C (projr (parsed_event q))) events"

lemma parsed_event_isl: "isl (parsed_event q) = unparsable (snd (fst q))"
  by (simp add: parsed_event_def unparsable_def split: prod.split sum.split)

lemma map_result_projr: "\<forall>x \<in> set xs. \<not> isl (f x) \<Longrightarrow> map_result f xs = Inr (map (projr \<circ> f) xs)"
  by (induction xs) (auto simp: isl_def split: sum.splits)

lemma map_filter_projr: "List.map_filter g (map (projr \<circ> f) xs) = List.map_filter (\<lambda>x. g (projr (f x))) xs"
  by (induction xs) (simp_all add: List.map_filter_simps split: option.split)

lemma event_to_db_bad:
  "\<exists>q \<in> set events. unparsable (snd (fst q)) \<Longrightarrow> \<exists>e. event_to_db M events d = ((Inl e, None), d)"
proof -
  assume "\<exists>q \<in> set events. unparsable (snd (fst q))"
  then have "isl (map_result parsed_event events)" by (simp add: map_result_Inl parsed_event_isl)
  then show ?thesis by (cases "map_result parsed_event events") (simp_all add: event_to_db_def)
qed

lemma event_to_db_good:
  assumes "event_collection C M docs" and "\<forall>q \<in> set events. \<not> unparsable (snd (fst q))"
    and "event_to_db M events d = ((r, u), d')"
  shows "(r, u, d') = (Inr (), case em_insertMany M (map (projr \<circ> parsed_event) events) d of
      (Inl e, d1) \<Rightarrow> (Some e, d1) | (Inr _, d1) \<Rightarrow> (None, d1))"
    and "\<exists>new. docs d' = docs d @ new \<and> subseq (map event_content.truncate new) (batch_contents C events)
      \<and> (\<forall>accepted. stores_accepted C M docs accepted \<and> list_all accepted (batch_contents C events) \<longrightarrow>
        map event_content.truncate new = batch_contents C events)"
proof -
  let ?es = "map (projr \<circ> parsed_event) events"
  have p: "map_result parsed_event events = Inr ?es"
    using assms(2) by (intro map_result_projr) (simp add: parsed_event_isl)
  obtain r1 d1 where i: "em_insertMany M ?es d = (r1, d1)" by (cases "em_insertMany M ?es d")
  have b: "List.map_filter (event_schema C) ?es = batch_contents C events"
    by (simp only: map_filter_projr batch_contents_def)
  show "(r, u, d') = (Inr (), case em_insertMany M ?es d of (Inl e, d1) \<Rightarrow> (Some e, d1) | (Inr _, d1) \<Rightarrow> (None, d1))"
    using assms(3) i p by (auto simp: event_to_db_def insertBatch_def repo_insertBatch_def simp del: list.map split: sum.splits)
  then have d: "d' = d1" by (simp add: i split: sum.splits)
  obtain new where new: "docs d1 = docs d @ new" "subseq (map event_content.truncate new) (batch_contents C events)"
    using event_collection.em_insertMany [OF assms(1) i] by (auto simp: b)
  have "map event_content.truncate new = batch_contents C events"
    if s: "stores_accepted C M docs accepted" "list_all accepted (batch_contents C events)" for accepted
    using s(1) [unfolded stores_accepted_def, rule_format, of ?es d] s(2) new(1) unfolding i snd_conv b by simp
  with new d show "\<exists>new. docs d' = docs d @ new \<and> subseq (map event_content.truncate new) (batch_contents C events)
      \<and> (\<forall>accepted. stores_accepted C M docs accepted \<and> list_all accepted (batch_contents C events) \<longrightarrow>
        map event_content.truncate new = batch_contents C events)"
    by blast
qed

section \<open>Properties\<close>

text \<open>
  C12: A batch is parsed as a whole. If the payload of one of its events is not JSON, the job fails and nothing of the
  batch is sent to the database. Otherwise all its events are sent in one insertion, parsed and in order, and the job succeeds
  whatever becomes of it: an error is left unhandled, and what is stored are some of the events that pass the schema, in order.
\<close>

theorem batch_parsed_as_a_whole:
  assumes "event_collection C M docs" and "event_to_db M events d = ((r, u), d')"
  shows "if \<exists>q \<in> set events. unparsable (snd (fst q)) then isl r \<and> u = None \<and> d' = d
    else (r, u, d') = (Inr (), case em_insertMany M (map (projr \<circ> parsed_event) events) d of
          (Inl e, d1) \<Rightarrow> (Some e, d1) | (Inr _, d1) \<Rightarrow> (None, d1))
      \<and> (\<exists>new. docs d' = docs d @ new \<and> subseq (map event_content.truncate new) (batch_contents C events))"
proof (cases "\<exists>q \<in> set events. unparsable (snd (fst q))")
  case True
  from event_to_db_bad [OF this, of M d] assms(2) show ?thesis using True by auto
next
  case False
  then have "\<forall>q \<in> set events. \<not> unparsable (snd (fst q))" by blast
  from event_to_db_good [OF assms(1) this assms(2)] show ?thesis unfolding if_not_P [OF False] by blast
qed

definition demo_batch :: "queued_event list" where
  "demo_batch = [((''u1'', demo_event ''a'' ''{}''), 1), ((''u2'', demo_event ''b'' ''{''), 2)]"

lemma demo_broken: "unparsable (demo_event n ''{'')"
proof -
  have "isl (json_parse ''{'')" by code_simp
  then show ?thesis by (simp add: unparsable_def demo_event_def)
qed

theorem batch_parsed_as_a_whole_witness:
  "isl (fst (fst (event_to_db (mem_events mem_casts) demo_batch [])))"
proof -
  have b: "\<exists>q \<in> set demo_batch. unparsable (snd (fst q))"
    by (simp add: demo_batch_def demo_broken)
  obtain r u d' where e: "event_to_db (mem_events mem_casts) demo_batch [] = ((r, u), d')"
    by (metis prod.exhaust)
  show ?thesis
    using batch_parsed_as_a_whole [OF meme.event_collection_axioms e] b by (simp add: e)
qed

text \<open>What writes to the stored events: requests to the controller and batch jobs.\<close>

datatype store_op =
    StoreRequest int request events_request
  | StoreBatch "queued_event list"

fun store_run :: "jwt \<Rightarrow> jwt_params \<Rightarrow> 'd event_model \<Rightarrow> (string \<Rightarrow> date) \<Rightarrow> store_op \<Rightarrow> 'd \<Rightarrow> 'd" where
  "store_run J P M legacy (StoreRequest now rq req) d = snd (eventsController J P now M legacy rq req d)"
| "store_run J P M legacy (StoreBatch events) d = snd (event_to_db M events d)"

definition well_typed :: "casts \<Rightarrow> event_doc \<Rightarrow> bool" where
  "well_typed C e = (ec_eventName e \<noteq> [] \<and> ec_severity e \<in> {''SEVERITY_UNSPECIFIED'', ''INFO'', ''WARN'', ''ERROR''}
     \<and> (\<exists>s. cs_objectId C s = Some (ec_ownerId e)))"

lemma schema_well_typed: "event_schema C x = Some (event_content.truncate e) \<Longrightarrow> well_typed C e"
  by (auto simp: event_schema_def well_typed_def event_content.truncate_def SEVERITIES_def Let_def split: option.splits if_splits)

context event_collection
begin

lemma controller_subset: "set (docs (snd (eventsController J P now M legacy rq req d))) \<subseteq> set (docs d)"
proof (cases "bearer J P now rq")
  case (Inr c)
  obtain r d' where h: "events_handler M legacy (c_sub c) req d = (r, d')" by (cases "events_handler M legacy (c_sub c) req d")
  then show ?thesis using handler_subset [OF h] by (simp add: eventsController_cases Inr)
qed (simp add: eventsController_cases)

lemma batch_well_typed:
  assumes "e \<in> set (docs (snd (event_to_db M events d)))"
  shows "e \<in> set (docs d) \<or> well_typed C e"
proof -
  obtain r u d' where x: "event_to_db M events d = ((r, u), d')" by (metis prod.exhaust)
  show ?thesis
  proof (cases "\<exists>q \<in> set events. unparsable (snd (fst q))")
    case True
    with event_to_db_bad [OF True, of M d] assms x show ?thesis by auto
  next
    case False
    then have "\<forall>q \<in> set events. \<not> unparsable (snd (fst q))" by blast
    from event_to_db_good(2) [OF event_collection_axioms this x] obtain new
      where new: "docs d' = docs d @ new" "subseq (map event_content.truncate new) (batch_contents C events)" by blast
    show ?thesis
    proof (cases "e \<in> set new")
      case True
      then have "event_content.truncate e \<in> set (map event_content.truncate new)" by simp
      from list_emb_set [OF new(2) this] have "event_content.truncate e \<in> set (batch_contents C events)" by metis
      then obtain q where "event_schema C (projr (parsed_event q)) = Some (event_content.truncate e)"
        by (auto simp: batch_contents_def List.map_filter_def)
      then show ?thesis by (simp add: schema_well_typed)
    qed (use assms x new in simp)
  qed
qed

lemma store_run_well_typed:
  assumes "\<forall>e \<in> set (docs d). well_typed C e"
  shows "\<forall>e \<in> set (docs (store_run J P M legacy op d)). well_typed C e"
proof (cases op)
  case (StoreRequest now rq req)
  then show ?thesis using controller_subset [of J P now legacy rq req d] assms by auto
next
  case (StoreBatch events)
  then show ?thesis using batch_well_typed assms by auto
qed

end

text \<open>
  C20: Stored events are well-typed. After any sequence of requests to the events controller, whoever sends them, and of
  batch jobs, whether they succeed, fail or store only a part, every event in a collection that was empty at the start
  has a name, one of the four severities, and an owner id that passed the cast.
\<close>

theorem stored_events_well_typed:
  assumes "event_collection C M docs" and "docs d = []" and "e \<in> set (docs (fold (store_run J P M legacy) ops d))"
  shows "ec_eventName e \<noteq> [] \<and> ec_severity e \<in> {''SEVERITY_UNSPECIFIED'', ''INFO'', ''WARN'', ''ERROR''}
    \<and> (\<exists>s. cs_objectId C s = Some (ec_ownerId e))"
proof -
  have "\<forall>e \<in> set (docs (fold (store_run J P M legacy) ops d)). well_typed C e"
    using assms(2) event_collection.store_run_well_typed [OF assms(1)]
    by (intro fold_invariant_list [of "\<lambda>d. \<forall>e \<in> set (docs d). well_typed C e"]) simp_all
  with assms(3) show ?thesis by (auto simp: well_typed_def)
qed

theorem stored_events_well_typed_witness:
  "ec_eventName (mem_doc \<lparr>ec_ownerId = ''u1'', ec_eventName = ''a'', ec_payload = JObj [], ec_category = None, ec_tags = [],
     ec_severity = ''SEVERITY_UNSPECIFIED'', ec_timestamp = Some 0\<rparr>) \<noteq> []"
proof -
  let ?c = "\<lparr>ec_ownerId = ''u1'', ec_eventName = ''a'', ec_payload = JObj [], ec_category = None, ec_tags = [],
     ec_severity = ''SEVERITY_UNSPECIFIED'', ec_timestamp = Some 0\<rparr>"
  let ?q = "((''u1'', demo_event ''a'' ''{}''), 1)"
  have "event_schema mem_casts (projr (parsed_event ?q)) = Some ?c"
    by (simp add: parsed_event_def demo_event_def demo_payloads event_schema_def mem_casts_def date_of_def demo_parse SEVERITIES_def)
  then have "snd (event_to_db (mem_events mem_casts) [?q] []) = [mem_doc ?c]"
    by (simp add: event_to_db_def parsed_event_def demo_event_def demo_payloads insertBatch_def repo_insertBatch_def
        mem_events_def List.map_filter_simps Let_def)
  then have "mem_doc ?c \<in> set (fold (store_run mem_jwt \<lparr>jp_secret = None, jp_audience = None, jp_issuer = None\<rparr>
      (mem_events mem_casts) (\<lambda>_. NaN)) [StoreBatch [?q]] [])" by simp
  from stored_events_well_typed [OF meme.event_collection_axioms refl this] show ?thesis by blast
qed

text \<open>
  C24: An acknowledged event can be lost to somebody else's payload. In every reachable state of the ingestion, each event
  of a batch handed to the queue was logged (hence acknowledged); yet if any event of that batch, of whichever
  owner, has a payload that is not JSON, none of them reaches the database.
\<close>

theorem acknowledged_events_can_be_lost:
  assumes "api_key_collection (ie_keys N) kdocs" and "ingest_runs N ops (ingest_start u) st"
    and "batch \<in> set (eb_jobs (ig_batcher st))" and "q \<in> set batch" and "unparsable (snd (fst q))"
  shows "(\<forall>x \<in> set batch. fst x \<in> set (ig_metrics st)) \<and> (\<exists>e. event_to_db M batch d = ((Inl e, None), d))"
proof -
  have "sinks_agree st"
    using api_key_collection.runs_simulation [OF assms(1,2) refl] by (simp add: ingest_inv_def)
  then have "set (map fst (concat (eb_jobs (ig_batcher st)))) \<subseteq> set (ig_metrics st)"
    unfolding sinks_agree_def by (metis Un_upper1 map_append set_append)
  with assms(3) have "\<forall>x \<in> set batch. fst x \<in> set (ig_metrics st)" by auto
  with event_to_db_bad [of batch M d] assms(4,5) show ?thesis by blast
qed

definition demo_bad :: "(keyspace, key_db) ingest" where
  "demo_bad = snd (on_next demo_ingest_env 2 0 (demo_event ''b'' ''{'') demo_opened)"

definition demo_flushed :: "(keyspace, key_db) ingest" where
  "demo_flushed = demo_bad\<lparr>ig_batcher := flushBatch (ig_batcher demo_bad)\<rparr>"

lemma demo_flushed_runs: "ingest_runs demo_ingest_env
    [(1, OpenStream demo_md), (2, Next 0 (demo_event ''b'' ''{'')), (3, FlushTick)] (ingest_start demo_usage) demo_flushed"
proof -
  have a: "ingest_runs demo_ingest_env ([] @ [(1, OpenStream demo_md)]) (ingest_start demo_usage) demo_opened"
    unfolding demo_opened_def by (rule runs_snoc [OF runs_nil open_step])
  have s: "0 < length (ig_streams demo_opened)" "sm_error (ig_streams demo_opened ! 0) = None"
    by (simp_all add: demo_opened_eq)
  note b = runs_snoc [OF a next_step [OF s, where now = 2 and event = "demo_event ''b'' ''{''"], folded demo_bad_def]
  show ?thesis using runs_snoc [OF b flush_step, of 3] by (simp add: demo_flushed_def)
qed

lemma demo_flushed_jobs: "eb_jobs (ig_batcher demo_flushed) = [[((''u1'', demo_event ''b'' ''{''), 2)]]"
  by (simp add: demo_flushed_def demo_bad_def on_next_def demo_opened_eq md_set_def API_KEY_ID_def OWNER_ID_def
      ingest_start_def flushBatch_sel addStreamEvent_sel eb_init_def eb_batch_def)

theorem acknowledged_events_can_be_lost_witness:
  "(''u1'', demo_event ''b'' ''{'') \<in> set (ig_metrics demo_flushed)
    \<and> (\<exists>e. event_to_db (mem_events mem_casts) [((''u1'', demo_event ''b'' ''{''), 2)] [] = ((Inl e, None), []))"
proof -
  have "[((''u1'', demo_event ''b'' ''{''), 2)] \<in> set (eb_jobs (ig_batcher demo_flushed))"
    by (simp add: demo_flushed_jobs)
  from acknowledged_events_can_be_lost [OF demo_keys demo_flushed_runs this, of "((''u1'', demo_event ''b'' ''{''), 2)"]
  show ?thesis by (simp add: demo_broken)
qed

text \<open>
  C22: Every owner sees everybody's numbers. Whoever sent the events of a history, processing the next one, of
  owner \<open>ow\<close>, sends \<open>ow\<close> a dashboard whose total counts the recent events of all owners: the owner of an
  event only decides who gets the dashboard.
\<close>

theorem dashboards_mix_owners:
  fixes history :: "(string \<times> job) list"
  assumes "metrics_service M ks" and "\<And>f m. ks (ms_redis st0) (family_key f m) = None"
    and "ks (ms_redis st0) activity_key = None"
    and "\<And>x. x \<in> set (history @ [(ow, j)]) \<Longrightarrow> - 62135596800000 \<le> jb_now (snd x) \<and> jb_now (snd x) < 253402300800000"
    and "valid_job M j" and "parse_payload (jb_event j) \<noteq> JNull" and "ow \<noteq> []"
    and "st = fold (run_job M) (map snd history) st0"
  shows "\<exists>d. fst (processEvent M (jb_now j) (jb_pick j) (jb_rnd j) ow (jb_event j) st) = Inr (Some (ow, d))
    \<and> db_totalEvents d = Num (volume_total (active_jobs M (jb_now j) (map snd (history @ [(ow, j)]))))"
proof -
  let ?now = "jb_now j" and ?st = "run_job M j st"
  let ?jobs = "map snd (history @ [(ow, j)])"
  have run: "?st = fold (run_job M) ?jobs st0" by (simp add: assms(8))
  have r: "record_event M ?now (jb_pick j) (jb_rnd j) (jb_event j) st = (Inr True, ?st)"
    using record_event_shown [of M j st] assms(5,6) by (simp add: run_job_def shown_def prod_eq_iff)
  have "filter (valid_job M) ?jobs = filter (valid_job M) (map snd history) @ [j]"
    using assms(5) by simp
  then have act: "isSystemActive M ?now (ms_redis ?st)"
    unfolding run using metrics_service.history_active [OF assms(1,3), of ?jobs ?now] assms(4) by force
  have "db_totalEvents (generateDashboardMetrics M ?now ?st) = Num (volume_total (active_jobs M ?now ?jobs))"
    using metrics_service.window_total [OF assms(1,2), of ?now ?jobs] act
    by (simp add: generateDashboardMetrics_def run Let_def split: prod.split)
  then show ?thesis
    using assms(7) by (simp add: processEvent_def r calculateAndBroadcastDashboardMetrics_def)
qed

theorem dashboards_mix_owners_witness:
  "\<exists>d. fst (processEvent demo_menv 395000 0 ''r'' ''u1'' (demo_event ''c'' ''{}'')
      (run_job demo_menv (demo_job 390000 ''b'' ''{}'') demo_mstate)) = Inr (Some (''u1'', d)) \<and> db_totalEvents d = Num 2"
proof -
  let ?h = "[(''u2'', demo_job 390000 ''b'' ''{}'')]"
  let ?j = "demo_job 395000 ''c'' ''{}''"
  have times: "- 62135596800000 \<le> jb_now (snd x) \<and> jb_now (snd x) < 253402300800000" if "x \<in> set (?h @ [(''u1'', ?j)])" for x
    using that by (auto simp: demo_job_def)
  have p: "parse_payload (jb_event ?j) \<noteq> JNull"
    by (simp add: parse_payload_def demo_job_def demo_event_def demo_payloads)
  have js: "active_jobs demo_menv (jb_now ?j) (map snd (?h @ [(''u1'', ?j)])) = [demo_job 390000 ''b'' ''{}'', ?j]"
    by (simp add: active_jobs_def jobs_in_def demo_valid minute_ms_def) (simp add: demo_job_def)
  have n: "volume_total [demo_job 390000 ''b'' ''{}'', ?j] = 2"
    by (simp add: volume_total_def named_def demo_job_def demo_event_def)
  have f: "fold (run_job demo_menv) (map snd ?h) demo_mstate = run_job demo_menv (demo_job 390000 ''b'' ''{}'') demo_mstate"
    by simp
  from dashboards_mix_owners [of demo_menv "\<lambda>K. K" demo_mstate ?h "''u1''" ?j,
      OF demo_metrics_service demo_no_metrics demo_no_activity times demo_valid p _ refl]
  show ?thesis unfolding js n f by (simp add: demo_job_def)
qed

end
