(* ===== verification/ErrorsProps.thy ===== *)
theory ErrorsProps
  imports Errors JobsProps
begin

text \<open>
  Properties of the error handling: what the logs keep of a request, how the process ends, and what a failed
  insertion does to the server.
\<close>

section \<open>The end of the process\<close>

lemma drain_exit: "pr_exit (drain n p) = (if n = 0 then pr_exit p else Some (case pr_exit p of None \<Rightarrow> 0 | Some c \<Rightarrow> c))"
  by (induction n arbitrary: p) (simp_all add: process_exit_def split: option.split)

lemma drain_pending: "pr_pending (drain n p) = (if n = 0 then pr_pending p else 0)"
  by (induction n arbitrary: p) (simp_all add: process_exit_def)

lemma drain_timers: "pr_timers (drain n p) = pr_timers p"
  by (induction n arbitrary: p) (simp_all add: process_exit_def)

lemma turn_exited: "pr_exit p = Some c \<Longrightarrow> pr_exit (turn production x p) = Some c"
  by (simp add: turn_def on_process_event_def fire_timers_def process_exit_def drain_exit Let_def)

lemma turns_exited: "pr_exit p = Some c \<Longrightarrow> pr_exit (fold (turn production) xs p) = Some c"
  by (induction xs arbitrary: p) (simp_all add: turn_exited)

lemma turn_running:
  assumes "pr_exit p = None" and "pr_timers p = []" and "pr_pending p = 0"
  shows "pr_exit (turn production x p) = (if shuts_down production (snd x) then Some 0 else None)"
    and "\<not> shuts_down production (snd x) \<Longrightarrow> turn production x p = p"
  using assms
  by (simp_all add: turn_def on_process_event_def gracefulShutdown_def fire_timers_def process_exit_def drain_exit Let_def
      del: drain.simps(2))

lemma turns_running:
  assumes "pr_exit p = None" and "pr_timers p = []" and "pr_pending p = 0"
  shows "pr_exit (fold (turn production) xs p) = (if \<exists>x \<in> set xs. shuts_down production (snd x) then Some 0 else None)"
  using assms
proof (induction xs)
  case (Cons x xs)
  show ?case
  proof (cases "shuts_down production (snd x)")
    case True
    with turn_running(1) [OF Cons.prems, of production x]
    have "pr_exit (turn production x p) = Some 0" by simp
    from turns_exited [OF this] True show ?thesis by simp
  next
    case False
    from turn_running(2) [OF Cons.prems False] Cons False show ?thesis by simp
  qed
qed simp

section \<open>Properties\<close>

text \<open>
  C35: How the process ends. Over any sequence of process events it stays up exactly while none of them shuts it
  down (in production a rejection nobody handles does); then it exits at once, always with code 0, also after an
  uncaught exception: the exit with code 1 after ten seconds never happens.
\<close>

theorem process_ends_with_success:
  "pr_exit (fold (turn production) xs running)
    = (if \<exists>x \<in> set xs. (\<forall>reason. snd x = UnhandledRejection reason \<longrightarrow> production) then Some 0 else None)"
proof -
  have "shuts_down production ev = (\<forall>reason. ev = UnhandledRejection reason \<longrightarrow> production)" for ev
    by (cases ev) (simp_all add: shuts_down_def)
  then show ?thesis using turns_running [of running production xs] by (simp add: running_def)
qed

theorem process_ends_with_success_witness:
  "pr_exit (fold (turn False) [(0, UnhandledRejection ''r''), (5, UncaughtException ''boom'')] running) = Some 0"
  using process_ends_with_success [of False "[(0, UnhandledRejection ''r''), (5, UncaughtException ''boom'')]"] by simp

text \<open>
  A failed insertion ends the server. If the database rejects the insertion of a batch, the job counts as
  completed, and the rejection, which nobody awaits, ends a production process that was still running, whatever its
  batchers hold.
\<close>

theorem failed_insertion_ends_the_server:
  assumes "event_collection C M docs" and "event_to_db M events d = ((r, Some e), d')"
    and "pr_exit (fold (turn True) xs running) = None"
  shows "r = Inr () \<and> \<not> (\<exists>q \<in> set events. unparsable (snd (fst q)))
    \<and> pr_exit (fold (turn True) (xs @ [(now, UnhandledRejection (exn_message e))]) running) = Some 0"
proof -
  have "\<not> (\<exists>q \<in> set events. unparsable (snd (fst q)))"
    using event_to_db_bad [of events M d] assms(2) by auto
  moreover from this have "r = Inr ()"
    using event_to_db_good(1) [OF assms(1) _ assms(2)] by auto
  moreover have "pr_exit (fold (turn True) (xs @ [(now, UnhandledRejection (exn_message e))]) running) = Some 0"
    using turns_running [of running True "xs @ [(now, UnhandledRejection (exn_message e))]"]
    by (simp add: running_def shuts_down_def)
  ultimately show ?thesis by blast
qed

text \<open>A database that refuses every insertion.\<close>

definition down_events :: "casts \<Rightarrow> event_doc list event_model" where
  "down_events C = (mem_events C)\<lparr>em_insertMany := \<lambda>es d. (Inl (JsError ''connection closed''), d)\<rparr>"

interpretation down: event_collection C "down_events C" "\<lambda>d. d" for C
  using meme.event_collection_axioms [of C]
  unfolding event_collection_def by (simp add: down_events_def)

theorem failed_insertion_ends_the_server_witness:
  "pr_exit (fold (turn True) [(9, UnhandledRejection ''connection closed'')] running) = Some 0"
proof -
  let ?batch = "[((''u1'', demo_event ''a'' ''{}''), 1)]"
  have e: "event_to_db (down_events mem_casts) ?batch [] = ((Inr (), Some (JsError ''connection closed'')), [])"
    by (simp add: event_to_db_def parsed_event_def demo_event_def demo_payloads insertBatch_def repo_insertBatch_def
        down_events_def)
  have r: "pr_exit (fold (turn True) [] running) = None" by (simp add: running_def)
  show ?thesis
    using failed_insertion_ends_the_server [OF down.event_collection_axioms e r, of 9] by simp
qed

text \<open>
  What the log keeps of a request body: when an error is logged for a request whose body is an object, the logged body
  has the same fields in the same order; those called password, token, apiKey, secret or authorization are replaced
  unless they are falsy, and every other field is there as it was sent (nested objects and \<^verbatim>\<open>refreshToken\<close> too).
\<close>

lemma logged_body_is_redacted:
  assumes "snd (catch_exception production now x rq) = Some entry" and "hr_body rq = Some (JObj kvs)"
  shows "lo_body entry = Some (JObj (map (\<lambda>(f, v).
      (f, if f \<in> {''password'', ''token'', ''apiKey'', ''secret'', ''authorization''} \<and> truthy v
          then JStr ''[REDACTED]'' else v)) kvs))"
proof -
  have "lo_body entry = Some (JObj (map redact kvs))"
    using assms by (auto simp: catch_exception_def logError_def sanitizeBody_def spread_def Let_def split: prod.splits if_splits)
  moreover have "redact = (\<lambda>(f, v). (f, if f \<in> {''password'', ''token'', ''apiKey'', ''secret'', ''authorization''} \<and> truthy v
          then JStr ''[REDACTED]'' else v))"
    by (rule ext) (simp add: redact_def sensitiveFields_def split: prod.split)
  ultimately show ?thesis by simp
qed

end
