(* ===== verification/EventsUsage.thy ===== *)
theory EventsUsage
  imports EventsProps
begin

text \<open>
  Metering of the running server: the usage counter of the API keys under the steps of the ingestion. Streams
  of other keys, errors, timers and pending commands leave a key's counter alone, and each acknowledged event
  of the key's own streams is counted once.
\<close>

section \<open>Usage hashes hold their own key\<close>

text \<open>A write-back updates the document named by the hash, so a hash must not name another key.\<close>

definition own_hash :: "string \<Rightarrow> rval option \<Rightarrow> bool" where
  "own_hash k r = (case r of Some (RHash h) \<Rightarrow> map_of h ''key'' \<in> {None, Some k} | _ \<Rightarrow> True)"

definition own_hashes :: "keyspace \<Rightarrow> bool" where
  "own_hashes K = (\<forall>k. own_hash k (map_option fst (K (getKeyName k))))"

lemma getKeyName_eq [simp]: "getKeyName a = getKeyName b \<longleftrightarrow> a = b"
  by (simp add: getKeyName_def)

lemma own_hash_hincrby: "own_hash k r \<Longrightarrow> own_hash k (hincrby_val ''usageCount'' n r)"
  by (auto simp: own_hash_def hincrby_val_def update_conv' split: option.splits rval.splits)

lemma own_hash_hset: "own_hash (st_key a) (hset_val (usage_fields a) r)"
  by (auto simp: own_hash_def hset_val_def updates_usage_fields split: option.splits rval.splits)

lemma own_live: "own_hashes K \<Longrightarrow> own_hash k (map_option fst (live now K (getKeyName k)))"
  by (auto simp: own_hashes_def own_hash_def live_def split: option.splits dest: spec [of _ k])

lemma own_update:
  assumes "own_hashes K" and "\<And>r. own_hash k r \<Longrightarrow> own_hash k (f r)"
  shows "own_hashes (ks_update now (getKeyName k) f K)"
proof -
  have "own_hash k (map_option fst (ks_update now (getKeyName k) f K (getKeyName k)))"
    using assms(2) [OF own_live [OF assms(1), of k now]] assms(1)
    by (auto simp: ks_update_def own_hashes_def split: option.splits)
  then have "own_hash j (map_option fst (ks_update now (getKeyName k) f K (getKeyName j)))" for j
    using assms(1) by (cases "j = k") (simp_all add: own_hashes_def)
  then show ?thesis by (simp add: own_hashes_def)
qed

lemma own_key_read: "own_hashes K \<Longrightarrow> map_of (ks_hash now K (getKeyName k)) ''key'' \<in> {None, Some k}"
  using own_live [of K k now] by (auto simp: ks_hash_def own_hash_def split: option.splits rval.splits)

section \<open>Acknowledged events of a key\<close>

definition acks_of :: "string \<Rightarrow> stream \<Rightarrow> nat" where
  "acks_of k s = (if stream_key s = k then length (sm_responses s) else 0)"

definition acknowledged :: "string \<Rightarrow> ('s, 'd) ingest \<Rightarrow> nat" where
  "acknowledged k st = sum_list (map (acks_of k) (ig_streams st))"

text \<open>No pending initialisation of the key has found its hash missing.\<close>

definition initialised :: "string \<Rightarrow> ('s, 'd) ingest \<Rightarrow> bool" where
  "initialised k st = list_all (\<lambda>t. st_key (it_status t) = k \<longrightarrow> it_exists t \<noteq> Some False) (ig_tasks st)"

context usage_service
begin

section \<open>Increments of one key leave the others alone\<close>

lemma increment_parts:
  "us_redis (snd (incrementUsage R M now k u)) = snd (increment_usage_script R now (getKeyName k) (us_redis u))"
  "j \<noteq> k \<Longrightarrow> us_sync (snd (incrementUsage R M now k u)) j = us_sync u j"
  by (simp_all add: incrementUsage_defs Let_def split: prod.split)

lemma script_redis:
  "ks (snd (increment_usage_script R now k s)) = ks_hincrby now k ''usageCount'' 1 (ks s)"
  using rd_hincrby [of now k "''usageCount''" 1 s] by (simp add: increment_usage_script_def Let_def split_beta)

lemma script_key:
  "fst (increment_usage_script R now k s) ! 0 = map_of (ks_hash now (ks_hincrby now k ''usageCount'' 1 (ks s)) k) ''key''"
  using rd_hincrby [of now k "''usageCount''" 1 s]
  by (simp add: increment_usage_script_def Let_def rd_hmget split_beta)

lemma increment_own:
  assumes "own_hashes (ks (us_redis u))"
  shows "own_hashes (ks (us_redis (snd (incrementUsage R M now k u))))"
  using assms own_update [OF assms own_hash_hincrby]
  by (simp add: increment_parts script_redis ks_hincrby_def)

lemma write_back_other:
  assumes "ko \<in> {None, Some j}" and "j \<noteq> k"
  shows "db_usage (docs (snd (akm_updateUsage M ko c d))) k = db_usage (docs d) k"
proof (cases "ko = None \<or> c = NaN")
  case True
  then show ?thesis by (simp add: akm_updateUsage_bad)
next
  case False
  then obtain n where ko: "ko = Some j" "c = Num n" using assms(1) by (cases c) auto
  have "find (has_key k) (update_first (has_key j) (ak_usageCount_update f) ds) = find (has_key k) ds" for f ds
    using assms(2) by (induction ds) (auto simp: has_key_def)
  then show ?thesis
    using akm_updateUsage [of j n d "fst (akm_updateUsage M ko c d)" "snd (akm_updateUsage M ko c d)"] ko
    by (auto simp: db_usage_def)
qed

lemma increment_other:
  assumes "own_hashes (ks (us_redis u))" and "j \<noteq> k" and "metered ks docs k k limit c0 n u"
  shows "metered ks docs k k limit c0 n (snd (incrementUsage R M now j u))"
proof -
  let ?u = "snd (incrementUsage R M now j u)"
  have "own_hashes (ks_hincrby now (getKeyName j) ''usageCount'' 1 (ks (us_redis u)))"
    using own_update [OF assms(1) own_hash_hincrby] by (simp add: ks_hincrby_def)
  from own_key_read [OF this] have ko: "fst (increment_usage_script R now (getKeyName j) (us_redis u)) ! 0 \<in> {None, Some j}"
    by (simp only: script_key)
  have "db_usage (docs (us_db ?u)) k = db_usage (docs (us_db u)) k"
    using write_back_other [OF ko assms(2)]
    by (simp add: incrementUsage_defs Let_def repo_updateApiKeyUsage_def split_beta)
  moreover have "ks (us_redis ?u) (getKeyName k) = ks (us_redis u) (getKeyName k)"
    using assms(2) by (simp add: increment_parts script_redis)
  ultimately show ?thesis
    using assms(2,3) by (simp add: metered_def sync_count_def increment_parts usage_hash_def)
qed

section \<open>Steps and runs\<close>

lemma init_write_own:
  assumes "own_hashes (ks s)"
  shows "own_hashes (ks (init_write R now (st_key a) a ex s))"
  using assms own_update [OF assms, of "st_key a" "hset_val (usage_fields a)"]
  by (simp add: init_write_def rd_hset ks_hset_def own_hash_hset)

lemma init_write_other:
  assumes "metered ks docs k k limit c0 n u" and "st_key a \<noteq> k \<or> ex"
  shows "metered ks docs k k limit c0 n (u\<lparr>us_redis := init_write R now (st_key a) a ex (us_redis u)\<rparr>)"
  using assms by (auto simp: metered_def init_write_def rd_hset usage_hash_def sync_count_def)

lemma metered_exists: "metered ks docs k k limit c0 n u \<Longrightarrow> init_check R now k (us_redis u)"
  using usage_hash_live [of "us_redis u" "getKeyName k" k limit "c0 + int n" now]
  by (auto simp: metered_def init_check_def rd_exists)

lemma step_own:
  assumes "ingest_step N now op st st'" and "ie_redis N = R" and "ie_keys N = M" and "streams_ok st"
    and "own_hashes (ks (us_redis (ig_usage st)))"
  shows "own_hashes (ks (us_redis (ig_usage st')))"
  using assms(1)
proof cases
  case (open_step md)
  then show ?thesis using assms(5) by (simp add: open_stream_def split: sum.split)
next
  case (next_step i event)
  from on_next_open [OF assms(4) next_step(3), of N now event] show ?thesis
    using increment_own [OF assms(5)] assms(2,3) by (simp add: next_step(2))
next
  case (task_step j)
  then show ?thesis
    using assms(2,5) init_write_own [OF assms(5)] by (simp add: run_task_def Let_def split: option.split)
qed (use assms(5) in \<open>simp_all add: on_error_def\<close>)

lemma step_metered:
  assumes "ingest_step N now op st st'" and "ie_redis N = R" and "ie_keys N = M" and "streams_ok st"
    and "own_hashes (ks (us_redis (ig_usage st)))" and "initialised k st"
    and "metered ks docs k k limit c0 (n + (acknowledged k st - a)) (ig_usage st)" and "a \<le> acknowledged k st"
  shows "initialised k st' \<and> a \<le> acknowledged k st'
    \<and> metered ks docs k k limit c0 (n + (acknowledged k st' - a)) (ig_usage st')"
  using assms(1)
proof cases
  case (open_step md)
  then show ?thesis
    using assms(6-8) by (auto simp: open_stream_def initialised_def acknowledged_def acks_of_def split: sum.split)
next
  case (next_step i event)
  let ?s = "ig_streams st ! i"
  have st': "ig_usage st' = snd (incrementUsage R M now (stream_key ?s) (ig_usage st))" "ig_tasks st' = ig_tasks st"
    "ig_streams st' = (ig_streams st)[i := ?s\<lparr>sm_responses := sm_responses ?s @ [received]\<rparr>]"
    using on_next_open [OF assms(4) next_step(3), of N now event] assms(2,3) by (simp_all add: next_step(2))
  have acks: "acknowledged k st' = acknowledged k st + (if stream_key ?s = k then 1 else 0)"
    using sum_list_update_nth [OF next_step(3), of "acks_of k" "?s\<lparr>sm_responses := sm_responses ?s @ [received]\<rparr>"]
    by (simp add: acknowledged_def st' acks_of_def stream_key_def split: if_splits)
  show ?thesis
  proof (cases "stream_key ?s = k")
    case True
    then show ?thesis using increment_metered(1) [OF assms(7)] assms(6,8) acks
      by (simp add: st' initialised_def Suc_diff_le)
  next
    case False
    then show ?thesis using increment_other [OF assms(5) False assms(7)] assms(6,8) acks by (simp add: st' initialised_def)
  qed
next
  case (error_step i)
  then have "acknowledged k st' = acknowledged k st"
    by (simp add: acknowledged_def on_error_def map_update_same acks_of_def stream_key_def)
  then show ?thesis using assms(6-8) error_step by (simp add: on_error_def initialised_def)
next
  case (task_step j)
  let ?t = "ig_tasks st ! j"
  have acks: "acknowledged k st' = acknowledged k st"
    using task_step by (simp add: acknowledged_def run_task_def Let_def split: option.split)
  have t: "st_key (it_status ?t) = k \<longrightarrow> it_exists ?t \<noteq> Some False" 
    using assms(6) task_step(3) by (simp add: initialised_def list_all_length)
  show ?thesis
  proof (cases "it_exists ?t")
    case None
    then have st': "ig_usage st' = ig_usage st"
      "ig_tasks st' = (ig_tasks st)[j := ?t\<lparr>it_exists := Some (init_check R now (st_key (it_status ?t)) (us_redis (ig_usage st)))\<rparr>]"
      using task_step assms(2) by (simp_all add: run_task_def Let_def)
    have "initialised k st'"
      using assms(6) metered_exists [OF assms(7)] task_step(3)
      by (auto simp: st' initialised_def list_all_length nth_list_update)
    with acks assms(7,8) show ?thesis by (simp add: st')
  next
    case (Some ex)
    then have st': "ig_usage st' = (ig_usage st)\<lparr>us_redis := init_write R now (st_key (it_status ?t)) (it_status ?t) ex (us_redis (ig_usage st))\<rparr>"
      "ig_tasks st' = take j (ig_tasks st) @ drop (Suc j) (ig_tasks st)"
      using task_step assms(2) by (simp_all add: run_task_def Let_def)
    have "initialised k st'"
      using assms(6) by (auto simp: st' initialised_def list_all_iff dest!: in_set_takeD in_set_dropD)
    moreover have "st_key (it_status ?t) \<noteq> k \<or> ex" using t Some by auto
    ultimately show ?thesis using acks assms(8) init_write_other [OF assms(7)] by (simp add: st')
  qed
qed (use assms(6-8) in \<open>simp_all add: initialised_def acknowledged_def\<close>)

lemma runs_metered:
  assumes "ingest_runs N ops st st'" and "ie_redis N = R" and "ie_keys N = M" and "ingest_inv ids docs st"
    and "own_hashes (ks (us_redis (ig_usage st)))" and "initialised k st"
    and "metered ks docs k k limit c0 (n + (acknowledged k st - a)) (ig_usage st)" and "a \<le> acknowledged k st"
  shows "ingest_inv ids docs st' \<and> own_hashes (ks (us_redis (ig_usage st'))) \<and> initialised k st' \<and> a \<le> acknowledged k st'
    \<and> metered ks docs k k limit c0 (n + (acknowledged k st' - a)) (ig_usage st')"
  using assms
proof (induction rule: ingest_runs.induct)
  case (runs_snoc ops st st' now op st'')
  note IH = runs_snoc.IH [OF runs_snoc.prems]
  then have i: "ingest_inv ids docs st'" "own_hashes (ks (us_redis (ig_usage st')))" "initialised k st'"
    and m: "metered ks docs k k limit c0 (n + (acknowledged k st' - a)) (ig_usage st')" "a \<le> acknowledged k st'"
    by blast+
  have s: "streams_ok st'" using i(1) by (simp add: ingest_inv_def)
  note step = runs_snoc.hyps(2) runs_snoc.prems(1,2)
  show ?case
    using step_metered [OF step s i(2,3) m] step_own [OF step s i(2)] step_inv [OF step(1,3) i(1)] by blast
qed simp

lemma runs_own:
  assumes "ingest_runs N ops (ingest_start u) st" and "ie_redis N = R" and "ie_keys N = M"
    and "own_hashes (ks (us_redis u))"
  shows "own_hashes (ks (us_redis (ig_usage st))) \<and> ingest_inv (map key_id (docs (us_db u))) docs st"
  using assms(1)
proof (induction "ingest_start u" st rule: ingest_runs.induct)
  case runs_nil
  then show ?case using assms(4) inv_start [of docs u] by (simp add: ingest_start_def)
next
  case (runs_snoc ops st' now op st'')
  then have "streams_ok st'" by (simp add: ingest_inv_def)
  with runs_snoc show ?case
    using step_own [OF runs_snoc.hyps(3) assms(2,3)] step_inv [OF runs_snoc.hyps(3) assms(3)] by blast
qed

end

section \<open>Property\<close>

text \<open>
  Each acknowledged event is metered once. Once the usage hash of a key is in place and no pending
  initialisation has found it missing, then whatever the server does next (other streams, other keys'
  write-backs, errors, timers, late initialisations), the Redis count of the key has grown by exactly the
  number of responses sent on that key's streams, and the count in the database is the last multiple of 1000
  below it, counted from the start.
\<close>

theorem acknowledged_events_are_metered:
  assumes "usage_service (ie_redis N) ks (ie_keys N) docs" and "own_hashes (ks (us_redis u))"
    and "ingest_runs N ops (ingest_start u) st" and "initialised k st"
    and "metered ks docs k k limit c0 n (ig_usage st)"
    and "ingest_runs N ops' st st'" and "m = n + (acknowledged k st' - acknowledged k st)"
  shows "acknowledged k st \<le> acknowledged k st'
    \<and> usage_hash (ks (us_redis (ig_usage st'))) (getKeyName k) k limit (c0 + int m)
    \<and> db_usage (docs (us_db (ig_usage st'))) k = Some (c0 + int (1000 * (m div 1000)))"
proof -
  note inv = usage_service.runs_own [OF assms(1,3) refl refl assms(2)]
  have "metered ks docs k k limit c0 (n + (acknowledged k st - acknowledged k st)) (ig_usage st)"
    using assms(5) by simp
  from usage_service.runs_metered [OF assms(1,6) refl refl conjunct2 [OF inv] conjunct1 [OF inv] assms(4) this order_refl]
  show ?thesis unfolding assms(7) metered_def sync_interval_def by blast
qed

text \<open>In the witness the stream of \<open>demo_ready\<close> is initialised at count 998 and sends one event.\<close>

lemma demo_ready_runs: "ingest_runs demo_ingest_env [(1, OpenStream demo_md), (2, TaskStep 0), (2, TaskStep 0)]
    (ingest_start demo_usage) demo_ready"
proof -
  have a: "ingest_runs demo_ingest_env ([] @ [(1, OpenStream demo_md)]) (ingest_start demo_usage) demo_opened"
    unfolding demo_opened_def by (rule runs_snoc [OF runs_nil open_step])
  have t: "0 < length (ig_tasks demo_opened)" "0 < length (ig_tasks (run_task demo_ingest_env 2 0 demo_opened))"
    by (simp_all add: demo_opened_eq run_task_def)
  show ?thesis
    using runs_snoc [OF runs_snoc [OF a task_step [OF t(1)]] task_step [OF t(2), where now = 2], folded demo_ready_def] by simp
qed

lemma demo_ready_next: "ingest_runs demo_ingest_env [(3, Next 0 (demo_event ''a'' ''{}''))] demo_ready demo_first"
proof -
  have s: "0 < length (ig_streams demo_ready)" "sm_error (ig_streams demo_ready ! 0) = None"
    by (simp_all add: demo_ready_eq demo_opened_eq)
  show ?thesis using runs_snoc [OF runs_nil next_step [OF s]] by (simp add: demo_first_def)
qed

lemma demo_ready_metered: "metered (\<lambda>K. K) key_docs ''k1'' ''k1'' 999 998 0 (ig_usage demo_ready)"
  using demo_usage.initialize_metered [of demo_usage "''k1''" demo_key 2]
  by (simp add: demo_ready_eq demo_usage_docs demo_key_fields has_key_def) (simp add: demo_usage_def)

lemma demo_acks: "acknowledged ''k1'' demo_ready = 0" "acknowledged ''k1'' demo_first = 1"
  by (simp_all add: acknowledged_def acks_of_def demo_first_def on_next_def demo_ready_eq demo_opened_eq md_set_def
      API_KEY_ID_def OWNER_ID_def demo_ingest_env_def stream_key_def)

theorem acknowledged_events_are_metered_witness:
  "usage_hash (us_redis (ig_usage demo_first)) (getKeyName ''k1'') ''k1'' 999 999
    \<and> db_usage (key_docs (us_db (ig_usage demo_first))) ''k1'' = Some 998"
proof -
  have s: "usage_service (ie_redis demo_ingest_env) (\<lambda>K. K) (ie_keys demo_ingest_env) key_docs"
    by (simp add: demo_ingest_env_def demo_usage_service)
  have o: "own_hashes (us_redis demo_usage)" by (simp add: own_hashes_def own_hash_def demo_usage_def)
  have "initialised ''k1'' demo_ready" by (simp add: initialised_def demo_ready_eq)
  from acknowledged_events_are_metered [OF s o demo_ready_runs this demo_ready_metered demo_ready_next refl]
  show ?thesis by (simp add: demo_acks)
qed

end
