(* ===== verification/Notification.thy ===== *)
theory Notification
  imports Auth
begin

text \<open>
  Configuration from the environment (src/src/config, src/src/integrations/*/config) and the mail worker of
  src/src/integrations/notification: the client its module makes for the configured provider, the client for Gmail,
  and the job that sends a mail. Sending itself is \<^verbatim>\<open>nodemailer\<close>'s: a parameter.
\<close>

section \<open>Configuration\<close>

type_synonym environment = "string \<rightharpoonup> string"

text \<open>\<^verbatim>\<open>process.env.X || d\<close>: an empty variable counts as missing.\<close>

definition env_or :: "environment \<Rightarrow> string \<Rightarrow> string \<Rightarrow> string" where
  "env_or env name d = (case env name of None \<Rightarrow> d | Some s \<Rightarrow> if s = [] then d else s)"

record redis_config =
  rc_port :: "int jsnum"
  rc_host :: "string option"
  rc_password :: "string option"

definition redisConfig :: "environment \<Rightarrow> redis_config" where
  "redisConfig env = \<lparr>rc_port = parseInt10 (env_or env ''REDIS_PORT'' ''6379''), rc_host = env ''REDIS_HOST'',
     rc_password = env ''REDIS_PASSWORD''\<rparr>"

definition bullmqConfig :: "environment \<Rightarrow> redis_config" where
  "bullmqConfig env = \<lparr>rc_port = parseInt10 (env_or env ''REDIS_PORT'' ''6379''), rc_host = env ''REDIS_HOST'',
     rc_password = env ''REDIS_PASSWORD''\<rparr>"

text \<open>The options of the connections: the password is not among them.\<close>

record connection_options =
  co_port :: "int jsnum"
  co_host :: "string option"
  co_maxRetriesPerRequest :: "nat option"

definition redis_connection :: "redis_config \<Rightarrow> connection_options" where
  "redis_connection c = \<lparr>co_port = rc_port c, co_host = rc_host c, co_maxRetriesPerRequest = None\<rparr>"

definition bullmq_connection :: "redis_config \<Rightarrow> connection_options" where
  "bullmq_connection c = \<lparr>co_port = rc_port c, co_host = rc_host c, co_maxRetriesPerRequest = None\<rparr>"

definition databaseConfig :: "environment \<Rightarrow> string" where
  "databaseConfig env = env_or env ''MONGODB_URI'' ''mongodb://localhost:27017/eventify''"

record gmail_config =
  gm_service :: "string option"
  gm_host :: "string option"
  gm_port :: "int jsnum"
  gm_user :: "string option"
  gm_password :: "string option"

record notification_config =
  nc_provider :: string
  nc_gmail :: gmail_config

definition notificationConfig :: "environment \<Rightarrow> notification_config" where
  "notificationConfig env =
     \<lparr>nc_provider = env_or env ''NOTIFICATION_PROVIDER'' ''gmail'',
      nc_gmail = \<lparr>gm_service = env ''GMAIL_SERVICE'', gm_host = env ''GMAIL_HOST'',
        gm_port = parseInt10 (env_or env ''GMAIL_PORT'' ''465''), gm_user = env ''GMAIL_USER'',
        gm_password = env ''GMAIL_PASSWORD''\<rparr>\<rparr>"

section \<open>Clients\<close>

datatype notification_client =
    GmailNotificationClient gmail_config
  | SlackNotificationClient

definition provide_client :: "notification_config \<Rightarrow> notification_client result" where
  "provide_client c =
     (if nc_provider c = ''gmail'' then Inr (GmailNotificationClient (nc_gmail c))
      else Inl (JsError (''Unknown notification provider: '' @ nc_provider c)))"

text \<open>A mail as the transport gets it; the sender's own options come after \<^verbatim>\<open>from\<close>.\<close>

record mail =
  ml_from :: "string option"
  ml_job :: mail_job

text \<open>
  The mails the transport took, and the errors the Gmail client logged. \<open>transport\<close> is \<^verbatim>\<open>sendMail\<close>: it may refuse.
\<close>

record outbox =
  ob_mails :: "mail list"
  ob_errors :: "string list"

fun send :: "(mail \<Rightarrow> unit result) \<Rightarrow> notification_client \<Rightarrow> mail_job \<Rightarrow> outbox \<Rightarrow> unit result \<times> outbox" where
  "send transport (GmailNotificationClient c) mailOptions ob =
     (let m = \<lparr>ml_from = gm_user c, ml_job = mailOptions\<rparr> in
      case transport m of
        Inl error \<Rightarrow> (Inr (), ob\<lparr>ob_errors := ob_errors ob @ [exn_message error]\<rparr>)
      | Inr _ \<Rightarrow> (Inr (), ob\<lparr>ob_mails := ob_mails ob @ [m]\<rparr>))"
| "send transport SlackNotificationClient mailOptions ob = (Inr (), ob)"

definition sendEmail ::
  "(mail \<Rightarrow> unit result) \<Rightarrow> notification_client \<Rightarrow> mail_job \<Rightarrow> outbox \<Rightarrow> unit result \<times> outbox" where
  "sendEmail transport client options ob = send transport client options ob"

definition mail_process ::
  "(mail \<Rightarrow> unit result) \<Rightarrow> notification_client \<Rightarrow> mail_job \<Rightarrow> outbox \<Rightarrow> unit result \<times> outbox" where
  "mail_process transport client job ob = sendEmail transport client job ob"

text \<open>The worker takes the jobs of the queue one by one.\<close>

definition mail_worker :: "(mail \<Rightarrow> unit result) \<Rightarrow> notification_client \<Rightarrow> mail_job list \<Rightarrow> outbox \<Rightarrow> outbox" where
  "mail_worker transport client jobs ob = fold (\<lambda>j ob. snd (mail_process transport client j ob)) jobs ob"

section \<open>Lemmas\<close>

lemma mail_job_succeeds: "fst (mail_process transport client job ob) = Inr ()"
  by (cases client) (simp_all add: mail_process_def sendEmail_def Let_def split: sum.split)

text \<open>Each job is sent or lost: the outbox and the logged errors together account for all of them.\<close>

lemma gmail_worker:
  "mail_worker transport (GmailNotificationClient c) jobs ob =
     ob\<lparr>ob_mails := ob_mails ob @ filter (\<lambda>m. \<not> isl (transport m)) (map (\<lambda>j. \<lparr>ml_from = gm_user c, ml_job = j\<rparr>) jobs),
        ob_errors := ob_errors ob @ map (\<lambda>m. exn_message (projl (transport m)))
          (filter (\<lambda>m. isl (transport m)) (map (\<lambda>j. \<lparr>ml_from = gm_user c, ml_job = j\<rparr>) jobs))\<rparr>"
  unfolding mail_worker_def
  by (induction jobs arbitrary: ob)
    (auto simp: mail_process_def sendEmail_def Let_def isl_def split: sum.split)

end
