(* ===== verification/Accounts.thy ===== *)
theory Accounts
  imports Guards AuthProps Notification
begin

text \<open>
  The public account endpoints: the five routes of src/src/iam/authentication/authentication.controller.ts with the
  checks of their DTOs, and the listing of src/src/users/users.controller.ts. Both are decorated with
  \<^verbatim>\<open>Auth(AuthType.None)\<close>. The properties follow a sign-up to the listing and to the mail worker.
\<close>

section \<open>The routes of authentication\<close>

datatype auth_request =
    SignUp signup_dto
  | SignIn string string
  | RefreshToken
  | VerifyEmail string string
  | ResendOtp string

datatype auth_response =
    UserDoc user
  | Tokens token_pair "cookie list"
  | NewAccessToken string "cookie list"
  | OtpAnswer otp_response

text \<open>What a request draws from outside: the bcrypt salt, the token id, the one-time password.\<close>

record draws =
  dr_salt :: string
  dr_uuid :: string
  dr_rnd :: int

definition dto_error :: exn where
  "dto_error = HttpException BadRequest ''Bad Request Exception''"

definition sign_in_dto_ok :: "(string \<Rightarrow> bool) \<Rightarrow> string \<Rightarrow> string \<Rightarrow> bool" where
  "sign_in_dto_ok is_email email password = (is_email email \<and> 6 \<le> length password)"

definition email_verification_dto_ok :: "(string \<Rightarrow> bool) \<Rightarrow> string \<Rightarrow> string \<Rightarrow> bool" where
  "email_verification_dto_ok is_email otp email = (otp \<noteq> [] \<and> is_email email)"

definition resend_otp_dto_ok :: "(string \<Rightarrow> bool) \<Rightarrow> string \<Rightarrow> bool" where
  "resend_otp_dto_ok is_email email = is_email email"

fun auth_handler ::
  "(string \<Rightarrow> bool) \<Rightarrow> ('s, 'u) auth_env \<Rightarrow> int \<Rightarrow> draws \<Rightarrow> request \<Rightarrow> auth_request \<Rightarrow> ('s, 'u) auth_state
     \<Rightarrow> auth_response result \<times> ('s, 'u) auth_state" where
  "auth_handler is_email E now x rq (SignUp dto) st =
     (case ctl_signUp is_email E now (dr_salt x) (dr_rnd x) dto st of
        (Inl e, st') \<Rightarrow> (Inl e, st') | (Inr newUser, st') \<Rightarrow> (Inr (UserDoc newUser), st'))"
| "auth_handler is_email E now x rq (SignIn email password) st =
     (if sign_in_dto_ok is_email email password
      then (case ctl_signIn E now (dr_uuid x) email password st of
              (Inl e, st') \<Rightarrow> (Inl e, st') | (Inr (p, cookies), st') \<Rightarrow> (Inr (Tokens p cookies), st'))
      else (Inl dto_error, st))"
| "auth_handler is_email E now x rq RefreshToken st =
     (case ctl_refreshToken E now (dr_uuid x) rq st of
        (Inl e, st') \<Rightarrow> (Inl e, st') | (Inr (a, cookies), st') \<Rightarrow> (Inr (NewAccessToken a cookies), st'))"
| "auth_handler is_email E now x rq (VerifyEmail otp email) st =
     (if email_verification_dto_ok is_email otp email
      then (case verifyEmail E now otp email st of
              (Inl e, st') \<Rightarrow> (Inl e, st') | (Inr a, st') \<Rightarrow> (Inr (OtpAnswer a), st'))
      else (Inl dto_error, st))"
| "auth_handler is_email E now x rq (ResendOtp email) st =
     (if resend_otp_dto_ok is_email email
      then (case resendOtp E now (dr_rnd x) email st of
              (Inl e, st') \<Rightarrow> (Inl e, st') | (Inr a, st') \<Rightarrow> (Inr (OtpAnswer a), st'))
      else (Inl dto_error, st))"

definition auth_class_auth :: "AuthType list option" where
  "auth_class_auth = Some [AuthNone]"

definition authController ::
  "(string \<Rightarrow> bool) \<Rightarrow> ('s, 'u) auth_env \<Rightarrow> int \<Rightarrow> draws \<Rightarrow> request \<Rightarrow> auth_request \<Rightarrow> ('s, 'u) auth_state
     \<Rightarrow> auth_response result \<times> ('s, 'u) auth_state" where
  "authController is_email E now x rq req st =
     (case canActivate (ae_jwt E) (jwt_params.truncate (ae_config E)) now None auth_class_auth rq of
        (Inl e, _) \<Rightarrow> (Inl e, st)
      | (Inr _, rq') \<Rightarrow> auth_handler is_email E now x rq' req st)"

section \<open>The listing of users\<close>

definition get_all_auth :: "AuthType list option" where
  "get_all_auth = Some [AuthNone]"

definition usersController :: "('s, 'u) auth_env \<Rightarrow> int \<Rightarrow> request \<Rightarrow> ('s, 'u) auth_state \<Rightarrow> user list result" where
  "usersController E now rq st =
     (case canActivate (ae_jwt E) (jwt_params.truncate (ae_config E)) now get_all_auth None rq of
        (Inl e, _) \<Rightarrow> Inl e
      | (Inr _, rq') \<Rightarrow> users_foo (ae_users E) (as_users st))"

section \<open>Lemmas\<close>

lemma none_admits: "canActivate J P now (Some [AuthNone]) cls rq = (Inr (), rq)"
    "canActivate J P now None (Some [AuthNone]) rq = (Inr (), rq)"
  by (simp_all add: canActivate_def authTypesOf_def)

lemma authController_handler: "authController is_email E now x rq req st = auth_handler is_email E now x rq req st"
  by (simp add: authController_def auth_class_auth_def none_admits)

lemma usersController_foo: "usersController E now rq st = um_find (ae_users E) (as_users st)"
  by (simp add: usersController_def get_all_auth_def none_admits users_foo_def)

lemma sign_up_request:
  assumes "authController is_email E now x rq (SignUp dto) st = (Inr r, st')"
  obtains d where "r = UserDoc d" and "singUp E now (dr_salt x) (dr_rnd x) dto st = (Inr d, st')"
    and "sign_up_dto_ok is_email dto"
  using assms by (auto simp: authController_handler ctl_signUp_def split: if_splits prod.splits sum.splits)

text \<open>Every request is a step of the authentication service, or changes nothing.\<close>

lemma request_is_step:
  assumes "authController is_email E now x rq req st = (r, st')"
  shows "st' = st \<or> auth_step E {dr_uuid x} st st'"
proof (cases req)
  case (SignUp dto)
  then show ?thesis
    using assms by (auto simp: authController_handler ctl_signUp_def split: prod.splits sum.splits if_splits intro: step_singUp)
next
  case (SignIn email password)
  then show ?thesis
    using assms by (auto simp: authController_handler ctl_signIn_def split: prod.splits sum.splits if_splits intro: step_singIn)
next
  case RefreshToken
  then show ?thesis
    using assms by (auto simp: authController_handler ctl_refreshToken_def split: option.splits prod.splits sum.splits if_splits
        intro: step_refresh)
next
  case (VerifyEmail otp email)
  then show ?thesis
    using assms by (auto simp: authController_handler split: prod.splits sum.splits if_splits intro: step_verifyEmail)
next
  case (ResendOtp email)
  then show ?thesis
    using assms by (auto simp: authController_handler split: prod.splits sum.splits if_splits intro: step_resendOtp)
qed

text \<open>The new document of a sign-up, and its mail.\<close>

lemma singUp_document:
  assumes "auth_service E ks docs" and "singUp E now salt rnd dto st = (Inr d, st')"
  shows "u_password d = ae_hash E salt (su_password dto)" and "u_email d = norm_email (su_email dto)"
    and "\<not> isEmailVerified d"
    and "as_mails st' = as_mails st @ [generateVerifyAccountEmailTemplate (u_email d) (su_name dto) (show_int rnd)]"
proof -
  obtain us where c: "createUser (ae_users E) \<lparr>iu_name = su_name dto, iu_email = su_email dto,
      iu_password = ae_hash E salt (su_password dto)\<rparr> (as_users st) = (Inr d, us)"
    and m: "as_mails st' = as_mails st @ [generateVerifyAccountEmailTemplate (u_email d) (u_name d) (show_int rnd)]"
    using assms(2) by (auto simp: singUp_def generateFullOtp_def Let_def split: sum.splits option.splits prod.splits)
  have "new_document \<lparr>iu_name = su_name dto, iu_email = su_email dto, iu_password = ae_hash E salt (su_password dto)\<rparr> ''user'' d"
    using auth_service.axioms(2) [OF assms(1), THEN user_collection.um_save_Inr] c by (auto simp: createUser_def)
  with m show "u_password d = ae_hash E salt (su_password dto)" "u_email d = norm_email (su_email dto)" "\<not> isEmailVerified d"
    "as_mails st' = as_mails st @ [generateVerifyAccountEmailTemplate (u_email d) (su_name dto) (show_int rnd)]"
    by (simp_all add: new_document_def)
qed

section \<open>Properties\<close>

text \<open>
  C17: Password hashes are public. The answer to a sign-up carries the hash of the chosen password, and from then
  on \<^verbatim>\<open>GET users\<close> answers any request, with or without a token, with all stored accounts as they are, hashes
  included, unless the query itself fails.
\<close>

theorem password_hashes_are_public:
  assumes "auth_service E ks docs" and "authController is_email E now x rq (SignUp dto) st = (Inr r, st')"
  shows "(\<exists>d. r = UserDoc d \<and> u_password d = ae_hash E (dr_salt x) (su_password dto) \<and> u_email d = norm_email (su_email dto))
    \<and> (isl (um_find (ae_users E) (as_users st')) \<or> usersController E t rq' st' = Inr (docs (as_users st')))"
proof -
  obtain d where d: "r = UserDoc d" "singUp E now (dr_salt x) (dr_rnd x) dto st = (Inr d, st')"
    using sign_up_request [OF assms(2)] by blast
  have "usersController E t rq' st' = Inr (docs (as_users st'))" if "\<not> isl (um_find (ae_users E) (as_users st'))"
    using that auth_service.axioms(2) [OF assms(1), THEN user_collection.um_find, of "as_users st'"]
    by (cases "um_find (ae_users E) (as_users st')") (auto simp: usersController_foo)
  then show ?thesis using d(1) singUp_document(1,2) [OF assms(1) d(2)] by blast
qed

definition demo_draws :: draws where
  "demo_draws = \<lparr>dr_salt = [], dr_uuid = ''r1'', dr_rnd = 123456\<rparr>"

definition no_headers :: request where
  "no_headers = \<lparr>rq_authorization = None, rq_cookies = [], rq_user = None\<rparr>"

lemma demo_sign_up: "authController (\<lambda>_. True) demo_env 0 demo_draws no_headers (SignUp demo_dto) demo_start
    = (Inr (UserDoc (demo_user False)), snd demo1)"
proof -
  have "singUp demo_env 0 [] 123456 demo_dto demo_start = (Inr (demo_user False), snd demo1)"
    using demo1_result by (simp add: demo1_def [symmetric] prod_eq_iff)
  then show ?thesis
    by (simp add: authController_handler ctl_signUp_def sign_up_dto_ok_def demo_draws_def) (simp add: demo_dto_def)
qed

theorem password_hashes_are_public_witness:
  "usersController demo_env 1 no_headers (snd demo1) = Inr [demo_user False]"
proof -
  have "\<not> isl (um_find (ae_users demo_env) (as_users (snd demo1)))"
    by (simp add: demo_env_def mem_users_def)
  then show ?thesis
    using password_hashes_are_public [OF demo_service demo_sign_up, of 1 no_headers] by (simp add: demo1_docs)
qed

text \<open>
  C30: A refused mail is not sent again. A sign-up adds one job to the mail queue, which holds the code in plain text; in Redis
  its SHA-256 is stored and can be read until ten minutes later. When the transport refuses the mail of that job, the worker still completes the
  job, so that the queue has no reason to try it again, and the outbox has no mail more. The account is not verified, so that
  signing in to it fails, as long as it is stored like that.
\<close>

theorem refused_mail_is_not_sent_again:
  assumes "auth_service E ks docs" and "authController is_email E now x rq (SignUp dto) st = (Inr r, st')"
    and "job = generateVerifyAccountEmailTemplate (norm_email (su_email dto)) (su_name dto) (show_int (dr_rnd x))"
    and "isl (transport \<lparr>ml_from = gm_user c, ml_job = job\<rparr>)"
    and "t < now + 600000"
  shows "as_mails st' = as_mails st @ [job] \<and> mj_html job = verification_html (su_name dto) (show_int (dr_rnd x))
    \<and> fst (mail_process transport (GmailNotificationClient c) job ob) = Inr ()
    \<and> ob_mails (snd (mail_process transport (GmailNotificationClient c) job ob)) = ob_mails ob
    \<and> (\<exists>d. r = UserDoc d \<and> getOtp (ae_redis E) t (u_email d) (as_redis st') = Some (ae_sha256 E (show_int (dr_rnd x)))
        \<and> (findByEmail (ae_users E) email (as_users st') = Inr (Some d) \<longrightarrow> isl (fst (singIn E t uuid email password st'))))"
proof -
  obtain d where d: "r = UserDoc d" "singUp E now (dr_salt x) (dr_rnd x) dto st = (Inr d, st')"
    using sign_up_request [OF assms(2)] by blast
  note doc = singUp_document [OF assms(1) d(2)]
  have "getOtp (ae_redis E) t (u_email d) (as_redis st') = Some (ae_sha256 E (show_int (dr_rnd x)))"
    using auth_service.singUp_otp(1) [OF assms(1) d(2), of t] assms(5) by (simp add: generateOtpHash_def)
  moreover have "isl (fst (singIn E t uuid email password st'))"
    if "findByEmail (ae_users E) email (as_users st') = Inr (Some d)"
    using that doc(3) by (simp add: singIn_def)
  moreover have "ob_mails (snd (mail_process transport (GmailNotificationClient c) job ob)) = ob_mails ob"
    using assms(4) by (auto simp: mail_process_def sendEmail_def isl_def)
  ultimately show ?thesis
    using doc(2,4) d(1) mail_job_succeeds by (simp add: assms(3)) (simp add: generateVerifyAccountEmailTemplate_def)
qed

theorem refused_mail_is_not_sent_again_witness:
  "\<exists>job. as_mails (snd demo1) = [job] \<and> mj_html job = verification_html (su_name demo_dto) ''123456''
    \<and> snd (mail_process (\<lambda>_. Inl (JsError ''refused'')) (GmailNotificationClient (nc_gmail (notificationConfig Map.empty))) job
        \<lparr>ob_mails = [], ob_errors = []\<rparr>) = \<lparr>ob_mails = [], ob_errors = [''refused'']\<rparr>"
proof -
  let ?job = "generateVerifyAccountEmailTemplate (norm_email (su_email demo_dto)) (su_name demo_dto) (show_int (dr_rnd demo_draws))"
  have "as_mails (snd demo1) = as_mails demo_start @ [?job]"
    using refused_mail_is_not_sent_again [OF demo_service demo_sign_up refl, of "\<lambda>_. Inl (JsError ''refused'')" _ 0] by simp
  then show ?thesis
    by (simp add: generateVerifyAccountEmailTemplate_def demo_draws_def demo_show demo_start_def mail_process_def sendEmail_def Let_def)
qed

text \<open>
  C31: A sign-up makes the server mail a text of the caller's choice to an address of the caller's choice. The name of the request stands,
  as it was sent, in the subject and in the HTML text of the mail that leaves for the address; before and after it and the code
  that HTML is the same in every mail.
\<close>

theorem sign_up_mails_the_name_unescaped:
  assumes "auth_service E ks docs" and "authController is_email E now x rq (SignUp dto) st = (Inr r, st')"
    and "\<And>m. transport m = Inr ()"
  shows "\<exists>job. as_mails st' = as_mails st @ [job] \<and> mj_to job = norm_email (su_email dto)
    \<and> mj_subject job = ''Welcome to Eventify, '' @ su_name dto @ ''! Please Verify Your Email''
    \<and> mj_html job = html_greeting @ su_name dto @ html_before_code @ show_int (dr_rnd x) @ html_after_code
    \<and> map ml_job (ob_mails (mail_worker transport (GmailNotificationClient c) (as_mails st') ob))
        = map ml_job (ob_mails (mail_worker transport (GmailNotificationClient c) (as_mails st) ob)) @ [job]"
proof -
  obtain d where "singUp E now (dr_salt x) (dr_rnd x) dto st = (Inr d, st')" using sign_up_request [OF assms(2)] by blast
  note doc = singUp_document [OF assms(1) this]
  show ?thesis
    using assms(3) doc(2) unfolding doc(4)
    by (simp add: gmail_worker generateVerifyAccountEmailTemplate_def verification_html_def)
qed

theorem sign_up_mails_the_name_unescaped_witness:
  "map (\<lambda>m. mj_to (ml_job m)) (ob_mails (mail_worker (\<lambda>_. Inr ()) (GmailNotificationClient (nc_gmail (notificationConfig Map.empty)))
      (as_mails (snd demo1)) \<lparr>ob_mails = [], ob_errors = []\<rparr>)) = [norm_email (su_email demo_dto)]"
proof -
  obtain job where j: "as_mails (snd demo1) = as_mails demo_start @ [job]" "mj_to job = norm_email (su_email demo_dto)"
    using sign_up_mails_the_name_unescaped [OF demo_service demo_sign_up refl] by blast
  then show ?thesis by (simp add: demo_start_def gmail_worker)
qed

end
