(* ===== verification/Health.thy ===== *)
theory Health
  imports JS Dates
begin

text \<open>
  The health endpoints, src/src/health: the status of the database (a constant), of Redis (one ping), of the
  process (memory and uptime, read from the runtime), and their conjunction. The ping's outcome, and what the
  runtime reports or throws, are arguments.
\<close>

record memory_usage =
  mu_rss :: rat
  mu_heapTotal :: rat
  mu_heapUsed :: rat

record system_details =
  sy_rss :: string
  sy_heapTotal :: string
  sy_heapUsed :: string
  sy_uptime :: string

record service_status =
  ss_status :: string
  ss_message :: string
  ss_error :: "string option"
  ss_details :: "system_details option"

record health_status =
  he_status :: string
  he_timestamp :: string
  he_database :: service_status
  he_redis :: service_status
  he_system :: service_status

definition checkDatabase :: service_status where
  "checkDatabase = \<lparr>ss_status = ''ok'', ss_message = ''Database connection is healthy'', ss_error = None, ss_details = None\<rparr>"

definition checkRedis :: "unit result \<Rightarrow> service_status" where
  "checkRedis ping =
     (case ping of
        Inr _ \<Rightarrow> \<lparr>ss_status = ''ok'', ss_message = ''Redis connection is healthy'', ss_error = None, ss_details = None\<rparr>
      | Inl error \<Rightarrow> \<lparr>ss_status = ''error'', ss_message = ''Redis connection failed'',
          ss_error = Some (exn_message error), ss_details = None\<rparr>)"

definition megabytes :: "rat \<Rightarrow> string" where
  "megabytes n = show_int (math_round (n / 1024 / 1024)) @ '' MB''"

definition checkSystem :: "(memory_usage \<times> rat) result \<Rightarrow> service_status" where
  "checkSystem report =
     (case report of
        Inr (memoryUsage, uptime) \<Rightarrow>
          \<lparr>ss_status = ''ok'', ss_message = ''System resources are healthy'', ss_error = None,
           ss_details = Some \<lparr>sy_rss = megabytes (mu_rss memoryUsage), sy_heapTotal = megabytes (mu_heapTotal memoryUsage),
             sy_heapUsed = megabytes (mu_heapUsed memoryUsage), sy_uptime = show_int (math_round uptime) @ '' seconds''\<rparr>\<rparr>
      | Inl error \<Rightarrow> \<lparr>ss_status = ''error'', ss_message = ''System check failed'', ss_error = Some (exn_message error),
          ss_details = None\<rparr>)"

definition checkHealth :: "int \<Rightarrow> unit result \<Rightarrow> (memory_usage \<times> rat) result \<Rightarrow> health_status" where
  "checkHealth now ping report =
     (let database = checkDatabase; redis = checkRedis ping; system = checkSystem report;
          hasError = list_ex (\<lambda>service. ss_status service = ''error'') [database, redis, system]
      in \<lparr>he_status = (if hasError then ''error'' else ''ok''), he_timestamp = toISOString now,
          he_database = database, he_redis = redis, he_system = system\<rparr>)"

record simple_health =
  sh_status :: string
  sh_timestamp :: string
  sh_uptime :: rat
  sh_service :: string
  sh_version :: string

definition simpleHealth :: "int \<Rightarrow> rat \<Rightarrow> simple_health" where
  "simpleHealth now uptime =
     \<lparr>sh_status = ''ok'', sh_timestamp = toISOString now, sh_uptime = uptime, sh_service = ''eventify'', sh_version = ''1.0.0''\<rparr>"

text \<open>The status is an error exactly if the ping or the report failed; the database plays no part.\<close>

lemma health_error_iff: "he_status (checkHealth now ping report) = ''error'' \<longleftrightarrow> isl ping \<or> isl report"
  by (cases ping; cases report) (auto simp: checkHealth_def checkDatabase_def checkRedis_def checkSystem_def)

end
