(* ===== verification/ProtoStruct.thy ===== *)
theory ProtoStruct
  imports JS
begin

text \<open>
  The conversion of plain JavaScript values to and from \<^verbatim>\<open>google.protobuf.Value\<close>, \<^verbatim>\<open>Struct\<close> and \<^verbatim>\<open>ListValue\<close>
  messages, src/src/generated/google/protobuf/struct.ts.
\<close>

section \<open>Values and messages\<close>

text \<open>
  A JavaScript value without cycles; \<open>VOther\<close> is one of another type (a function, a symbol, a bigint), by the name
  \<^verbatim>\<open>typeof\<close> gives it. An object is its own enumerable properties in the order JavaScript
  enumerates them, which a copy made in that order has again.
\<close>

datatype js_value =
    VUndefined
  | VNull
  | VBool bool
  | VNum rat
  | VStr string
  | VArr "js_value list"
  | VObj "(string \<times> js_value) list"
  | VOther string

text \<open>A \<^verbatim>\<open>Value\<close> message: each of its six fields may be there.\<close>

datatype pvalue = PValue
  (nullValue: bool) (numberValue: "rat option") (stringValue: "string option") (boolValue: "bool option")
  (structValue: "(string \<times> pvalue) list option") (listValue: "pvalue list option")

definition createBaseValue :: pvalue where
  "createBaseValue = PValue False None None None None None"

text \<open>\<^verbatim>\<open>object[key] = value\<close> on a plain object, for a value that is an object: \<^verbatim>\<open>__proto__\<close> sets the prototype instead.\<close>

fun assoc_put :: "string \<Rightarrow> 'v \<Rightarrow> (string \<times> 'v) list \<Rightarrow> (string \<times> 'v) list" where
  "assoc_put k v [] = [(k, v)]"
| "assoc_put k v ((k', v') # m) = (if k = k' then (k, v) # m else (k', v') # assoc_put k v m)"

definition set_property :: "string \<Rightarrow> 'v \<Rightarrow> (string \<times> 'v) list \<Rightarrow> (string \<times> 'v) list" where
  "set_property k v m = (if k = ''__proto__'' then m else assoc_put k v m)"

section \<open>\<^verbatim>\<open>wrap\<close> and \<^verbatim>\<open>unwrap\<close>\<close>

text \<open>The text of the error \<^verbatim>\<open>Value.wrap\<close> throws.\<close>

definition unsupported :: "string \<Rightarrow> exn" where
  "unsupported t = JsError (''Unsupported any value type: '' @ t)"

fun wrap :: "js_value \<Rightarrow> pvalue result"
  and wrap_list :: "js_value list \<Rightarrow> pvalue list result"
  and wrap_fields :: "(string \<times> js_value) list \<Rightarrow> (string \<times> pvalue) list \<Rightarrow> (string \<times> pvalue) list result"
where
  "wrap VUndefined = Inr createBaseValue"
| "wrap VNull = Inr (PValue True None None None None None)"
| "wrap (VBool b) = Inr (PValue False None None (Some b) None None)"
| "wrap (VNum q) = Inr (PValue False (Some q) None None None None)"
| "wrap (VStr s) = Inr (PValue False None (Some s) None None None)"
| "wrap (VArr xs) = (case wrap_list xs of Inl e \<Rightarrow> Inl e | Inr vs \<Rightarrow> Inr (PValue False None None None None (Some vs)))"
| "wrap (VObj kvs) = (case wrap_fields kvs [] of Inl e \<Rightarrow> Inl e | Inr fs \<Rightarrow> Inr (PValue False None None None (Some fs) None))"
| "wrap (VOther t) = Inl (unsupported t)"
| "wrap_list [] = Inr []"
| "wrap_list (x # xs) =
     (case wrap x of Inl e \<Rightarrow> Inl e
      | Inr v \<Rightarrow> (case wrap_list xs of Inl e \<Rightarrow> Inl e | Inr vs \<Rightarrow> Inr (v # vs)))"
| "wrap_fields [] fields = Inr fields"
| "wrap_fields ((k, x) # kvs) fields =
     (case wrap x of Inl e \<Rightarrow> Inl e | Inr v \<Rightarrow> wrap_fields kvs (set_property k v fields))"

fun unwrap :: "pvalue \<Rightarrow> js_value"
  and unwrap_list :: "pvalue list \<Rightarrow> js_value list"
  and unwrap_fields :: "(string \<times> pvalue) list \<Rightarrow> (string \<times> js_value) list \<Rightarrow> (string \<times> js_value) list"
where
  "unwrap (PValue nul num str bool struct lst) =
     (case str of Some s \<Rightarrow> VStr s
      | None \<Rightarrow> (case num of Some q \<Rightarrow> VNum q
      | None \<Rightarrow> (case bool of Some b \<Rightarrow> VBool b
      | None \<Rightarrow> (case struct of Some fs \<Rightarrow> VObj (unwrap_fields fs [])
      | None \<Rightarrow> (case lst of Some vs \<Rightarrow> VArr (unwrap_list vs)
      | None \<Rightarrow> if nul then VNull else VUndefined)))))"
| "unwrap_list [] = []"
| "unwrap_list (v # vs) = unwrap v # unwrap_list vs"
| "unwrap_fields [] object = object"
| "unwrap_fields ((k, v) # fs) object = unwrap_fields fs (set_property k (unwrap v) object)"

text \<open>
  The conversions of a \<^verbatim>\<open>Struct\<close> and of a \<^verbatim>\<open>ListValue\<close>: \<^term>\<open>None\<close> is an undefined argument or field.
\<close>

definition Struct_wrap :: "(string \<times> js_value) list option \<Rightarrow> (string \<times> pvalue) list result" where
  "Struct_wrap object = (case object of None \<Rightarrow> Inr [] | Some kvs \<Rightarrow> wrap_fields kvs [])"

definition Struct_unwrap :: "(string \<times> pvalue) list option \<Rightarrow> (string \<times> js_value) list" where
  "Struct_unwrap fields = (case fields of None \<Rightarrow> [] | Some fs \<Rightarrow> unwrap_fields fs [])"

definition ListValue_wrap :: "js_value list option \<Rightarrow> pvalue list result" where
  "ListValue_wrap array = wrap_list (case array of None \<Rightarrow> [] | Some xs \<Rightarrow> xs)"

definition ListValue_unwrap :: "pvalue list \<Rightarrow> js_value list" where
  "ListValue_unwrap values = unwrap_list values"

section \<open>The round trip\<close>

text \<open>What survives: no value of another type, no property called \<^verbatim>\<open>__proto__\<close>, no property twice.\<close>

fun plain :: "js_value \<Rightarrow> bool"
  and plain_list :: "js_value list \<Rightarrow> bool"
  and plain_fields :: "(string \<times> js_value) list \<Rightarrow> bool"
where
  "plain (VArr xs) = plain_list xs"
| "plain (VObj kvs) = (distinct (map fst kvs) \<and> ''__proto__'' \<notin> set (map fst kvs) \<and> plain_fields kvs)"
| "plain (VOther t) = False"
| "plain _ = True"
| "plain_list [] = True"
| "plain_list (x # xs) = (plain x \<and> plain_list xs)"
| "plain_fields [] = True"
| "plain_fields ((k, x) # kvs) = (plain x \<and> plain_fields kvs)"

lemma assoc_put_new: "k \<notin> set (map fst m) \<Longrightarrow> assoc_put k v m = m @ [(k, v)]"
  by (induction k v m rule: assoc_put.induct) auto

lemma set_property_new: "k \<notin> set (map fst m) \<Longrightarrow> ''__proto__'' \<noteq> k \<Longrightarrow> set_property k v m = m @ [(k, v)]"
  by (auto simp: set_property_def assoc_put_new)

lemma unwrap_fields_map:
  "distinct (map fst obj @ map fst fs) \<Longrightarrow> ''__proto__'' \<notin> set (map fst fs) \<Longrightarrow>
   unwrap_fields fs obj = obj @ map (\<lambda>(k, v). (k, unwrap v)) fs"
proof (induction fs arbitrary: obj)
  case (Cons kv fs)
  obtain k v where kv: "kv = (k, v)" by (cases kv)
  with Cons.prems have "set_property k (unwrap v) obj = obj @ [(k, unwrap v)]"
    by (intro set_property_new) simp_all
  with Cons kv show ?case by simp
qed simp

lemma wrap_unwrap:
  "plain v \<Longrightarrow> \<exists>m. wrap v = Inr m \<and> unwrap m = v"
  "plain_list vs \<Longrightarrow> \<exists>ms. wrap_list vs = Inr ms \<and> unwrap_list ms = vs"
  "plain_fields kvs \<Longrightarrow> distinct (map fst fields @ map fst kvs) \<Longrightarrow> ''__proto__'' \<notin> set (map fst kvs) \<Longrightarrow>
     \<exists>ms. wrap_fields kvs fields = Inr (fields @ ms) \<and> map fst ms = map fst kvs \<and> map (\<lambda>(k, v). (k, unwrap v)) ms = kvs"
proof (induction v and vs and kvs fields rule: wrap_wrap_list_wrap_fields.induct)
  case (7 kvs)
  then obtain ms where "wrap_fields kvs [] = Inr ms" "map fst ms = map fst kvs" "map (\<lambda>(k, v). (k, unwrap v)) ms = kvs"
    by auto
  moreover from this 7 have "unwrap_fields ms [] = kvs" by (subst unwrap_fields_map) auto
  ultimately show ?case by simp
next
  case (12 k x kvs fields)
  then obtain m where m: "wrap x = Inr m" "unwrap m = x" by auto
  moreover have "set_property k m fields = fields @ [(k, m)]"
    using 12 by (intro set_property_new) simp_all
  moreover from 12 m(1) this obtain ms where "wrap_fields kvs (fields @ [(k, m)]) = Inr ((fields @ [(k, m)]) @ ms)"
    "map fst ms = map fst kvs" "map (\<lambda>(k, v). (k, unwrap v)) ms = kvs"
    by fastforce
  ultimately show ?case by (intro exI [of _ "(k, m) # ms"]) simp
qed (fastforce simp: createBaseValue_def split: sum.splits)+

text \<open>
  C40: Wrapping loses nothing. A JavaScript value of nulls, booleans, numbers, texts, lists and objects (and undefined), no
  object of which has a property called \<^verbatim>\<open>__proto__\<close>, is turned into a message, and unwrapping that message gives the
  value back; likewise an object and its \<^verbatim>\<open>Struct\<close>, and a list and its \<^verbatim>\<open>ListValue\<close>.
\<close>

theorem wrap_round_trip:
  assumes "plain v" and "plain (VObj kvs)" and "plain (VArr vs)"
  shows "(\<exists>m. wrap v = Inr m \<and> unwrap m = v)
    \<and> (\<exists>fs. Struct_wrap (Some kvs) = Inr fs \<and> Struct_unwrap (Some fs) = kvs)
    \<and> (\<exists>ms. ListValue_wrap (Some vs) = Inr ms \<and> ListValue_unwrap ms = vs)"
proof -
  have "plain_fields kvs" "distinct (map fst [] @ map fst kvs)" "''__proto__'' \<notin> set (map fst kvs)"
    using assms(2) by simp_all
  from wrap_unwrap(3) [OF this] obtain ms where ms: "wrap_fields kvs [] = Inr ms" "map fst ms = map fst kvs"
    "map (\<lambda>(k, v). (k, unwrap v)) ms = kvs" by auto
  then have "unwrap_fields ms [] = kvs" using assms(2) by (subst unwrap_fields_map) auto
  with ms(1) wrap_unwrap(1) [OF assms(1)] wrap_unwrap(2) [of vs] assms(3) show ?thesis
    by (simp add: Struct_wrap_def Struct_unwrap_def ListValue_wrap_def ListValue_unwrap_def)
qed

definition demo_value :: js_value where
  "demo_value = VObj [(''a'', VArr [VNum 1, VNull, VUndefined]), (''b'', VObj [(''c'', VStr ''x'')])]"

theorem wrap_round_trip_witness: "\<exists>m. wrap demo_value = Inr m \<and> unwrap m = demo_value"
proof -
  have "plain demo_value" "plain (VObj [])" "plain (VArr [])" by (simp_all add: demo_value_def)
  from wrap_round_trip [OF this] show ?thesis by blast
qed

end
