(* ===== verification/Pipeline.thy ===== *)
theory Pipeline
  imports Jobs
begin

text \<open>
  The way of an event from the stream to the database and to the browser: the ingestion of \<^verbatim>\<open>Events\<close>, the queues
  of BullMQ that the batchers fill, the workers of \<^verbatim>\<open>Jobs\<close> that empty them, and the gateway. A queue holds its
  waiting jobs in the order they were added; the websocket worker takes them one by one, the database worker has up
  to ten in work at a time, so that any of the ten oldest may be the next to finish.
\<close>

section \<open>State\<close>

record ('s, 'd, 'e) pipeline =
  pl_ingest :: "('s, 'd) ingest"
  pl_store_queue :: "queued_event list list"
  pl_store_done :: "queued_event list list"
  pl_events :: 'e
  pl_unhandled :: "exn list"
  pl_push_queue :: "(string \<times> event_request list) list"
  pl_push_done :: "(string \<times> event_request list) list"
  pl_gateway :: "push gateway"

record ('s, 'd, 'e) pipe_env =
  pe_ingest :: "('s, 'd) ingest_env"
  pe_events :: "'e event_model"
  pe_jwt :: jwt
  pe_params :: jwt_params

definition pipe_start :: "('s, 'd) usage_state \<Rightarrow> 'e \<Rightarrow> ('s, 'd, 'e) pipeline" where
  "pipe_start u e = \<lparr>pl_ingest = ingest_start u, pl_store_queue = [], pl_store_done = [], pl_events = e, pl_unhandled = [],
     pl_push_queue = [], pl_push_done = [], pl_gateway = gw_start\<rparr>"

section \<open>Operations\<close>

text \<open>A step of the ingestion; the jobs it adds go to the queues.\<close>

definition hand_over :: "('s, 'd) ingest \<Rightarrow> ('s, 'd, 'e) pipeline \<Rightarrow> ('s, 'd, 'e) pipeline" where
  "hand_over i st = st\<lparr>pl_ingest := i,
     pl_store_queue := pl_store_queue st @ drop (length (eb_jobs (ig_batcher (pl_ingest st)))) (eb_jobs (ig_batcher i)),
     pl_push_queue := pl_push_queue st @ drop (length (wb_jobs (ig_ws (pl_ingest st)))) (wb_jobs (ig_ws i))\<rparr>"

definition store_concurrency :: nat where "store_concurrency = 10"

definition store_worker :: "('s, 'd, 'e) pipe_env \<Rightarrow> nat \<Rightarrow> ('s, 'd, 'e) pipeline \<Rightarrow> ('s, 'd, 'e) pipeline" where
  "store_worker N k st =
     (let job = pl_store_queue st ! k; ((r, u), d) = event_to_db (pe_events N) job (pl_events st) in
      st\<lparr>pl_store_queue := take k (pl_store_queue st) @ drop (Suc k) (pl_store_queue st),
         pl_store_done := pl_store_done st @ [job], pl_events := d,
         pl_unhandled := pl_unhandled st @ (case u of None \<Rightarrow> [] | Some e \<Rightarrow> [e])\<rparr>)"

definition push_worker :: "('s, 'd, 'e) pipeline \<Rightarrow> ('s, 'd, 'e) pipeline" where
  "push_worker st =
     (let job = hd (pl_push_queue st) in
      st\<lparr>pl_push_queue := tl (pl_push_queue st), pl_push_done := pl_push_done st @ [job],
         pl_gateway := snd (ws_process job (pl_gateway st))\<rparr>)"

section \<open>Steps\<close>

datatype pipe_op =
    PipeIngest ingest_op
  | StoreJob nat
  | PushJob
  | ServerReady
  | ClientConnects string handshake
  | ClientVerified string string
  | ClientGone string
  | MetricsPush string dashboard

inductive pipe_step ::
  "('s, 'd, 'e) pipe_env \<Rightarrow> int \<Rightarrow> pipe_op \<Rightarrow> ('s, 'd, 'e) pipeline \<Rightarrow> ('s, 'd, 'e) pipeline \<Rightarrow> bool"
  for N :: "('s, 'd, 'e) pipe_env" and now :: int where
  pipe_ingest: "ingest_step (pe_ingest N) now op (pl_ingest st) i \<Longrightarrow> pipe_step N now (PipeIngest op) st (hand_over i st)"
| pipe_store: "k < length (pl_store_queue st) \<Longrightarrow> k < store_concurrency \<Longrightarrow> pipe_step N now (StoreJob k) st (store_worker N k st)"
| pipe_push: "pl_push_queue st \<noteq> [] \<Longrightarrow> pipe_step N now PushJob st (push_worker st)"
| pipe_ready: "pipe_step N now ServerReady st (st\<lparr>pl_gateway := afterInit (pl_gateway st)\<rparr>)"
| pipe_connects: "client \<notin> set (gw_open (pl_gateway st)) \<Longrightarrow> gw_data (pl_gateway st) client = None \<Longrightarrow>
    client \<notin> fst ` set (gw_pending (pl_gateway st)) \<Longrightarrow> client \<notin> snd ` set (gw_rooms (pl_gateway st)) \<Longrightarrow>
    pipe_step N now (ClientConnects client hs) st (st\<lparr>pl_gateway := connect client hs (pl_gateway st)\<rparr>)"
| pipe_verified: "(client, token) \<in> set (gw_pending (pl_gateway st)) \<Longrightarrow>
    pipe_step N now (ClientVerified client token) st
      (st\<lparr>pl_gateway := verified (pe_jwt N) (pe_params N) now client token (pl_gateway st)\<rparr>)"
| pipe_gone: "pipe_step N now (ClientGone client) st (st\<lparr>pl_gateway := disconnect client (pl_gateway st)\<rparr>)"
| pipe_metrics: "pipe_step N now (MetricsPush userId d) st
      (st\<lparr>pl_gateway := broadcastMetrics userId (PushMetrics d) (pl_gateway st)\<rparr>)"

inductive_cases pipe_stepE: "pipe_step N now op st st'"

inductive pipe_runs ::
  "('s, 'd, 'e) pipe_env \<Rightarrow> (int \<times> pipe_op) list \<Rightarrow> ('s, 'd, 'e) pipeline \<Rightarrow> ('s, 'd, 'e) pipeline \<Rightarrow> bool"
  for N :: "('s, 'd, 'e) pipe_env" where
  pipe_nil: "pipe_runs N [] st st"
| pipe_snoc: "pipe_runs N ops st st' \<Longrightarrow> pipe_step N now op st' st'' \<Longrightarrow> pipe_runs N (ops @ [(now, op)]) st st''"

section \<open>What the pipeline promises\<close>

text \<open>
  The log of acknowledged events, the document an event should become (if its payload parses and it passes the schema), and the events a
  client has been sent.
\<close>

definition pipe_log :: "('s, 'd, 'e) pipeline \<Rightarrow> (string \<times> event_request) list" where
  "pipe_log st = ig_metrics (pl_ingest st)"

definition log_of :: "string \<Rightarrow> ('s, 'd, 'e) pipeline \<Rightarrow> event_request list" where
  "log_of u st = map snd (filter (\<lambda>x. fst x = u) (pipe_log st))"

definition document_of :: "casts \<Rightarrow> string \<times> event_request \<Rightarrow> event_content option" where
  "document_of C x = (case parsed_event (x, 0) of Inl e \<Rightarrow> None | Inr event \<Rightarrow> event_schema C event)"

definition pushed_to :: "string \<Rightarrow> ('s, 'd, 'e) pipeline \<Rightarrow> event_request list" where
  "pushed_to u st = concat (map snd (filter (\<lambda>j. fst j = u) (pl_push_done st)))"

fun message_events :: "push ws_message \<Rightarrow> ws_event list" where
  "message_events (Broadcast name (PushEvents es)) = es"
| "message_events _ = []"

definition received_by :: "string \<Rightarrow> ('s, 'd, 'e) pipeline \<Rightarrow> ws_event list" where
  "received_by c st = concat (map (message_events \<circ> snd) (filter (\<lambda>m. fst m = c) (gw_sent (pl_gateway st))))"

text \<open>Nothing is on its way to the database, or to the browser.\<close>

definition store_idle :: "('s, 'd, 'e) pipeline \<Rightarrow> bool" where
  "store_idle st = (eb_buffer (ig_batcher (pl_ingest st)) = [] \<and> pl_store_queue st = [])"

definition push_idle :: "('s, 'd, 'e) pipeline \<Rightarrow> bool" where
  "push_idle st = ((\<forall>u. wb_pending u (ig_ws (pl_ingest st)) = []) \<and> pl_push_queue st = [])"

end
