(* ===== verification/PipelineProps.thy ===== *)
theory PipelineProps
  imports Pipeline JobsProps
begin

text \<open>
  Properties of the whole way: what is stored comes from the log and every event of the log can still be stored,
  and a client that stays connected is sent its user's events in the order of the log.
\<close>

section \<open>Lists and multisets\<close>

lemma mset_map_filter_mono: "mset xs \<subseteq># mset ys \<Longrightarrow> mset (List.map_filter f xs) \<subseteq># mset (List.map_filter f ys)"
  unfolding List.map_filter_def mset_map mset_filter
  by (intro image_mset_subseteq_mono multiset_filter_mono)

lemma mset_map_filter_eq: "mset xs = mset ys \<Longrightarrow> mset (List.map_filter f xs) = mset (List.map_filter f ys)"
  by (simp add: subset_mset.order_antisym mset_map_filter_mono)

lemma subseq_mset: "subseq xs ys \<Longrightarrow> mset xs \<subseteq># mset ys"
  by (induction rule: list_emb.induct) (auto simp: subset_mset.add_increasing2 intro: subset_mset.order_trans)

lemma concat_map_filter: "concat (map (List.map_filter f) xss) = List.map_filter f (concat xss)"
  by (induction xss) (simp_all add: List.map_filter_def)

lemma map_filter_map: "List.map_filter f (map g xs) = List.map_filter (f \<circ> g) xs"
  by (induction xs) (simp_all add: List.map_filter_simps split: option.split)

lemma mset_concat_image: "mset (concat xss) = sum_mset (image_mset mset (mset xss))"
  by (induction xss) simp_all

lemma mset_concat_eq: "mset xss = mset yss \<Longrightarrow> mset (concat xss) = mset (concat yss)"
  by (simp only: mset_concat_image)

lemma mset_concat_mono:
  assumes "mset xss \<subseteq># mset yss"
  shows "mset (concat xss) \<subseteq># mset (concat yss)"
proof -
  have "mset yss = mset xss + (mset yss - mset xss)" using assms by (rule subset_mset.add_diff_inverse [symmetric])
  then show ?thesis by (metis mset_concat_image image_mset_union mset_subset_eq_add_left sum_mset.union)
qed

lemma mset_nth_drop: "k < length xs \<Longrightarrow> add_mset (xs ! k) (mset (take k xs) + mset (drop (Suc k) xs)) = mset xs"
  by (metis Cons_nth_drop_Suc append_take_drop_id mset.simps(2) mset_append union_mset_add_mset_right)

lemma list_all_mset_eq: "mset xs = mset ys \<Longrightarrow> list_all P xs = list_all P ys"
  by (metis list_all_iff mset_eq_setD)

lemma list_all_trivial: "list_all (\<lambda>_. True) xs"
  by (induction xs) simp_all

section \<open>The batchers only add jobs\<close>

lemma flushUserBatch_prefix: "prefix (wb_jobs w) (wb_jobs (flushUserBatch k w))"
  by (auto simp: flushUserBatch_def split: option.split)

lemma flushAll_prefix: "prefix (wb_jobs w) (wb_jobs (flushAllBatches w))"
  unfolding flushAllBatches_def
  by (rule fold_invariant_list [of "\<lambda>x. prefix (wb_jobs w) (wb_jobs x)"])
    (auto intro: prefix_order.trans flushUserBatch_prefix)

lemma addEvent_prefix: "prefix (wb_jobs w) (wb_jobs (addEvent ow e w))"
  using flushAll_prefix [of "w\<lparr>wb_bufferMap := m\<rparr>" for m] by (simp add: addEvent_def Let_def)

lemma ingest_jobs_grow:
  assumes "ingest_step N now op i i'" and "streams_ok i"
  shows "prefix (eb_jobs (ig_batcher i)) (eb_jobs (ig_batcher i'))"
    and "prefix (wb_jobs (ig_ws i)) (wb_jobs (ig_ws i'))"
proof -
  have "prefix (eb_jobs (ig_batcher i)) (eb_jobs (ig_batcher i')) \<and> prefix (wb_jobs (ig_ws i)) (wb_jobs (ig_ws i'))"
    using assms(1)
  proof cases
    case (next_step k event)
    from on_next_open [OF assms(2) next_step(3), of N now event] show ?thesis
      by (simp add: next_step(2) addStreamEvent_sel addEvent_prefix)
  next
    case (open_step md)
    then show ?thesis by (simp add: open_stream_def split: sum.split)
  next
    case (task_step k)
    then show ?thesis by (simp add: run_task_def Let_def split: option.split)
  qed (auto simp: on_error_def flushBatch_sel flushAll_prefix)
  then show "prefix (eb_jobs (ig_batcher i)) (eb_jobs (ig_batcher i'))"
    and "prefix (wb_jobs (ig_ws i)) (wb_jobs (ig_ws i'))" by simp_all
qed

section \<open>The invariant\<close>

definition batch_parses :: "queued_event list \<Rightarrow> bool" where
  "batch_parses job = list_all (\<lambda>q. \<not> unparsable (snd (fst q))) job"

text \<open>What has been sent to the database: the documents of the batches done whose payloads all parse.\<close>

definition pipe_sent :: "casts \<Rightarrow> ('s, 'd, 'e) pipeline \<Rightarrow> event_content list" where
  "pipe_sent C st = concat (map (batch_contents C) (filter batch_parses (pl_store_done st)))"

definition stored_inv ::
  "casts \<Rightarrow> 'e event_model \<Rightarrow> ('e \<Rightarrow> event_doc list) \<Rightarrow> 'e \<Rightarrow> ('s, 'd, 'e) pipeline \<Rightarrow> bool" where
  "stored_inv C M docs e0 st = (\<exists>new. docs (pl_events st) = docs e0 @ new
     \<and> subseq (map event_content.truncate new) (pipe_sent C st)
     \<and> (\<forall>accepted. stores_accepted C M docs accepted \<and> list_all accepted (pipe_sent C st) \<longrightarrow>
        map event_content.truncate new = pipe_sent C st))"

definition queues_ok :: "('s, 'd, 'e) pipeline \<Rightarrow> bool" where
  "queues_ok st = (mset (pl_store_done st @ pl_store_queue st) = mset (eb_jobs (ig_batcher (pl_ingest st)))
     \<and> pl_push_done st @ pl_push_queue st = wb_jobs (ig_ws (pl_ingest st)))"

definition pipe_inv ::
  "jwt \<Rightarrow> jwt_params \<Rightarrow> casts \<Rightarrow> 'e event_model \<Rightarrow> (string \<times> string \<times> bool) list \<Rightarrow> ('d \<Rightarrow> api_key list) \<Rightarrow> ('e \<Rightarrow> event_doc list) \<Rightarrow> 'e
     \<Rightarrow> ('s, 'd, 'e) pipeline \<Rightarrow> bool" where
  "pipe_inv J P C M ids kdocs docs e0 st =
     (ingest_inv ids kdocs (pl_ingest st) \<and> queues_ok st \<and> stored_inv C M docs e0 st \<and> gw_inv J P (pl_gateway st))"

lemma queues_hand_over:
  assumes "queues_ok st" and "prefix (eb_jobs (ig_batcher (pl_ingest st))) (eb_jobs (ig_batcher i))"
    and "prefix (wb_jobs (ig_ws (pl_ingest st))) (wb_jobs (ig_ws i))"
  shows "queues_ok (hand_over i st)"
  using assms by (auto simp: queues_ok_def hand_over_def prefix_def)

lemma store_worker_sel:
  "pl_ingest (store_worker N k st) = pl_ingest st" "pl_gateway (store_worker N k st) = pl_gateway st"
  "pl_push_queue (store_worker N k st) = pl_push_queue st" "pl_push_done (store_worker N k st) = pl_push_done st"
  "pl_store_queue (store_worker N k st) = take k (pl_store_queue st) @ drop (Suc k) (pl_store_queue st)"
  "pl_store_done (store_worker N k st) = pl_store_done st @ [pl_store_queue st ! k]"
  by (simp_all add: store_worker_def Let_def split_beta)

lemma stored_worker:
  assumes "event_collection C (pe_events N) docs" and "stored_inv C (pe_events N) docs e0 st"
  shows "stored_inv C (pe_events N) docs e0 (store_worker N k st)"
proof -
  let ?job = "pl_store_queue st ! k" and ?st = "store_worker N k st"
  let ?exact = "\<lambda>new sent. \<forall>accepted. stores_accepted C (pe_events N) docs accepted \<and> list_all accepted sent \<longrightarrow> map event_content.truncate new = sent"
  obtain new where new: "docs (pl_events st) = docs e0 @ new" "subseq (map event_content.truncate new) (pipe_sent C st)"
    "?exact new (pipe_sent C st)"
    using assms(2) unfolding stored_inv_def by blast
  obtain r u d where x: "event_to_db (pe_events N) ?job (pl_events st) = ((r, u), d)" by (metis prod.exhaust)
  have d: "pl_events ?st = d" by (simp add: store_worker_def x)
  show ?thesis
  proof (cases "batch_parses ?job")
    case False
    then have "\<exists>q \<in> set ?job. unparsable (snd (fst q))" by (auto simp: batch_parses_def list_all_iff)
    from event_to_db_bad [OF this, of "pe_events N" "pl_events st"] x have "d = pl_events st" by auto
    moreover have "pipe_sent C ?st = pipe_sent C st" using False by (simp add: pipe_sent_def store_worker_sel)
    ultimately show ?thesis using new unfolding stored_inv_def d by auto
  next
    case True
    then have "\<forall>q \<in> set ?job. \<not> unparsable (snd (fst q))" by (simp add: batch_parses_def list_all_iff)
    from event_to_db_good(2) [OF assms(1) this x] obtain more where more: "docs d = docs (pl_events st) @ more"
      "subseq (map event_content.truncate more) (batch_contents C ?job)" "?exact more (batch_contents C ?job)" by blast
    have sent: "pipe_sent C ?st = pipe_sent C st @ batch_contents C ?job" using True by (simp add: pipe_sent_def store_worker_sel)
    have "docs d = docs e0 @ new @ more" using new(1) more(1) by simp
    moreover have "subseq (map event_content.truncate (new @ more)) (pipe_sent C ?st)"
      unfolding sent map_append using new(2) more(2) by (rule list_emb_append_mono)
    moreover have "?exact (new @ more) (pipe_sent C ?st)"
    proof (intro allI impI)
      fix accepted
      assume "stores_accepted C (pe_events N) docs accepted \<and> list_all accepted (pipe_sent C ?st)"
      with new(3) [rule_format, of accepted] more(3) [rule_format, of accepted]
      show "map event_content.truncate (new @ more) = pipe_sent C ?st" by (simp add: sent)
    qed
    ultimately show ?thesis unfolding stored_inv_def d by blast
  qed
qed

lemma pipe_inv_step:
  assumes "pipe_step N now op st st'" and "api_key_collection (ie_keys (pe_ingest N)) kdocs"
    and "event_collection C (pe_events N) docs" and "pipe_inv (pe_jwt N) (pe_params N) C (pe_events N) ids kdocs docs e0 st"
  shows "pipe_inv (pe_jwt N) (pe_params N) C (pe_events N) ids kdocs docs e0 st'"
proof -
  let ?J = "pe_jwt N" and ?P = "pe_params N"
  have inv: "ingest_inv ids kdocs (pl_ingest st)" "queues_ok st" "stored_inv C (pe_events N) docs e0 st" "gw_inv ?J ?P (pl_gateway st)"
    using assms(4) by (simp_all add: pipe_inv_def)
  have gateway: "pipe_inv ?J ?P C (pe_events N) ids kdocs docs e0 (st\<lparr>pl_gateway := g\<rparr>)" if "gw_step ?J ?P (pl_gateway st) g" for g
    using inv gw_inv_step [OF that inv(4)] by (simp add: pipe_inv_def queues_ok_def stored_inv_def pipe_sent_def)
  show ?thesis
    using assms(1)
  proof cases
    case (pipe_ingest iop i)
    have "streams_ok (pl_ingest st)" using inv(1) by (simp add: ingest_inv_def)
    from queues_hand_over [OF inv(2) ingest_jobs_grow [OF pipe_ingest(3) this]]
      api_key_collection.step_inv [OF assms(2) pipe_ingest(3) refl inv(1)] inv(3,4)
    show ?thesis by (simp add: pipe_ingest(2) pipe_inv_def stored_inv_def pipe_sent_def) (simp add: hand_over_def)
  next
    case (pipe_store k)
    have "queues_ok st'"
      using inv(2) mset_nth_drop [OF pipe_store(3)]
      by (simp add: pipe_store(2) queues_ok_def store_worker_sel)
    with stored_worker [OF assms(3) inv(3), of k] inv(1,4) show ?thesis
      by (simp add: pipe_store(2) pipe_inv_def store_worker_sel)
  next
    case pipe_push
    have "gw_inv ?J ?P (snd (ws_process job (pl_gateway st)))" for job
      using inv(4) gw_inv_step [OF gw_events inv(4)]
      by (auto simp: ws_process_def split: prod.split sum.split)
    then show ?thesis
      using inv pipe_push by (simp add: pipe_inv_def queues_ok_def stored_inv_def pipe_sent_def push_worker_def Let_def)
  next
    case pipe_ready
    then show ?thesis using gateway [OF gw_init] by simp
  next
    case (pipe_connects client hs)
    then show ?thesis using gateway [OF gw_connect] by simp
  next
    case (pipe_verified client token)
    then show ?thesis using gateway [OF gw_verified] by simp
  next
    case (pipe_gone client)
    then show ?thesis using gateway [OF gw_gone] by simp
  next
    case (pipe_metrics userId d)
    then show ?thesis using gateway [OF gw_metrics] by simp
  qed
qed

lemma pipe_inv_start:
  "pipe_inv J P C M (map key_id (kdocs (us_db u))) kdocs docs e (pipe_start u e)"
  using inv_start [of kdocs u] gw_reachable_inv [OF gw_reach_start, of J P]
  by (simp add: pipe_inv_def pipe_start_def queues_ok_def stored_inv_def pipe_sent_def) (simp add: ingest_start_def eb_init_def wb_init_def)

lemma pipe_runs_inv:
  assumes "pipe_runs N ops (pipe_start u e0) st" and "api_key_collection (ie_keys (pe_ingest N)) kdocs"
    and "event_collection C (pe_events N) docs"
  shows "pipe_inv (pe_jwt N) (pe_params N) C (pe_events N) (map key_id (kdocs (us_db u))) kdocs docs e0 st"
  using assms(1)
proof (induction "pipe_start u e0" st rule: pipe_runs.induct)
  case pipe_nil
  then show ?case by (rule pipe_inv_start)
next
  case (pipe_snoc ops st' now op st'')
  then show ?case using pipe_inv_step [OF _ assms(2,3)] by blast
qed

section \<open>The store and the log\<close>

lemma event_document:
  assumes "\<not> unparsable (snd (fst q))"
  shows "event_schema C (projr (parsed_event q)) = document_of C (fst q)"
proof -
  obtain ow e t where q: "q = ((ow, e), t)" by (metis prod.exhaust)
  obtain v where v: "json_parse (er_payload e) = Inr v"
    using assms by (cases "json_parse (er_payload e)") (auto simp: q unparsable_def)
  show ?thesis by (simp add: q document_of_def parsed_event_def v event_schema_def Let_def split: option.split)
qed

lemma batch_contents_docs: "batch_parses job \<Longrightarrow> batch_contents C job = List.map_filter (document_of C) (map fst job)"
  by (induction job)
    (simp_all add: batch_contents_def batch_parses_def List.map_filter_simps event_document split: option.split)

lemma contents_docs:
  "pipe_sent C st = List.map_filter (document_of C) (map fst (concat (filter batch_parses (pl_store_done st))))"
proof -
  let ?jobs = "pl_store_done st"
  have "map (batch_contents C) (filter batch_parses ?jobs)
      = map (List.map_filter (document_of C)) (map (map fst) (filter batch_parses ?jobs))"
    by (simp add: batch_contents_docs)
  then show ?thesis by (simp only: pipe_sent_def concat_map_filter map_concat)
qed

lemma jobs_in_log:
  assumes "sinks_agree (pl_ingest st)" and "queues_ok st"
  shows "mset (map fst (concat (pl_store_done st @ pl_store_queue st)) @ map fst (eb_buffer (ig_batcher (pl_ingest st))))
    = mset (pipe_log st)"
proof -
  have "mset (concat (pl_store_done st @ pl_store_queue st)) = mset (concat (eb_jobs (ig_batcher (pl_ingest st))))"
    by (rule mset_concat_eq) (use assms(2) in \<open>simp add: queues_ok_def\<close>)
  then have "mset (map fst (concat (pl_store_done st @ pl_store_queue st))) = mset (map fst (concat (eb_jobs (ig_batcher (pl_ingest st)))))"
    by (simp only: mset_map)
  moreover have "map fst (concat (eb_jobs (ig_batcher (pl_ingest st)))) @ map fst (eb_buffer (ig_batcher (pl_ingest st))) = pipe_log st"
    using assms(1) by (simp add: sinks_agree_def pipe_log_def)
  ultimately show ?thesis by (metis mset_append)
qed

lemma good_jobs_in_log:
  assumes "sinks_agree (pl_ingest st)" and "queues_ok st"
  shows "mset (map fst (concat (filter batch_parses (pl_store_done st)))) \<subseteq># mset (pipe_log st)"
proof -
  have "mset (filter batch_parses (pl_store_done st)) \<subseteq># mset (pl_store_done st @ pl_store_queue st)"
    by (simp add: subset_mset.add_increasing2)
  from image_mset_subseteq_mono [OF mset_concat_mono [OF this], of fst]
  have "mset (map fst (concat (filter batch_parses (pl_store_done st))))
      \<subseteq># mset (map fst (concat (pl_store_done st @ pl_store_queue st)))" by (simp only: mset_map)
  also have "\<dots> \<subseteq># mset (pipe_log st)"
    unfolding jobs_in_log [OF assms, symmetric] by simp
  finally show ?thesis .
qed

lemma all_batches_parse:
  assumes "sinks_agree (pl_ingest st)" and "queues_ok st" and "\<forall>x \<in> set (pipe_log st). \<not> unparsable (snd x)"
  shows "filter batch_parses (pl_store_done st) = pl_store_done st"
proof -
  have "fst q \<in> set (pipe_log st)" if "job \<in> set (pl_store_done st)" "q \<in> set job" for job q
  proof -
    have "fst q \<in># mset (map fst (concat (pl_store_done st @ pl_store_queue st)) @ map fst (eb_buffer (ig_batcher (pl_ingest st))))"
      using that by force
    then show ?thesis by (simp only: jobs_in_log [OF assms(1,2)] set_mset_mset)
  qed
  then have "\<forall>job \<in> set (pl_store_done st). \<forall>q \<in> set job. fst q \<in> set (pipe_log st)" by blast
  then show ?thesis
    using assms(3) by (auto simp: filter_id_conv batch_parses_def list_all_iff)
qed

lemma log_stored:
  assumes "pipe_inv J P C M ids kdocs docs e0 st"
  shows "\<exists>new. docs (pl_events st) = docs e0 @ new \<and> subseq (map event_content.truncate new) (pipe_sent C st)
      \<and> (\<forall>accepted. stores_accepted C M docs accepted \<and> list_all accepted (pipe_sent C st) \<longrightarrow>
        map event_content.truncate new = pipe_sent C st)"
    and "mset (pipe_sent C st) \<subseteq># mset (List.map_filter (document_of C) (pipe_log st))"
    and "store_idle st \<Longrightarrow> \<forall>x \<in> set (pipe_log st). \<not> unparsable (snd x) \<Longrightarrow>
      mset (pipe_sent C st) = mset (List.map_filter (document_of C) (pipe_log st))"
proof -
  have agree: "sinks_agree (pl_ingest st)" "queues_ok st" using assms by (simp_all add: pipe_inv_def ingest_inv_def)
  let ?good = "map fst (concat (filter batch_parses (pl_store_done st)))"
  show "\<exists>new. docs (pl_events st) = docs e0 @ new \<and> subseq (map event_content.truncate new) (pipe_sent C st)
      \<and> (\<forall>accepted. stores_accepted C M docs accepted \<and> list_all accepted (pipe_sent C st) \<longrightarrow>
        map event_content.truncate new = pipe_sent C st)"
    using assms by (simp add: pipe_inv_def stored_inv_def)
  show "mset (pipe_sent C st) \<subseteq># mset (List.map_filter (document_of C) (pipe_log st))"
    unfolding contents_docs by (rule mset_map_filter_mono [OF good_jobs_in_log [OF agree]])
  assume idle: "store_idle st" and p: "\<forall>x \<in> set (pipe_log st). \<not> unparsable (snd x)"
  have "mset ?good = mset (pipe_log st)"
    using jobs_in_log [OF agree] idle by (simp add: all_batches_parse [OF agree p] store_idle_def)
  then show "mset (pipe_sent C st) = mset (List.map_filter (document_of C) (pipe_log st))"
    unfolding contents_docs by (rule mset_map_filter_eq)
qed

section \<open>Draining\<close>

abbreviation drain_ops :: "pipe_op set" where
  "drain_ops \<equiv> {PipeIngest FlushTick, PipeIngest WebSocketTick, StoreJob 0, PushJob}"

lemma drain_store:
  assumes "pipe_runs N ops s0 st"
  shows "\<exists>ops' st'. pipe_runs N (ops @ ops') s0 st' \<and> snd ` set ops' \<subseteq> drain_ops \<and> pl_store_queue st' = []
    \<and> pl_ingest st' = pl_ingest st \<and> pl_push_queue st' = pl_push_queue st"
  using assms
proof (induction "length (pl_store_queue st)" arbitrary: ops st)
  case 0
  then show ?case by (intro exI [of _ "[]"] exI [of _ st]) simp
next
  case (Suc n)
  have "0 < length (pl_store_queue st)" using Suc.hyps(2) by linarith
  then have "pipe_step N 0 (StoreJob 0) st (store_worker N 0 st)"
    by (rule pipe_store) (simp add: store_concurrency_def)
  from pipe_snoc [OF Suc.prems this] have "pipe_runs N (ops @ [(0, StoreJob 0)]) s0 (store_worker N 0 st)" .
  moreover have "n = length (pl_store_queue (store_worker N 0 st))" using Suc.hyps(2) by (simp add: store_worker_sel)
  ultimately obtain ops' st'
    where r: "pipe_runs N ((ops @ [(0, StoreJob 0)]) @ ops') s0 st'" "snd ` set ops' \<subseteq> drain_ops" "pl_store_queue st' = []"
      "pl_ingest st' = pl_ingest st" "pl_push_queue st' = pl_push_queue st"
    using Suc.hyps(1) by (metis store_worker_sel(1,3))
  then show ?case by (intro exI [of _ "(0, StoreJob 0) # ops'"] exI [of _ st']) simp
qed

lemma push_worker_sel:
  "pl_ingest (push_worker st) = pl_ingest st" "pl_store_queue (push_worker st) = pl_store_queue st"
  "pl_push_queue (push_worker st) = tl (pl_push_queue st)"
  by (simp_all add: push_worker_def Let_def)

lemma drain_push:
  assumes "pipe_runs N ops s0 st"
  shows "\<exists>ops' st'. pipe_runs N (ops @ ops') s0 st' \<and> snd ` set ops' \<subseteq> drain_ops \<and> pl_push_queue st' = []
    \<and> pl_ingest st' = pl_ingest st \<and> pl_store_queue st' = pl_store_queue st"
  using assms
proof (induction "length (pl_push_queue st)" arbitrary: ops st)
  case 0
  then show ?case by (intro exI [of _ "[]"] exI [of _ st]) simp
next
  case (Suc n)
  then have "pl_push_queue st \<noteq> []" by auto
  from pipe_snoc [OF Suc.prems pipe_push [OF this, where now = 0]]
  have "pipe_runs N (ops @ [(0, PushJob)]) s0 (push_worker st)" .
  moreover have "n = length (pl_push_queue (push_worker st))" using Suc.hyps(2) by (simp add: push_worker_sel)
  ultimately obtain ops' st'
    where r: "pipe_runs N ((ops @ [(0, PushJob)]) @ ops') s0 st'" "snd ` set ops' \<subseteq> drain_ops" "pl_push_queue st' = []"
      "pl_ingest st' = pl_ingest st" "pl_store_queue st' = pl_store_queue st"
    using Suc.hyps(1) by (metis push_worker_sel(1,2))
  then show ?case by (intro exI [of _ "(0, PushJob) # ops'"] exI [of _ st']) simp
qed

lemma drain:
  assumes "pipe_runs N ops s0 st"
  shows "\<exists>ops' st'. pipe_runs N (ops @ ops') s0 st' \<and> snd ` set ops' \<subseteq> drain_ops \<and> store_idle st' \<and> push_idle st' \<and> pipe_log st' = pipe_log st"
proof -
  define i1 where "i1 = (pl_ingest st)\<lparr>ig_batcher := flushBatch (ig_batcher (pl_ingest st))\<rparr>"
  define i2 where "i2 = i1\<lparr>ig_ws := flushAllBatches (ig_ws i1)\<rparr>"
  have s1: "pipe_step N 0 (PipeIngest FlushTick) st (hand_over i1 st)"
    unfolding i1_def by (intro pipe_ingest flush_step)
  have s2: "pipe_step N 0 (PipeIngest WebSocketTick) (hand_over i1 st) (hand_over i2 (hand_over i1 st))"
    unfolding i2_def using ws_step [of "pe_ingest N" 0 "pl_ingest (hand_over i1 st)"]
    by (intro pipe_ingest) (simp add: hand_over_def)
  have r: "pipe_runs N (ops @ [(0, PipeIngest FlushTick), (0, PipeIngest WebSocketTick)]) s0 (hand_over i2 (hand_over i1 st))"
    using pipe_snoc [OF pipe_snoc [OF assms s1] s2] by simp
  from drain_store [OF r] obtain ops1 st1
    where st1: "pipe_runs N ((ops @ [(0, PipeIngest FlushTick), (0, PipeIngest WebSocketTick)]) @ ops1) s0 st1"
      "snd ` set ops1 \<subseteq> drain_ops" "pl_store_queue st1 = []" "pl_ingest st1 = i2"
    by (auto simp: hand_over_def)
  from drain_push [OF st1(1)] obtain ops2 st2
    where st2: "pipe_runs N (((ops @ [(0, PipeIngest FlushTick), (0, PipeIngest WebSocketTick)]) @ ops1) @ ops2) s0 st2"
      "snd ` set ops2 \<subseteq> drain_ops" "pl_push_queue st2 = []" "pl_ingest st2 = i2" "pl_store_queue st2 = []"
    using st1(3,4) by auto
  let ?ops = "[(0, PipeIngest FlushTick), (0, PipeIngest WebSocketTick)] @ ops1 @ ops2"
  have "store_idle st2 \<and> push_idle st2"
    by (simp add: store_idle_def push_idle_def st2(3-5) i2_def i1_def flushBatch_sel flushAll_sel)
  moreover have "pipe_log st2 = pipe_log st" by (simp add: pipe_log_def st2(4) i2_def i1_def)
  moreover have "snd ` set ?ops \<subseteq> drain_ops" using st1(2) st2(2) by auto
  moreover have "pipe_runs N (ops @ ?ops) s0 st2" using st2(1) by simp
  ultimately show ?thesis by blast
qed

section \<open>Delivery to a client\<close>

definition online :: "string \<Rightarrow> string \<Rightarrow> ('s, 'd, 'e) pipeline \<Rightarrow> bool" where
  "online c u st = (c \<in> set (gw_open (pl_gateway st)) \<and> (\<exists>cl. gw_data (pl_gateway st) c = Some cl \<and> c_sub cl = u))"

definition sent_events :: "string \<Rightarrow> push gateway \<Rightarrow> ws_event list" where
  "sent_events c g = concat (map (message_events \<circ> snd) (filter (\<lambda>m. fst m = c) (gw_sent g)))"

lemma received_sent: "received_by c st = sent_events c (pl_gateway st)"
  by (simp add: received_by_def sent_events_def)

lemma sent_emit [simp]: "message_events m = [] \<Longrightarrow> sent_events c (emit d m g) = sent_events c g"
  by (simp add: sent_events_def emit_def)

lemma sent_disconnect [simp]: "sent_events c (disconnect d g) = sent_events c g"
  by (simp add: sent_events_def disconnect_def handleDisconnect_def Let_def split: option.split)

lemma sent_join [simp]: "sent_events c (join r d g) = sent_events c g"
  by (simp add: sent_events_def join_def)

lemma filter_eq_distinct: "distinct xs \<Longrightarrow> c \<in> set xs \<Longrightarrow> filter (\<lambda>x. x = c) xs = [c]"
  by (induction xs) (auto simp: filter_empty_conv)

lemma sent_broadcast:
  assumes "gw_inv J P g"
  shows "sent_events c (broadcastToUser u (PushEvents es) g) = sent_events c g @
    (if c \<in> set (gw_open g) \<and> (\<exists>cl. gw_data g c = Some cl \<and> c_sub cl = u) then es else [])"
proof -
  let ?to = "members (user_room u) g"
  note m = gw_inv_members [OF assms, of u]
  have "filter (\<lambda>x. fst x = c) (map (\<lambda>d. (d, Broadcast ''events'' (PushEvents es))) ?to)
      = map (\<lambda>d. (d, Broadcast ''events'' (PushEvents es))) (filter (\<lambda>d. d = c) ?to)"
    by (simp add: filter_map comp_def)
  moreover have "filter (\<lambda>d. d = c) ?to = (if c \<in> set ?to then [c] else [])"
    using filter_eq_distinct [OF m(2)] by (auto simp: filter_empty_conv)
  ultimately have "sent_events c (broadcastToUser u (PushEvents es) g) = sent_events c g @ (if c \<in> set ?to then es else [])"
    by (simp add: sent_events_def broadcastToUser_def emit_room_def)
  then show ?thesis by (simp only: m(1) mem_Collect_eq)
qed

lemma sent_connect: "sent_events c (connect d hs g) = sent_events c g"
  by (auto simp: connect_def Let_def sent_events_def [symmetric] split: option.split) (simp_all add: sent_events_def)

lemma sent_verified: "sent_events c (verified J P now d tok g) = sent_events c g"
  by (simp add: verified_def sendInitialData_def Let_def split: sum.split) (simp add: sent_events_def)

lemma sent_metrics: "sent_events c (broadcastMetrics v (PushMetrics d) g) = sent_events c g"
proof -
  have "concat (map (message_events \<circ> snd) (filter (\<lambda>m. fst m = c) (map (\<lambda>x. (x, Broadcast n (PushMetrics d))) xs))) = []" for n xs
    by (induction xs) auto
  then show ?thesis by (simp add: broadcastMetrics_def emit_room_def sent_events_def)
qed

lemma online_push:
  assumes "gw_inv J P (pl_gateway st)" and "online c u st" and "pl_push_queue st \<noteq> []"
  shows "online c u (push_worker st)"
    and "fst (hd (pl_push_queue st)) \<noteq> u \<Longrightarrow> received_by c (push_worker st) = received_by c st"
    and "fst (hd (pl_push_queue st)) = u \<Longrightarrow> \<forall>e \<in> set (snd (hd (pl_push_queue st))). \<not> unparsable e \<Longrightarrow>
      \<exists>ws. received_by c (push_worker st) = received_by c st @ ws \<and> list_all2 (\<lambda>e w. parse_ws e = Inr w) (snd (hd (pl_push_queue st))) ws"
proof -
  obtain v es where job: "hd (pl_push_queue st) = (v, es)" by (cases "hd (pl_push_queue st)")
  have c: "c \<in> set (gw_open (pl_gateway st))" "\<exists>cl. gw_data (pl_gateway st) c = Some cl \<and> c_sub cl = v \<longleftrightarrow> v = u"
    using assms(2) by (auto simp: online_def)
  show "online c u (push_worker st)"
    using assms(2) by (simp add: online_def push_worker_def ws_process_def broadcastToUser_def Let_def split: prod.split sum.split)
  show "fst (hd (pl_push_queue st)) \<noteq> u \<Longrightarrow> received_by c (push_worker st) = received_by c st"
    using assms(2) by (auto simp: job received_sent push_worker_def ws_process_def sent_broadcast [OF assms(1)] online_def split: sum.split)
  assume v: "fst (hd (pl_push_queue st)) = u" and p: "\<forall>e \<in> set (snd (hd (pl_push_queue st))). \<not> unparsable e"
  have "\<not> isl (parse_ws e)" if "e \<in> set es" for e
    using p that by (auto simp: job parse_ws_def unparsable_def split: sum.splits)
  then have "\<not> isl (map_result parse_ws es)" by (auto simp: map_result_Inl)
  then obtain ws where ws: "map_result parse_ws es = Inr ws" by (cases "map_result parse_ws es") auto
  with map_result_Inr [of parse_ws es ws] have "list_all2 (\<lambda>e w. parse_ws e = Inr w) es ws" by simp
  moreover have "received_by c (push_worker st) = received_by c st @ ws"
    using v assms(2) by (auto simp: job received_sent push_worker_def ws_process_def ws sent_broadcast [OF assms(1)] online_def)
  ultimately show "\<exists>ws. received_by c (push_worker st) = received_by c st @ ws
      \<and> list_all2 (\<lambda>e w. parse_ws e = Inr w) (snd (hd (pl_push_queue st))) ws"
    by (auto simp: job)
qed

text \<open>What one step means to a client that stays: its user's next batch, or nothing.\<close>

lemma online_step:
  assumes "pipe_step N now op st st'" and "gw_inv (pe_jwt N) (pe_params N) (pl_gateway st)" and "online c u st"
    and "op \<noteq> ClientGone c" and "\<forall>e \<in> set (pushed_to u st'). \<not> unparsable e"
  shows "online c u st' \<and> (\<exists>es ws. pushed_to u st' = pushed_to u st @ es \<and> received_by c st' = received_by c st @ ws
    \<and> list_all2 (\<lambda>e w. parse_ws e = Inr w) es ws)"
proof -
  have nothing: "\<exists>es ws. pushed_to u st' = pushed_to u st @ es \<and> received_by c st' = received_by c st @ ws
      \<and> list_all2 (\<lambda>e w. parse_ws e = Inr w) es ws" if "pushed_to u st' = pushed_to u st" "received_by c st' = received_by c st"
    using that by (intro exI [of _ "[]"]) simp
  show ?thesis
    using assms(1)
  proof cases
    case (pipe_ingest iop i)
    then show ?thesis
      using assms(3) nothing by (simp add: hand_over_def online_def pushed_to_def received_by_def)
  next
    case (pipe_store k)
    then show ?thesis
      using assms(3) nothing by (simp add: online_def pushed_to_def received_by_def store_worker_def Let_def split_beta)
  next
    case pipe_push
    note p = online_push [OF assms(2,3) pipe_push(3)]
    have d: "pl_push_done st' = pl_push_done st @ [hd (pl_push_queue st)]" using pipe_push by (simp add: push_worker_def Let_def)
    show ?thesis
    proof (cases "fst (hd (pl_push_queue st)) = u")
      case True
      then have es: "pushed_to u st' = pushed_to u st @ snd (hd (pl_push_queue st))" by (simp add: pushed_to_def d)
      then have "\<forall>e \<in> set (snd (hd (pl_push_queue st))). \<not> unparsable e" using assms(5) by simp
      from p(1) p(3) [OF True this] es show ?thesis by (auto simp: pipe_push(2))
    next
      case False
      then have "pushed_to u st' = pushed_to u st" by (simp add: pushed_to_def d)
      moreover have "received_by c st' = received_by c st" using p(2) [OF False] by (simp add: pipe_push(2))
      ultimately show ?thesis using nothing p(1) by (simp add: pipe_push(2))
    qed
  next
    case pipe_ready
    then show ?thesis using assms(3) nothing by (simp add: online_def pushed_to_def received_by_def afterInit_def)
  next
    case (pipe_connects d hs)
    then have "d \<noteq> c" using assms(3) by (auto simp: online_def)
    moreover have "pushed_to u st' = pushed_to u st" "received_by c st' = received_by c st"
      using pipe_connects by (simp_all add: pushed_to_def received_sent sent_connect)
    ultimately show ?thesis
      using assms(3) nothing by (simp add: online_def pipe_connects(2)) (simp add: connect_def Let_def split: option.split)
  next
    case (pipe_verified d token)
    then have "gw_data (pl_gateway st) d = None" using assms(2) by (force simp: gw_inv_def)
    then have "d \<noteq> c" using assms(3) by (auto simp: online_def)
    moreover have "pushed_to u st' = pushed_to u st" "received_by c st' = received_by c st"
      using pipe_verified by (simp_all add: pushed_to_def received_sent sent_verified)
    ultimately show ?thesis
      using assms(3) nothing
      by (simp add: online_def pipe_verified(2)) (simp add: verified_def sendInitialData_def Let_def split: sum.split)
  next
    case (pipe_gone d)
    then have "d \<noteq> c" using assms(4) by simp
    moreover have "pushed_to u st' = pushed_to u st" "received_by c st' = received_by c st"
      using pipe_gone by (simp_all add: pushed_to_def received_sent)
    ultimately show ?thesis using assms(3) nothing by (simp add: online_def pipe_gone(2))
  next
    case (pipe_metrics v d)
    then have "pushed_to u st' = pushed_to u st" "received_by c st' = received_by c st"
      by (simp_all add: pushed_to_def received_sent sent_metrics)
    then show ?thesis using assms(3) nothing by (simp add: online_def pipe_metrics(2) broadcastMetrics_def)
  qed
qed

lemma pushed_grows: "pipe_step N now op st st' \<Longrightarrow> set (pushed_to u st) \<subseteq> set (pushed_to u st')"
  by (erule pipe_stepE)
    (auto simp: pushed_to_def hand_over_def store_worker_def push_worker_def Let_def split: prod.splits)

lemma online_runs:
  assumes "pipe_runs N ops st st'" and "api_key_collection (ie_keys (pe_ingest N)) kdocs"
    and "event_collection C (pe_events N) docs" and "pipe_inv (pe_jwt N) (pe_params N) C (pe_events N) ids kdocs docs e0 st"
    and "online c u st" and "ClientGone c \<notin> snd ` set ops" and "\<forall>e \<in> set (pushed_to u st'). \<not> unparsable e"
  shows "pipe_inv (pe_jwt N) (pe_params N) C (pe_events N) ids kdocs docs e0 st' \<and> online c u st'
    \<and> (\<exists>es ws. pushed_to u st' = pushed_to u st @ es \<and> received_by c st' = received_by c st @ ws
        \<and> list_all2 (\<lambda>e w. parse_ws e = Inr w) es ws)"
  using assms(1,4-)
proof (induction rule: pipe_runs.induct)
  case (pipe_nil st)
  then show ?case by (auto intro!: exI [of _ "[]"])
next
  case (pipe_snoc ops st st' now op st'')
  from pushed_grows [OF pipe_snoc.hyps(2), of u] pipe_snoc.prems(4) have "\<forall>e \<in> set (pushed_to u st'). \<not> unparsable e" by blast
  with pipe_snoc.IH pipe_snoc.prems obtain es ws where IH: "pipe_inv (pe_jwt N) (pe_params N) C (pe_events N) ids kdocs docs e0 st'"
    "online c u st'" "pushed_to u st' = pushed_to u st @ es" "received_by c st' = received_by c st @ ws"
    "list_all2 (\<lambda>e w. parse_ws e = Inr w) es ws" by auto
  have gw: "gw_inv (pe_jwt N) (pe_params N) (pl_gateway st')" using IH(1) by (simp add: pipe_inv_def)
  have "op \<noteq> ClientGone c" using pipe_snoc.prems(3) by auto
  from online_step [OF pipe_snoc.hyps(2) gw IH(2) this pipe_snoc.prems(4)] obtain es' ws' where
    "online c u st''" "pushed_to u st'' = pushed_to u st' @ es'" "received_by c st'' = received_by c st' @ ws'"
    "list_all2 (\<lambda>e w. parse_ws e = Inr w) es' ws'" by blast
  with IH(3-5) pipe_inv_step [OF pipe_snoc.hyps(2) assms(2,3) IH(1)] show ?case
    by (auto intro: list_all2_appendI)
qed

lemma pushed_prefix:
  assumes "sinks_agree (pl_ingest st)" and "queues_ok st"
  shows "prefix (pushed_to u st) (log_of u st)" and "push_idle st \<Longrightarrow> pushed_to u st = log_of u st"
proof -
  have "log_of u st = concat (wb_sent u (ig_ws (pl_ingest st))) @ wb_pending u (ig_ws (pl_ingest st))"
    using assms(1) by (simp add: log_of_def pipe_log_def sinks_agree_def)
  moreover have "concat (wb_sent u (ig_ws (pl_ingest st)))
      = pushed_to u st @ concat (map snd (filter (\<lambda>j. fst j = u) (pl_push_queue st)))"
    using assms(2) by (simp add: queues_ok_def wb_sent_def pushed_to_def flip: filter_append map_append concat_append)
  ultimately have l: "log_of u st = pushed_to u st @ concat (map snd (filter (\<lambda>j. fst j = u) (pl_push_queue st)))
      @ wb_pending u (ig_ws (pl_ingest st))" by simp
  then show "prefix (pushed_to u st) (log_of u st)" by simp
  show "push_idle st \<Longrightarrow> pushed_to u st = log_of u st" using l by (simp add: push_idle_def)
qed

section \<open>A concrete run\<close>

text \<open>
  A client of \<open>u1\<close> connects; then a stream of \<open>u1\<close> is opened and sends one event, which is stored and pushed.
\<close>

definition demo_pipe :: "(keyspace, key_db, event_doc list) pipe_env" where
  "demo_pipe = \<lparr>pe_ingest = demo_ingest_env, pe_events = mem_events mem_casts, pe_jwt = mem_jwt, pe_params = demo_P\<rparr>"

definition demo_p0 where "demo_p0 = (pipe_start demo_usage [] :: (keyspace, key_db, event_doc list) pipeline)"
definition demo_p1 where "demo_p1 = demo_p0\<lparr>pl_gateway := connect ''s1'' (demo_hs ''u1'') (pl_gateway demo_p0)\<rparr>"
definition demo_p2 where
  "demo_p2 = demo_p1\<lparr>pl_gateway := verified mem_jwt demo_P 5000 ''s1'' (enc_token 100 (demo_claims ''u1'')) (pl_gateway demo_p1)\<rparr>"
definition demo_p3 where "demo_p3 = hand_over demo_opened demo_p2"
definition demo_p4 where "demo_p4 = hand_over demo_sent demo_p3"
definition demo_p5 where "demo_p5 = hand_over (demo_sent\<lparr>ig_batcher := flushBatch (ig_batcher demo_sent)\<rparr>) demo_p4"
definition demo_p6 where "demo_p6 = store_worker demo_pipe 0 demo_p5"
definition demo_p7 where "demo_p7 = hand_over ((pl_ingest demo_p6)\<lparr>ig_ws := flushAllBatches (ig_ws (pl_ingest demo_p6))\<rparr>) demo_p6"
definition demo_p8 where "demo_p8 = push_worker demo_p7"

lemma demo_pipe_sel: "pe_ingest demo_pipe = demo_ingest_env" "pe_events demo_pipe = mem_events mem_casts"
    "pe_jwt demo_pipe = mem_jwt" "pe_params demo_pipe = demo_P"
  by (simp_all add: demo_pipe_def)

lemma demo_sent_sel:
  "ig_batcher demo_sent = \<lparr>eb_buffer = [((''u1'', demo_event ''a'' ''{}''), 2)], eb_jobs = []\<rparr>"
  "ig_ws demo_sent = \<lparr>wb_bufferMap = [(''u1'', [demo_event ''a'' ''{}''])], wb_jobs = []\<rparr>"
  "ig_metrics demo_sent = [(''u1'', demo_event ''a'' ''{}'')]"
  by (simp_all add: demo_sent_def on_next_def demo_opened_eq md_set_def API_KEY_ID_def OWNER_ID_def ingest_start_def
      addStreamEvent_def addEvent_def eb_init_def wb_init_def eb_batch_def wb_batchSize_def Let_def)

lemma demo_connected:
  "gw_pending (pl_gateway demo_p1) = [(''s1'', enc_token 100 (demo_claims ''u1''))]"
  "pl_gateway demo_p2 = gw_start\<lparr>gw_open := [''s1''], gw_data := [''s1'' \<mapsto> demo_claims ''u1''], gw_connectedClients := [''s1''],
     gw_rooms := [(user_room ''u1'', ''s1'')], gw_sent := [(''s1'', InitialData ''u1'' (toISOString 5000))]\<rparr>"
  by (simp_all add: demo_p2_def demo_p1_def demo_p0_def pipe_start_def connect_def ws_extractToken_def demo_hs_def
      enc_token_nonempty gw_start_def verified_def demo_verify sendInitialData_def join_def emit_def demo_claims_def Let_def)

lemma demo_p2_sel: "pl_ingest demo_p2 = ingest_start demo_usage" "pl_store_queue demo_p2 = []" "pl_push_queue demo_p2 = []"
    "pl_push_done demo_p2 = []" "pl_events demo_p2 = []"
  by (simp_all add: demo_p2_def demo_p1_def demo_p0_def pipe_start_def)

lemma demo_p4_sel: "pl_ingest demo_p4 = demo_sent" "pl_store_queue demo_p4 = []" "pl_push_queue demo_p4 = []"
    "pl_push_done demo_p4 = []" "pl_gateway demo_p4 = pl_gateway demo_p2" "pl_ingest demo_p3 = demo_opened"
  by (simp_all add: demo_p4_def demo_p3_def hand_over_def demo_p2_sel)
    (simp_all add: demo_sent_sel demo_opened_eq ingest_start_def eb_init_def wb_init_def)

lemma demo_p6_sel: "pl_ingest demo_p6 = demo_sent\<lparr>ig_batcher := flushBatch (ig_batcher demo_sent)\<rparr>" "pl_store_queue demo_p6 = []"
    "pl_push_queue demo_p6 = []" "pl_push_done demo_p6 = []" "pl_gateway demo_p6 = pl_gateway demo_p2"
    "pl_store_queue demo_p5 = [[((''u1'', demo_event ''a'' ''{}''), 2)]]" "pl_ingest demo_p5 = pl_ingest demo_p6"
  by (simp_all add: demo_p6_def store_worker_sel demo_p5_def hand_over_def demo_p4_sel)
    (simp_all add: demo_sent_sel flushBatch_def)

lemma demo_p8_sel: "pl_push_queue demo_p7 = [(''u1'', [demo_event ''a'' ''{}''])]" "pl_push_queue demo_p8 = []"
    "pl_push_done demo_p8 = [(''u1'', [demo_event ''a'' ''{}''])]"
    "pl_ingest demo_p8 = (pl_ingest demo_p6)\<lparr>ig_ws := flushAllBatches (ig_ws (pl_ingest demo_p6))\<rparr>"
  by (simp_all add: demo_p8_def push_worker_def demo_p7_def hand_over_def demo_p6_sel Let_def)
    (simp_all add: demo_sent_sel flushAllBatches_def flushUserBatch_def)

lemma demo_logs: "pipe_log demo_p6 = [(''u1'', demo_event ''a'' ''{}'')]" "pipe_log demo_p8 = [(''u1'', demo_event ''a'' ''{}'')]"
    "pipe_log demo_p4 = [(''u1'', demo_event ''a'' ''{}'')]" "\<not> unparsable (demo_event n ''{}'')"
  by (simp_all add: pipe_log_def demo_p6_sel demo_p8_sel demo_p4_sel)
    (simp_all add: demo_sent_sel unparsable_def demo_event_def demo_payloads)

lemma demo_pipe_runs:
  "pipe_runs demo_pipe [(0, ClientConnects ''s1'' (demo_hs ''u1'')),
     (5000, ClientVerified ''s1'' (enc_token 100 (demo_claims ''u1'')))] (pipe_start demo_usage []) demo_p2"
proof -
  have s1: "pipe_step demo_pipe 0 (ClientConnects ''s1'' (demo_hs ''u1'')) demo_p0 demo_p1"
    unfolding demo_p1_def by (rule pipe_connects) (simp_all add: demo_p0_def pipe_start_def gw_start_def)
  have "pipe_step demo_pipe 5000 (ClientVerified ''s1'' (enc_token 100 (demo_claims ''u1''))) demo_p1 demo_p2"
    unfolding demo_p2_def using pipe_verified [of "''s1''" "enc_token 100 (demo_claims ''u1'')" demo_p1 demo_pipe 5000]
    by (simp add: demo_connected demo_pipe_sel)
  with pipe_snoc [OF pipe_snoc [OF pipe_nil s1]] show ?thesis by (fastforce simp: demo_p0_def)
qed

lemma demo_ingest_steps:
  "ingest_step demo_ingest_env 1 (OpenStream demo_md) (ingest_start demo_usage) demo_opened"
  "ingest_step demo_ingest_env 2 (Next 0 (demo_event ''a'' ''{}'')) demo_opened demo_sent"
  unfolding demo_opened_def demo_sent_def
  by (rule open_step, rule next_step)
    (simp_all add: open_stream_def demo_ingest_env_def ingest_start_def demo_intercept)

lemma demo_rest:
  "pipe_runs demo_pipe [(1, PipeIngest (OpenStream demo_md)), (2, PipeIngest (Next 0 (demo_event ''a'' ''{}''))),
     (3, PipeIngest FlushTick), (4, StoreJob 0)] demo_p2 demo_p6" (is ?store)
  "pipe_runs demo_pipe [(1, PipeIngest (OpenStream demo_md)), (2, PipeIngest (Next 0 (demo_event ''a'' ''{}''))),
     (3, PipeIngest FlushTick), (4, StoreJob 0), (5, PipeIngest WebSocketTick), (6, PushJob)] demo_p2 demo_p8" (is ?push)
  "pipe_runs demo_pipe [(1, PipeIngest (OpenStream demo_md)), (2, PipeIngest (Next 0 (demo_event ''a'' ''{}'')))] demo_p2 demo_p4"
    (is ?log)
proof -
  have a: "pipe_step demo_pipe 1 (PipeIngest (OpenStream demo_md)) demo_p2 demo_p3"
    unfolding demo_p3_def by (rule pipe_ingest) (simp add: demo_pipe_sel demo_p2_sel demo_ingest_steps)
  have b: "pipe_step demo_pipe 2 (PipeIngest (Next 0 (demo_event ''a'' ''{}''))) demo_p3 demo_p4"
    unfolding demo_p4_def by (rule pipe_ingest) (simp add: demo_pipe_sel demo_p4_sel demo_ingest_steps)
  have c: "pipe_step demo_pipe 3 (PipeIngest FlushTick) demo_p4 demo_p5"
    unfolding demo_p5_def using flush_step [of demo_ingest_env 3 demo_sent]
    by (intro pipe_ingest) (simp add: demo_pipe_sel demo_p4_sel)
  have d: "pipe_step demo_pipe 4 (StoreJob 0) demo_p5 demo_p6"
    unfolding demo_p6_def by (rule pipe_store) (simp_all add: demo_p6_sel store_concurrency_def)
  have e: "pipe_step demo_pipe 5 (PipeIngest WebSocketTick) demo_p6 demo_p7"
    unfolding demo_p7_def using ws_step [of demo_ingest_env 5 "pl_ingest demo_p6"]
    by (intro pipe_ingest) (simp add: demo_pipe_sel)
  have f: "pipe_step demo_pipe 6 PushJob demo_p7 demo_p8"
    unfolding demo_p8_def by (rule pipe_push) (simp add: demo_p8_sel)
  show ?log using pipe_snoc [OF pipe_snoc [OF pipe_nil a] b] by simp
  show ?store using pipe_snoc [OF pipe_snoc [OF pipe_snoc [OF pipe_snoc [OF pipe_nil a] b] c] d] by simp
  show ?push using pipe_snoc [OF pipe_snoc [OF pipe_snoc [OF pipe_snoc [OF pipe_snoc [OF pipe_snoc [OF pipe_nil a] b] c] d] e] f] by simp
qed

lemma pipe_runs_append: "pipe_runs N ops' st1 st2 \<Longrightarrow> pipe_runs N ops st st1 \<Longrightarrow> pipe_runs N (ops @ ops') st st2"
proof (induction rule: pipe_runs.induct)
  case (pipe_snoc ops' st1 st' now op st'')
  from pipe_runs.pipe_snoc [OF pipe_snoc.IH [OF pipe_snoc.prems] pipe_snoc.hyps(2)] show ?case by simp
qed simp

section \<open>Properties\<close>

text \<open>
  C3: What is stored is what was logged. In every reachable state of the pipeline, with up to ten batches in work and in any
  interleaving of streams, workers and connections, the documents added to the collection are some of those sent to the
  database, in the order sent, and those sent are, as a multiset, among the documents of the logged (acknowledged)
  events: each is owned by the owner of its stream's key and none is sent or stored twice. When nothing is on its way any
  more and every payload was JSON, exactly the documents of the logged events that pass the schema have been sent. They
  have all been stored if the server was up and accepts them; the insertions are not acknowledged, so that nothing else says so.
\<close>

theorem stored_events_are_logged_events:
  assumes "api_key_collection (ie_keys (pe_ingest N)) kdocs" and "event_collection C (pe_events N) docs"
    and "pipe_runs N ops (pipe_start u e0) st"
  shows "\<exists>new. docs (pl_events st) = docs e0 @ new \<and> subseq (map event_content.truncate new) (pipe_sent C st)
    \<and> mset (pipe_sent C st) \<subseteq># mset (List.map_filter (document_of C) (pipe_log st))
    \<and> (store_idle st \<and> (\<forall>x \<in> set (pipe_log st). \<not> unparsable (snd x)) \<longrightarrow>
        mset (pipe_sent C st) = mset (List.map_filter (document_of C) (pipe_log st)))
    \<and> (\<forall>accepted. stores_accepted C (pe_events N) docs accepted \<and> list_all accepted (pipe_sent C st) \<longrightarrow>
        map event_content.truncate new = pipe_sent C st)"
  using log_stored [OF pipe_runs_inv [OF assms(3,1,2)]] by blast

lemma demo_providers:
  "api_key_collection (ie_keys (pe_ingest demo_pipe)) key_docs" "event_collection mem_casts (pe_events demo_pipe) (\<lambda>d. d)"
  "stores_accepted mem_casts (pe_events demo_pipe) (\<lambda>d. d) (\<lambda>_. True)"
  by (simp_all add: demo_pipe_sel demo_keys meme.event_collection_axioms mem_stores)

theorem stored_events_are_logged_events_witness:
  "mset (map event_content.truncate (pl_events demo_p6))
    = mset (List.map_filter (document_of mem_casts) [(''u1'', demo_event ''a'' ''{}'')])"
proof -
  from stored_events_are_logged_events [OF demo_providers(1,2) pipe_runs_append [OF demo_rest(1) demo_pipe_runs]]
  obtain new where new: "pl_events demo_p6 = [] @ new"
    "store_idle demo_p6 \<and> (\<forall>x \<in> set (pipe_log demo_p6). \<not> unparsable (snd x)) \<longrightarrow>
      mset (pipe_sent mem_casts demo_p6) = mset (List.map_filter (document_of mem_casts) (pipe_log demo_p6))"
    "\<forall>accepted. stores_accepted mem_casts (pe_events demo_pipe) (\<lambda>d. d) accepted
        \<and> list_all accepted (pipe_sent mem_casts demo_p6) \<longrightarrow> map event_content.truncate new = pipe_sent mem_casts demo_p6"
    by blast
  have "map event_content.truncate new = pipe_sent mem_casts demo_p6"
    using new(3) conjI [OF demo_providers(3) list_all_trivial] by blast
  moreover have "store_idle demo_p6" by (simp add: store_idle_def demo_p6_sel flushBatch_sel)
  ultimately show ?thesis using new(1,2) by (simp add: demo_logs)
qed

text \<open>
  C4: Every acknowledged event can still be sent and stored. From any reachable state of the pipeline, ticks of the batchers
  and work on the queues, without any further event, lead to a state with the same log in which nothing waits. If the
  payloads of the log are JSON, exactly the documents of the logged events that pass the schema have then been sent to
  the database, each once, whatever the database does with them. If the server is up and accepts each of them, the
  collection holds exactly these documents beside what it held at the start.
\<close>

theorem acknowledged_events_reach_the_database:
  assumes "api_key_collection (ie_keys (pe_ingest N)) kdocs" and "event_collection C (pe_events N) docs"
    and "pipe_runs N ops (pipe_start u e0) st" and "\<forall>x \<in> set (pipe_log st). \<not> unparsable (snd x)"
  shows "\<exists>ops' st' new. pipe_runs N (ops @ ops') (pipe_start u e0) st'
    \<and> snd ` set ops' \<subseteq> {PipeIngest FlushTick, PipeIngest WebSocketTick, StoreJob 0, PushJob}
    \<and> pipe_log st' = pipe_log st \<and> push_idle st' \<and> docs (pl_events st') = docs e0 @ new
    \<and> mset (pipe_sent C st') = mset (List.map_filter (document_of C) (pipe_log st))
    \<and> (\<forall>accepted. stores_accepted C (pe_events N) docs accepted
          \<and> list_all accepted (List.map_filter (document_of C) (pipe_log st)) \<longrightarrow>
        mset (map event_content.truncate new) = mset (List.map_filter (document_of C) (pipe_log st)))"
proof -
  from drain [OF assms(3)] obtain ops' st' where d: "pipe_runs N (ops @ ops') (pipe_start u e0) st'"
    "snd ` set ops' \<subseteq> drain_ops" "store_idle st'" "push_idle st'" "pipe_log st' = pipe_log st" by blast
  note stored = log_stored [OF pipe_runs_inv [OF d(1) assms(1,2)]]
  have sent: "mset (pipe_sent C st') = mset (List.map_filter (document_of C) (pipe_log st))"
    using stored(3) d(3,5) assms(4) by simp
  obtain new where new: "docs (pl_events st') = docs e0 @ new"
    "\<And>accepted. stores_accepted C (pe_events N) docs accepted \<Longrightarrow> list_all accepted (pipe_sent C st') \<Longrightarrow>
      map event_content.truncate new = pipe_sent C st'" using stored(1) by blast
  have "mset (map event_content.truncate new) = mset (List.map_filter (document_of C) (pipe_log st))"
    if a: "stores_accepted C (pe_events N) docs accepted" "list_all accepted (List.map_filter (document_of C) (pipe_log st))" for accepted
    using new(2) [OF a(1)] a(2) sent by (simp add: list_all_mset_eq [OF sent])
  with d new(1) sent show ?thesis by blast
qed

theorem acknowledged_events_reach_the_database_witness:
  "\<exists>st' :: (keyspace, key_db, event_doc list) pipeline. pipe_log st' = [(''u1'', demo_event ''a'' ''{}'')] \<and>
     mset (map event_content.truncate (pl_events st')) = mset (List.map_filter (document_of mem_casts) (pipe_log st'))"
proof -
  have p: "\<forall>x \<in> set (pipe_log demo_p4). \<not> unparsable (snd x)" by (simp add: demo_logs)
  from acknowledged_events_reach_the_database [OF demo_providers(1,2) pipe_runs_append [OF demo_rest(3) demo_pipe_runs] p]
  obtain st' :: "(keyspace, key_db, event_doc list) pipeline" and new
    where st': "pipe_log st' = pipe_log demo_p4" "pl_events st' = [] @ new"
    "\<forall>accepted. stores_accepted mem_casts (pe_events demo_pipe) (\<lambda>d. d) accepted
        \<and> list_all accepted (List.map_filter (document_of mem_casts) (pipe_log demo_p4)) \<longrightarrow>
      mset (map event_content.truncate new) = mset (List.map_filter (document_of mem_casts) (pipe_log demo_p4))"
    by blast
  have "mset (map event_content.truncate new) = mset (List.map_filter (document_of mem_casts) (pipe_log demo_p4))"
    using st'(3) conjI [OF demo_providers(3) list_all_trivial] by blast
  then have "mset (map event_content.truncate (pl_events st')) = mset (List.map_filter (document_of mem_casts) (pipe_log st'))"
    unfolding st'(1,2) append_Nil .
  with st'(1) show ?thesis unfolding demo_logs(3) by blast
qed

text \<open>
  C14: A client that stays connected misses nothing. Take a reachable state with an open connection verified for user
  \<open>u\<close>, and any further run in which it does not disconnect. The events it is sent in that run are, parsed and in order,
  each once, the events of \<open>u\<close> that were pushed in it; what has been pushed is a prefix of the log of \<open>u\<close>, and all of
  it when nothing waits any more. (The payloads pushed are assumed to be JSON: a batch with another one is lost.)
\<close>

theorem connected_client_gets_the_log:
  assumes "api_key_collection (ie_keys (pe_ingest N)) kdocs" and "event_collection C (pe_events N) docs"
    and "pipe_runs N ops (pipe_start w e0) st" and "c \<in> set (gw_open (pl_gateway st))"
    and "gw_data (pl_gateway st) c = Some cl" and "u = c_sub cl"
    and "pipe_runs N ops' st st'" and "ClientGone c \<notin> snd ` set ops'"
    and "\<forall>e \<in> set (pushed_to u st'). \<not> unparsable e"
  shows "(\<exists>es ws. pushed_to u st' = pushed_to u st @ es \<and> received_by c st' = received_by c st @ ws
        \<and> list_all2 (\<lambda>e w. parse_ws e = Inr w) es ws)
    \<and> prefix (pushed_to u st') (log_of u st') \<and> (push_idle st' \<longrightarrow> pushed_to u st' = log_of u st')"
proof -
  have "online c u st" using assms(4-6) by (simp add: online_def)
  note r = online_runs [OF assms(7,1,2) pipe_runs_inv [OF assms(3,1,2)] this assms(8,9)]
  then have "sinks_agree (pl_ingest st')" "queues_ok st'" by (simp_all add: pipe_inv_def ingest_inv_def)
  with r pushed_prefix show ?thesis by blast
qed

theorem connected_client_gets_the_log_witness:
  "\<exists>w. list_all2 (\<lambda>e w. parse_ws e = Inr w) [demo_event ''a'' ''{}''] w \<and> received_by ''s1'' demo_p8 = w"
proof -
  have online: "''s1'' \<in> set (gw_open (pl_gateway demo_p2))" "gw_data (pl_gateway demo_p2) ''s1'' = Some (demo_claims ''u1'')"
    "''u1'' = c_sub (demo_claims ''u1'')" "received_by ''s1'' demo_p2 = []" "pushed_to ''u1'' demo_p2 = []"
    by (simp_all add: demo_connected demo_claims_def received_by_def pushed_to_def demo_p2_sel)
  have pushed: "pushed_to ''u1'' demo_p8 = [demo_event ''a'' ''{}'']"
    by (simp add: pushed_to_def demo_p8_sel)
  then have p: "\<forall>e \<in> set (pushed_to ''u1'' demo_p8). \<not> unparsable e" by (simp add: demo_logs)
  have k: "api_key_collection (ie_keys (pe_ingest demo_pipe)) key_docs" "event_collection mem_casts (pe_events demo_pipe) (\<lambda>d. d)"
    by (simp_all add: demo_pipe_sel demo_keys meme.event_collection_axioms)
  from connected_client_gets_the_log [OF k demo_pipe_runs online(1-3) demo_rest(2) _ p] show ?thesis
    by (simp add: online(4,5) pushed)
qed

end
