(* ===== verification/Debug.thy ===== *)
theory Debug
  imports JobsProps JsonText
begin

text \<open>
  The debug endpoints of src/src/metrics/metrics-debug.controller.ts (the first, \<open>testMetricsAggregation\<close>, is in \<^verbatim>\<open>Dashboard\<close>): an event
  made up from the caller's body and processed in the name of the user in the path. The body's event name is taken to be a text.
\<close>

section \<open>The simulated event\<close>

record simulate_body =
  sb_eventName :: "string option"
  sb_payload :: "json option"

definition default_payload :: "string \<Rightarrow> (string \<times> json) list" where
  "default_payload userId =
     [(''userId'', JStr userId), (''sessionId'', JStr ''test-session-123''), (''country'', JStr ''United States''),
      (''device'', JStr ''web''), (''referrer'', JStr ''google.com''), (''ip'', JStr ''192.168.1.1'')]"

definition caller_fields :: "simulate_body option \<Rightarrow> (string \<times> json) list" where
  "caller_fields eventData =
     (case eventData of None \<Rightarrow> []
      | Some b \<Rightarrow> (case sb_payload b of None \<Rightarrow> [] | Some p \<Rightarrow> spread p))"

definition mock_payload :: "string \<Rightarrow> simulate_body option \<Rightarrow> json" where
  "mock_payload userId eventData =
     JObj (fold (\<lambda>(k, v). obj_put k v) (caller_fields eventData) (default_payload userId))"

definition mock_event :: "int \<Rightarrow> string \<Rightarrow> simulate_body option \<Rightarrow> event_request" where
  "mock_event now userId eventData =
     \<lparr>er_eventName =
        (case eventData of None \<Rightarrow> ''test_event''
         | Some b \<Rightarrow> (case sb_eventName b of None \<Rightarrow> ''test_event'' | Some n \<Rightarrow> if n = [] then ''test_event'' else n)),
      er_payload = json_text (mock_payload userId eventData), er_timestamp = toISOString now, er_tags = [''test''],
      er_category = Some ''test'', er_severity = Some ''1''\<rparr>"

record simulated =
  sm_message :: string
  sm_event :: event_request

text \<open>The service's \<^verbatim>\<open>processEvent\<close> is called directly, not through the queue.\<close>

definition simulateEvent ::
  "'s metrics_env \<Rightarrow> int \<Rightarrow> nat \<Rightarrow> string \<Rightarrow> string \<Rightarrow> simulate_body option
     \<Rightarrow> 's metrics_state \<times> push gateway \<Rightarrow> simulated result \<times> 's metrics_state \<times> push gateway" where
  "simulateEvent M now pick rnd userId eventData st =
     (let mockEvent = mock_event now userId eventData; (ms, g) = st in
      case processEvent M now pick rnd userId mockEvent ms of
        (Inl error, ms') \<Rightarrow> (Inl error, ms', g)
      | (Inr b, ms') \<Rightarrow>
          (Inr \<lparr>sm_message = ''Event simulated successfully'', sm_event = mockEvent\<rparr>, ms',
           (case b of None \<Rightarrow> g | Some (room, d) \<Rightarrow> broadcastMetrics room (PushMetrics d) g)))"

section \<open>What the endpoint does\<close>

text \<open>A body that came as JSON.\<close>

definition body_ok :: "simulate_body option \<Rightarrow> bool" where
  "body_ok eventData =
     (case eventData of None \<Rightarrow> True
      | Some b \<Rightarrow> (case sb_payload b of None \<Rightarrow> True | Some p \<Rightarrow> wf_json p))"

lemma body_ok_parsed: "json_parse text = Inr p \<Longrightarrow> body_ok (Some \<lparr>sb_eventName = n, sb_payload = Some p\<rparr>)"
  by (simp add: body_ok_def json_parse_wf)

lemma fold_obj_put_map: "distinct (map fst new) \<Longrightarrow> map_of (fold (\<lambda>(k, v). obj_put k v) new old) = map_of old ++ map_of new"
proof (induction new arbitrary: old)
  case (Cons x new)
  obtain k v where x: "x = (k, v)" by (cases x)
  have "k \<notin> dom (map_of new)" using Cons.prems by (auto simp: x dom_map_of_conv_image_fst)
  then show ?case using Cons by (auto simp: x map_of_obj_put map_add_def fun_eq_iff dom_def split: option.split)
qed simp

lemma fold_obj_put_wf:
  "list_all (wf_json \<circ> snd) new \<Longrightarrow> wf_json (JObj old) \<Longrightarrow> wf_json (JObj (fold (\<lambda>(k, v). obj_put k v) new old))"
  by (induction new arbitrary: old) (auto simp del: wf_json.simps(3) simp: wf_obj_put)

lemma default_payload_wf: "wf_json (JObj (default_payload userId))"
proof -
  have "own_order (map fst (default_payload userId))"
    by (simp add: default_payload_def own_order_def entry_before_def index_key_def parseInt10_def split_sign_def
        parse_digits_def is_digit_def digit_val_def is_space_def)
  then show ?thesis by (simp add: default_payload_def)
qed

lemma caller_fields_ok: "body_ok d \<Longrightarrow> distinct (map fst (caller_fields d)) \<and> list_all (wf_json \<circ> snd) (caller_fields d)"
  by (auto simp: body_ok_def caller_fields_def distinct_spread wf_spread split: option.splits)

lemma mock_payload_reads:
  "body_ok d \<Longrightarrow> \<exists>fields. mock_payload userId d = JObj fields \<and> json_parse (json_text (JObj fields)) = Inr (JObj fields)
      \<and> map_of fields = map_of (default_payload userId) ++ map_of (caller_fields d)"
  using caller_fields_ok [of d]
  by (auto simp del: wf_json.simps(3) json_text.simps simp: mock_payload_def fold_obj_put_map
      intro!: json_round_trip fold_obj_put_wf default_payload_wf)

lemma mock_event_shown:
  assumes "- 62135596800000 \<le> now" and "now < 253402300800000" and "body_ok d"
  shows "shown M \<lparr>jb_now = now, jb_pick = pick, jb_rnd = rnd, jb_event = mock_event now userId d\<rparr>"
  using mock_payload_reads [OF assms(3), of userId] date_of_toISOString [OF assms(1,2), of "me_legacy M"]
  by (auto simp: shown_def valid_job_def mock_event_def parse_payload_def)

text \<open>
  C23: Whoever calls it, for whatever user and body, the endpoint answers with success, records the event as the worker of the
  queue would, and sends the dashboard to that user's room; the payload it records is the default one with the caller's
  fields over it, so that a caller may also claim another \<^verbatim>\<open>userId\<close> in it.
\<close>

theorem simulated_event_is_processed:
  assumes "- 62135596800000 \<le> now" and "now < 253402300800000" and "body_ok d" and "userId \<noteq> []"
    and "j = \<lparr>jb_now = now, jb_pick = pick, jb_rnd = rnd, jb_event = mock_event now userId d\<rparr>"
  shows "simulateEvent M now pick rnd userId d (ms, g) =
      (Inr \<lparr>sm_message = ''Event simulated successfully'', sm_event = mock_event now userId d\<rparr>, run_job M j ms,
       broadcastMetrics userId (PushMetrics (generateDashboardMetrics M now (run_job M j ms))) g)
    \<and> (\<exists>fields. json_parse (er_payload (mock_event now userId d)) = Inr (JObj fields)
        \<and> map_of fields = map_of (default_payload userId) ++ map_of (caller_fields d))"
proof -
  have "record_event M now pick rnd (mock_event now userId d) ms = (Inr True, run_job M j ms)"
    using record_event_shown [OF mock_event_shown [OF assms(1-3), of M pick rnd userId], of ms]
    by (simp add: run_job_def assms(5) prod_eq_iff)
  moreover obtain fields where "mock_payload userId d = JObj fields" "json_parse (json_text (JObj fields)) = Inr (JObj fields)"
      "map_of fields = map_of (default_payload userId) ++ map_of (caller_fields d)"
    using mock_payload_reads [OF assms(3), of userId] by blast
  ultimately show ?thesis
    using assms(4) by (simp add: simulateEvent_def processEvent_def calculateAndBroadcastDashboardMetrics_def Let_def mock_event_def)
qed

theorem simulated_event_is_processed_witness:
  "\<exists>fields. json_parse (er_payload (mock_event 5000 ''u1'' (Some \<lparr>sb_eventName = None,
        sb_payload = Some (JObj [(''device'', JStr ''tv''), (''userId'', JStr ''u2'')])\<rparr>))) = Inr (JObj fields)
    \<and> map_of fields ''userId'' = Some (JStr ''u2'') \<and> map_of fields ''device'' = Some (JStr ''tv'')
    \<and> map_of fields ''country'' = Some (JStr ''United States'')"
proof -
  let ?d = "Some \<lparr>sb_eventName = None, sb_payload = Some (JObj [(''device'', JStr ''tv''), (''userId'', JStr ''u2'')])\<rparr>"
  have ok: "body_ok ?d"
    by (simp add: body_ok_def own_order_def entry_before_def index_key_def parseInt10_def split_sign_def
        parse_digits_def is_digit_def digit_val_def is_space_def)
  obtain fields where "json_parse (er_payload (mock_event 5000 ''u1'' ?d)) = Inr (JObj fields)"
      "map_of fields = map_of (default_payload ''u1'') ++ map_of (caller_fields ?d)"
    using simulated_event_is_processed [of 5000 ?d "''u1''" _ 0 "''r''" demo_menv demo_mstate gw_start, OF _ _ ok _ refl] by auto
  then show ?thesis by (intro exI [of _ fields]) (simp add: default_payload_def caller_fields_def spread_def)
qed

end
