(* ===== verification/Bootstrap.thy ===== *)
theory Bootstrap
  imports Accounts ErrorsProps
begin

text \<open>
  The start of the server, src/src/main.ts: what it configures, what happens when a part of the start fails, and what its
  cross-origin policy means for the refresh-token cookie. The framework, the \<^verbatim>\<open>cors\<close> middleware and the browser are
  parameters: how each of their calls ends is an argument of the start.
\<close>

section \<open>What is configured\<close>

record grpc_options =
  go_package :: string
  go_protoPath :: string
  go_url :: string
  go_max_send_message_length :: int
  go_max_receive_message_length :: int
  go_keepCase :: bool
  go_longs :: string
  go_enums :: string
  go_defaults :: bool
  go_oneofs :: bool
  go_json :: bool

definition grpcOptions :: "string \<Rightarrow> grpc_options" where
  "grpcOptions cwd =
     \<lparr>go_package = ''events'', go_protoPath = cwd @ ''/src/proto/events.proto'', go_url = ''0.0.0.0:4000'',
      go_max_send_message_length = 2 * 1024 * 1024 * 1024, go_max_receive_message_length = 2 * 1024 * 1024 * 1024,
      go_keepCase = True, go_longs = ''String'', go_enums = ''String'', go_defaults = True, go_oneofs = True, go_json = True\<rparr>"

text \<open>\<^verbatim>\<open>origin: true\<close> reflects the origin of the request.\<close>

datatype cors_origin = AnyOrigin | ReflectOrigin | OnlyOrigin string

record cors_options =
  cr_origin :: cors_origin
  cr_credentials :: bool
  cr_methods :: "string list"
  cr_allowedHeaders :: "string list"

definition corsOptions :: cors_options where
  "corsOptions =
     \<lparr>cr_origin = ReflectOrigin, cr_credentials = True,
      cr_methods = [''GET'', ''POST'', ''PUT'', ''DELETE'', ''PATCH'', ''OPTIONS''],
      cr_allowedHeaders = [''Content-Type'', ''Authorization'', ''Cookie'']\<rparr>"

record validation_options =
  vo_whitelist :: bool
  vo_enableImplicitConversion :: bool

definition validationOptions :: validation_options where
  "validationOptions = \<lparr>vo_whitelist = True, vo_enableImplicitConversion = True\<rparr>"

record swagger =
  sw_title :: string
  sw_description :: string
  sw_version :: string
  sw_bearerAuth :: bool

definition swaggerConfig :: swagger where
  "swaggerConfig = \<lparr>sw_title = ''Eventify API'', sw_description = ''Event management platform API'',
     sw_version = ''1.0'', sw_bearerAuth = True\<rparr>"

datatype setup_step =
    ExceptionHandlers
  | GlobalFilter
  | GlobalInterceptor
  | Microservice grpc_options
  | EnableCors cors_options
  | CookieParser
  | Validation validation_options
  | GlobalPrefix string

record application =
  ap_setup :: "setup_step list"
  ap_docs :: "(string \<times> swagger) option"
  ap_grpc :: bool
  ap_port :: "string option"
  ap_log :: "string list"

definition configured :: "string \<Rightarrow> application" where
  "configured cwd =
     \<lparr>ap_setup = [ExceptionHandlers, GlobalFilter, GlobalInterceptor, Microservice (grpcOptions cwd), EnableCors corsOptions,
        CookieParser, Validation validationOptions, GlobalPrefix ''api/v1''],
      ap_docs = None, ap_grpc = False, ap_port = None, ap_log = []\<rparr>"

section \<open>Bootstrap\<close>

text \<open>
  How the calls of the start end. The calls that are awaited may also never settle: \<^verbatim>\<open>listen\<close> first runs the
  \<^verbatim>\<open>onModuleInit\<close> hooks, and that of \<^verbatim>\<open>ApiKeyUsageService\<close> awaits an answer of Redis, for which the client waits without a limit
  (\<^verbatim>\<open>maxRetriesPerRequest: null\<close>).
\<close>

record boot_outcomes =
  bo_create :: "unit result option"
  bo_configure :: "unit result"
  bo_createDocument :: "unit result"
  bo_writeFile :: "unit result"
  bo_setupDocs :: "unit result"
  bo_startAllMicroservices :: "unit result option"
  bo_listen :: "unit result option"

text \<open>
  How \<^verbatim>\<open>bootstrap\<close> ends: it returns, waits for ever, or rejects; or the framework ends the process, which is what it does with
  an error of \<^verbatim>\<open>NestFactory.create\<close> or one that a method of the application throws (its option \<^verbatim>\<open>abortOnError\<close> is left on).
\<close>

datatype boot_end =
    Booted
  | Waits
  | Rejects exn
  | Exits int

text \<open>\<^verbatim>\<open>process.env.PORT ?? 3000\<close>: an empty variable counts. The log lines are without their emoji.\<close>

definition listen_port :: "environment \<Rightarrow> string" where
  "listen_port env = (case env ''PORT'' of None \<Rightarrow> ''3000'' | Some p \<Rightarrow> p)"

definition start_listening :: "environment \<Rightarrow> boot_outcomes \<Rightarrow> application \<Rightarrow> boot_end \<times> application" where
  "start_listening env out app =
     (case bo_listen out of
        None \<Rightarrow> (Waits, app)
      | Some (Inl error) \<Rightarrow> (Rejects error, app)
      | Some (Inr _) \<Rightarrow> (Booted, app\<lparr>ap_port := Some (listen_port env)\<rparr>))"

definition start_services :: "environment \<Rightarrow> boot_outcomes \<Rightarrow> application \<Rightarrow> boot_end \<times> application" where
  "start_services env out app =
     (case bo_startAllMicroservices out of
        None \<Rightarrow> (Waits, app)
      | Some (Inr _) \<Rightarrow>
          start_listening env out (app\<lparr>ap_grpc := True, ap_log := ap_log app @ [''gRPC microservice started successfully'']\<rparr>)
      | Some (Inl error) \<Rightarrow>
          start_listening env out (app\<lparr>ap_log := ap_log app @ [''Failed to start gRPC microservice: '' @ exn_message error,
            ''Continuing without gRPC service...'']\<rparr>))"

definition document_api :: "environment \<Rightarrow> boot_outcomes \<Rightarrow> application \<Rightarrow> boot_end \<times> application" where
  "document_api env out app =
     (case bo_createDocument out of
        Inl error \<Rightarrow> (Rejects error, app)
      | Inr _ \<Rightarrow>
          (case bo_writeFile out of
             Inl error \<Rightarrow> (Rejects error, app)
           | Inr _ \<Rightarrow>
               (let app1 = app\<lparr>ap_log := ap_log app @ [''Swagger JSON file generated at ./swagger.json'']\<rparr> in
                case bo_setupDocs out of
                  Inl error \<Rightarrow> (Rejects error, app1)
                | Inr _ \<Rightarrow> start_services env out (app1\<lparr>ap_docs := Some (''/api/v1/docs'', swaggerConfig)\<rparr>))))"

definition bootstrap :: "environment \<Rightarrow> string \<Rightarrow> boot_outcomes \<Rightarrow> boot_end \<times> application option" where
  "bootstrap env cwd out =
     (case bo_create out of
        None \<Rightarrow> (Waits, None)
      | Some (Inl error) \<Rightarrow> (Exits 1, None)
      | Some (Inr _) \<Rightarrow>
          (case bo_configure out of
             Inl error \<Rightarrow> (Exits 1, None)
           | Inr _ \<Rightarrow> (case document_api env out (configured cwd) of (e, app) \<Rightarrow> (e, Some app))))"

text \<open>\<^verbatim>\<open>bootstrap()\<close> is not awaited: its rejection is an event of the process, whose handlers are in place by then.\<close>

definition start_server :: "bool \<Rightarrow> int \<Rightarrow> environment \<Rightarrow> string \<Rightarrow> boot_outcomes \<Rightarrow> application option \<times> process" where
  "start_server production now env cwd out =
     (let (e, app) = bootstrap env cwd out in
      (app, case e of
          Booted \<Rightarrow> running
        | Waits \<Rightarrow> running
        | Rejects error \<Rightarrow> turn production (now, UnhandledRejection (exn_message error)) running
        | Exits code \<Rightarrow> running\<lparr>pr_exit := Some code\<rparr>))"

section \<open>What the start needs\<close>

abbreviation succeeds :: "unit result option \<Rightarrow> bool" where
  "succeeds r \<equiv> r = Some (Inr ())"

abbreviation fails :: "unit result option \<Rightarrow> bool" where
  "fails r \<equiv> \<exists>error. r = Some (Inl error)"

lemma rejection_exits: "pr_exit (turn production (now, UnhandledRejection m) running) = (if production then Some 0 else None)"
  by (simp add: turn_def running_def on_process_event_def shuts_down_def gracefulShutdown_def process_exit_def fire_timers_def Let_def)

lemma document_api_end:
  "fst (document_api env out app) =
     (case (bo_createDocument out, bo_writeFile out, bo_setupDocs out, bo_startAllMicroservices out, bo_listen out) of
        (Inl e, _) \<Rightarrow> Rejects e
      | (Inr _, Inl e, _) \<Rightarrow> Rejects e
      | (Inr _, Inr _, Inl e, _) \<Rightarrow> Rejects e
      | (Inr _, Inr _, Inr _, None, _) \<Rightarrow> Waits
      | (Inr _, Inr _, Inr _, Some _, None) \<Rightarrow> Waits
      | (Inr _, Inr _, Inr _, Some _, Some (Inl e)) \<Rightarrow> Rejects e
      | (Inr _, Inr _, Inr _, Some _, Some (Inr _)) \<Rightarrow> Booted)"
  by (simp add: document_api_def start_services_def start_listening_def Let_def split: sum.split option.split)

lemma document_api_app:
  "ap_port app = None \<Longrightarrow> ap_port (snd (document_api env out app)) = (if fst (document_api env out app) = Booted then Some (listen_port env) else None)"
  "ap_setup (snd (document_api env out app)) = ap_setup app"
  "\<not> ap_grpc app \<Longrightarrow> fst (document_api env out app) = Booted \<Longrightarrow>
     ap_grpc (snd (document_api env out app)) = succeeds (bo_startAllMicroservices out)"
  by (simp_all add: document_api_def start_services_def start_listening_def Let_def split: sum.splits option.splits)

text \<open>
  C37: What the start needs. The server comes to listen exactly if the application could be made and configured, the API description made, written
  and set up, and the port bound once the modules are initialised, none of it waiting for ever; gRPC may fail to start, and then it
  listens without the ingestion. The framework ends the process with code 1 if the application could not be made or
  configured; a later failure ends a production process with the exit code of success. In every other case it goes on, and
  does not listen if a step never ended, which is how it is when Redis cannot be reached.
\<close>

theorem server_listens_without_grpc:
  assumes "start_server production now env cwd out = (app, p)"
  shows "(\<exists>a. app = Some a \<and> ap_port a = Some (listen_port env)) =
      (succeeds (bo_create out) \<and> \<not> isl (bo_configure out) \<and> \<not> isl (bo_createDocument out) \<and> \<not> isl (bo_writeFile out)
        \<and> \<not> isl (bo_setupDocs out) \<and> bo_startAllMicroservices out \<noteq> None \<and> succeeds (bo_listen out))
    \<and> (\<forall>a. app = Some a \<longrightarrow> EnableCors corsOptions \<in> set (ap_setup a)
        \<and> (ap_port a = None \<or> (ap_port a = Some (listen_port env) \<and> ap_grpc a = succeeds (bo_startAllMicroservices out))))
    \<and> pr_exit p =
        (if fails (bo_create out) \<or> succeeds (bo_create out) \<and> isl (bo_configure out) then Some 1
         else if production \<and> succeeds (bo_create out) \<and>
           (isl (bo_createDocument out) \<or> isl (bo_writeFile out) \<or> isl (bo_setupDocs out)
             \<or> bo_startAllMicroservices out \<noteq> None \<and> fails (bo_listen out)) then Some 0
         else None)"
proof -
  let ?r = "document_api env out (configured cwd)"
  have c: "ap_port (configured cwd) = None" "\<not> ap_grpc (configured cwd)" "EnableCors corsOptions \<in> set (ap_setup (configured cwd))"
    by (simp_all add: configured_def)
  show ?thesis
  proof (cases "succeeds (bo_create out) \<and> \<not> isl (bo_configure out)")
    case True
    then obtain b where b: "bo_create out = Some (Inr b)" "\<not> isl (bo_configure out)" by blast
    have app: "app = Some (snd ?r)" and p: "p = (case fst ?r of Booted \<Rightarrow> running | Waits \<Rightarrow> running
        | Rejects error \<Rightarrow> turn production (now, UnhandledRejection (exn_message error)) running | Exits code \<Rightarrow> running\<lparr>pr_exit := Some code\<rparr>)"
      using assms b by (auto simp: start_server_def bootstrap_def Let_def split_beta split: sum.splits)
    have e: "(fst ?r = Booted) = (\<not> isl (bo_createDocument out) \<and> \<not> isl (bo_writeFile out)
        \<and> \<not> isl (bo_setupDocs out) \<and> bo_startAllMicroservices out \<noteq> None \<and> succeeds (bo_listen out))"
      by (simp add: document_api_end split: sum.split option.split)
    have x: "pr_exit p = (if production \<and> (isl (bo_createDocument out) \<or> isl (bo_writeFile out) \<or> isl (bo_setupDocs out)
             \<or> bo_startAllMicroservices out \<noteq> None \<and> fails (bo_listen out)) then Some 0 else None)"
      unfolding p document_api_end by (simp add: rejection_exits running_def [THEN arg_cong, of pr_exit] split: sum.split option.split)
    show ?thesis
      using b e x document_api_app [where app = "configured cwd" and env = env and out = out] c by (auto simp: app)
  next
    case False
    then show ?thesis
      using assms by (auto simp: start_server_def bootstrap_def running_def Let_def split: option.splits sum.splits)
  qed
qed

theorem server_listens_without_grpc_witness:
  "pr_exit (snd (start_server True 0 Map.empty ''/app''
     \<lparr>bo_create = Some (Inr ()), bo_configure = Inr (), bo_createDocument = Inr (), bo_writeFile = Inl (JsError ''EROFS''),
      bo_setupDocs = Inr (), bo_startAllMicroservices = Some (Inr ()), bo_listen = Some (Inr ())\<rparr>)) = Some 0"
  by (subst server_listens_without_grpc [OF prod.collapse [symmetric], THEN conjunct2, THEN conjunct2]) simp

end
