(* ===== verification/CrossOrigin.thy ===== *)
theory CrossOrigin
  imports Bootstrap
begin

text \<open>
  What the cross-origin policy of src/src/main.ts and the attributes of the refresh-token cookie mean together: a page of another origin
  that posts to the refresh route with credentials. The \<^verbatim>\<open>cors\<close> middleware and the browser are parameters with the laws of the locale
  \<open>web_platform\<close>, taken from the middleware's documentation and the Fetch standard.
\<close>

section \<open>The platform\<close>

record cors_headers =
  ch_allowOrigin :: "string option"
  ch_allowCredentials :: bool

text \<open>
  The headers the middleware answers an origin with, whether the browser attaches a cookie that was set some milliseconds ago to a cross-site
  request to a host over HTTPS, and whether it shows the response to a credentialed request to a page of the origin. A cookie with a domain
  goes to the domain itself and to the hosts below it.
\<close>

definition in_domain :: "string \<Rightarrow> string \<Rightarrow> bool" where
  "in_domain host domain =
     (let d = (case domain of [] \<Rightarrow> [] | x # rest \<Rightarrow> if x = CHR ''.'' then rest else domain) in
      host = d \<or> suffix (CHR ''.'' # d) host)"

record web_env =
  wb_cors :: "cors_options \<Rightarrow> string \<Rightarrow> cors_headers"
  wb_attaches :: "cookie \<Rightarrow> string \<Rightarrow> int \<Rightarrow> bool"
  wb_readable :: "string \<Rightarrow> cors_headers \<Rightarrow> bool"

locale web_platform =
  fixes W :: web_env
  assumes cors_reflects: "cr_origin opts = ReflectOrigin \<Longrightarrow> cr_credentials opts \<Longrightarrow>
      wb_cors W opts origin = \<lparr>ch_allowOrigin = Some origin, ch_allowCredentials = True\<rparr>"
    and cors_refuses: "cr_origin opts = OnlyOrigin site \<Longrightarrow> ch_allowOrigin (wb_cors W opts origin) = Some site"
    and attaches: "ck_secure c \<Longrightarrow> 0 \<le> age \<Longrightarrow> wb_attaches W c host age
      = (ck_sameSite c = ''none'' \<and> in_domain host (ck_domain c) \<and> age < ck_maxAge c)"
    and readable: "wb_readable W origin h = (ch_allowOrigin h = Some origin \<and> ch_allowCredentials h)"
begin

text \<open>Under a reflecting policy every origin reads the response.\<close>

lemma reflected_readable: "cr_origin opts = ReflectOrigin \<Longrightarrow> cr_credentials opts \<Longrightarrow> wb_readable W origin (wb_cors W opts origin)"
  by (simp add: readable cors_reflects)

lemma other_site_unreadable: "cr_origin opts = OnlyOrigin site \<Longrightarrow> origin \<noteq> site \<Longrightarrow> \<not> wb_readable W origin (wb_cors W opts origin)"
  by (simp add: readable cors_refuses)

end

text \<open>A reference platform.\<close>

definition mem_web :: web_env where
  "mem_web = \<lparr>
     wb_cors = (\<lambda>opts origin. \<lparr>ch_allowOrigin = (case cr_origin opts of AnyOrigin \<Rightarrow> Some ''*'' | ReflectOrigin \<Rightarrow> Some origin
         | OnlyOrigin site \<Rightarrow> Some site), ch_allowCredentials = cr_credentials opts\<rparr>),
     wb_attaches = (\<lambda>c host age. ck_secure c \<and> ck_sameSite c = ''none'' \<and> in_domain host (ck_domain c) \<and> age < ck_maxAge c),
     wb_readable = (\<lambda>origin h. ch_allowOrigin h = Some origin \<and> ch_allowCredentials h)\<rparr>"

interpretation memw: web_platform mem_web
  by unfold_locales (auto simp: mem_web_def)

section \<open>A page of another origin\<close>

text \<open>
  The cookies of the browser, set \<open>age\<close> milliseconds ago, as the server's parser gives them, and what the page sees of the answer: nothing, or
  the response. Posting without a body or headers of its own needs no preflight.
\<close>

definition cross_site_request :: "web_env \<Rightarrow> string \<Rightarrow> int \<Rightarrow> cookie list \<Rightarrow> request" where
  "cross_site_request W host age jar =
     \<lparr>rq_authorization = None, rq_cookies = map (\<lambda>c. (ck_name c, ck_value c)) (filter (\<lambda>c. wb_attaches W c host age) jar),
      rq_user = None\<rparr>"

definition page_refresh ::
  "web_env \<Rightarrow> string \<Rightarrow> string \<Rightarrow> int \<Rightarrow> cookie list \<Rightarrow> (string \<Rightarrow> bool) \<Rightarrow> ('s, 'u) auth_env \<Rightarrow> int \<Rightarrow> draws \<Rightarrow> ('s, 'u) auth_state
     \<Rightarrow> auth_response result option \<times> ('s, 'u) auth_state" where
  "page_refresh W origin host age jar is_email E now x st =
     (let (r, st') = authController is_email E now x (cross_site_request W host age jar) RefreshToken st in
      (if wb_readable W origin (wb_cors W corsOptions origin) then Some r else None, st'))"

context auth_service
begin

lemma refresh_after_sign_in:
  assumes "singIn E now uuid email password st = (Inr p, st1)" and "refreshTokenTtl (ae_config E) = Num b"
    and "accessTokenTtl (ae_config E) = Num a" and "t div 1000 < now div 1000 + b" and "uuid' \<noteq> uuid"
    and "\<And>i. i \<in> u_id ` set (docs (as_users st1)) \<Longrightarrow> \<not> isl (findById (ae_users E) i (as_users st1))"
    and "\<And>c. \<not> isl (signToken E t (Num a) c)" and "\<And>c. \<not> isl (signToken E t (Num b) c)"
  shows "\<exists>user q st2. user \<in> set (docs (as_users st)) \<and> u_email user = norm_email email
    \<and> refreshTokens E t uuid' (refreshToken p) st1 = (Inr q, st2)
    \<and> (\<forall>t'. t' div 1000 < t div 1000 + a \<longrightarrow> (\<exists>c. verifyToken E t' (accessToken q) = Inr c \<and> c_sub c = u_id user))
    \<and> (\<forall>U st3 t' u. auth_reaches E U st2 st3 \<and> uuid \<notin> U \<longrightarrow> isl (fst (refreshTokens E t' u (refreshToken p) st3)))"
proof -
  from singIn_session [OF assms(1)] obtain user where u: "user \<in> set (docs (as_users st))" "u_email user = norm_email email"
    and s: "session_validate (ae_redis E) t (u_id user) (Some uuid) (as_redis st1)"
    and v: "verifyToken E t (refreshToken p)
             = Inr \<lparr>c_sub = u_id user, c_email = None, c_role = None, c_refreshTokenId = Some uuid\<rparr>"
    using assms(2,4) by (metis (no_types, lifting))
  let ?c = "\<lparr>c_sub = u_id user, c_email = None, c_role = None, c_refreshTokenId = Some uuid\<rparr>"
  have "as_users st1 = as_users st" using assms(1) by (cases rule: singIn_cases) (auto dest: generateTokens_Inr(1))
  with u(1) have "find (\<lambda>d. u_id d = u_id user) (docs (as_users st1)) \<noteq> None" by (auto simp: find_None_iff)
  moreover obtain f where f: "findById (ae_users E) (u_id user) (as_users st1) = Inr f"
    using assms(6) [of "u_id user"] u(1) \<open>as_users st1 = as_users st\<close> by (cases "findById (ae_users E) (u_id user) (as_users st1)") auto
  ultimately obtain d where d: "findById (ae_users E) (u_id user) (as_users st1) = Inr (Some d)" "u_id d = u_id user"
    using um_findById [of "u_id user" "as_users st1" f] by (auto simp: findById_def find_Some_iff)
  obtain q st2 where q: "generateTokens E t uuid' d (st1\<lparr>as_redis := inValidate (ae_redis E) t (u_id d) (as_redis st1)\<rparr>) = (Inr q, st2)"
  proof -
    have "\<exists>tok. signToken E t (Num a) c = Inr tok" "\<exists>tok. signToken E t (Num b) c = Inr tok" for c
      using assms(7,8) [of c] by (cases "signToken E t (Num a) c"; cases "signToken E t (Num b) c"; simp)+
    then have "\<exists>q st2. generateTokens E t uuid' d (st1\<lparr>as_redis := inValidate (ae_redis E) t (u_id d) (as_redis st1)\<rparr>) = (Inr q, st2)"
      unfolding generateTokens_def assms(2,3) by (metis (no_types, lifting) sum.case(2))
    then show ?thesis using that by blast
  qed
  have r: "refreshTokens E t uuid' (refreshToken p) st1 = (Inr q, st2)"
    using v s d q by (simp add: refreshTokens_def)
  have "\<exists>c. verifyToken E t' (accessToken q) = Inr c \<and> c_sub c = u_id user" if "t' div 1000 < t div 1000 + a" for t'
    using generateTokens_Inr(3) [OF q] assms(3) that d(2) by (auto simp: signToken_def verifyToken_def intro: verify_signed)
  moreover have "isl (fst (refreshTokens E t' u (refreshToken p) st3))" if "auth_reaches E U st2 st3" "uuid \<notin> U" for U st3 t' u
  proof -
    have "dead_id E (c_sub ?c) (c_refreshTokenId ?c) st2" using refresh_kills [OF r v] assms(5) by simp
    from reaches_dead [OF that(1) this] that(2) have "dead_id E (c_sub ?c) (c_refreshTokenId ?c) st3" by auto
    from dead_refresh [OF this v] show ?thesis by (metis fst_conv sum.disc(1))
  qed
  ultimately show ?thesis using u r by blast
qed

end

lemma sign_in_request:
  assumes "authController is_email E now x rq (SignIn email password) st = (Inr (Tokens p cookies), st')"
  shows "singIn E now (dr_uuid x) email password st = (Inr p, st')" and "cookies = [refresh_cookie (refreshToken p)]"
  using assms by (auto simp: authController_handler ctl_signIn_def split: if_splits prod.splits sum.splits)

text \<open>
  C16: Any web page takes over the session of its visitor. After a sign-in, while the refresh token and its cookie are valid, a page of
  whatever origin that posts to the refresh route, on a host under the cookie's domain, reads in the answer an access token with which
  the guarded routes take it for the signed-in user, until that token expires; and from then on the user's own refresh token is refused,
  in every later state of the service. (The lookup of a stored user and the signing of the tokens are assumed not to fail, and
  no token id is drawn twice.)
\<close>

theorem any_page_takes_the_session:
  assumes "auth_service E ks docs" and "web_platform W"
    and "authController is_email E now x rq (SignIn email password) st = (Inr (Tokens p cookies), st1)"
    and "refreshTokenTtl (ae_config E) = Num b" and "accessTokenTtl (ae_config E) = Num a"
    and "now \<le> t" and "t div 1000 < now div 1000 + b" and "t < now + 7 * 24 * 60 * 60 * 1000"
    and "in_domain host ''.evntfy.tech''" and "dr_uuid y \<noteq> dr_uuid x" and "refreshToken p \<noteq> []"
    and "\<And>i. i \<in> u_id ` set (docs (as_users st1)) \<Longrightarrow> \<not> isl (findById (ae_users E) i (as_users st1))"
    and "\<And>c. \<not> isl (signToken E t (Num a) c)" and "\<And>c. \<not> isl (signToken E t (Num b) c)"
  shows "\<exists>user tok cookies' st2. user \<in> set (docs (as_users st)) \<and> u_email user = norm_email email
    \<and> page_refresh W origin host (t - now) cookies is_email E t y st1 = (Some (Inr (NewAccessToken tok cookies')), st2)
    \<and> (\<forall>t'. t' div 1000 < t div 1000 + a \<longrightarrow> (\<exists>c. verifyToken E t' tok = Inr c \<and> c_sub c = u_id user))
    \<and> (\<forall>U st3 t' u. auth_reaches E U st2 st3 \<and> dr_uuid x \<notin> U \<longrightarrow> isl (fst (refreshTokens E t' u (refreshToken p) st3)))"
proof -
  note s = sign_in_request [OF assms(3)]
  obtain user q st2 where q: "user \<in> set (docs (as_users st))" "u_email user = norm_email email"
    "refreshTokens E t (dr_uuid y) (refreshToken p) st1 = (Inr q, st2)"
    "\<forall>t'. t' div 1000 < t div 1000 + a \<longrightarrow> (\<exists>c. verifyToken E t' (accessToken q) = Inr c \<and> c_sub c = u_id user)"
    "\<forall>U st3 t' u. auth_reaches E U st2 st3 \<and> dr_uuid x \<notin> U \<longrightarrow> isl (fst (refreshTokens E t' u (refreshToken p) st3))"
    using auth_service.refresh_after_sign_in [OF assms(1) s(1) assms(4,5,7,10,12,13,14)] by blast
  have "wb_attaches W (refresh_cookie tok) host (t - now)" for tok
    using web_platform.attaches [OF assms(2), of "refresh_cookie tok" "t - now" host] assms(6,8,9) by (simp add: refresh_cookie_def)
  then have "rq_cookies (cross_site_request W host (t - now) cookies) = [(''refreshToken'', refreshToken p)]"
    by (simp add: cross_site_request_def s(2)) (simp add: refresh_cookie_def)
  moreover have "wb_readable W origin (wb_cors W corsOptions origin)"
    by (rule web_platform.reflected_readable [OF assms(2)]) (simp_all add: corsOptions_def)
  ultimately have "page_refresh W origin host (t - now) cookies is_email E t y st1
      = (Some (Inr (NewAccessToken (accessToken q) [refresh_cookie (refreshToken q)])), st2)"
    using q(3) assms(11) by (simp add: page_refresh_def authController_handler ctl_refreshToken_def)
  with q show ?thesis by blast
qed

lemma demo_sign_in: "authController (\<lambda>_. True) demo_env 6000 demo_draws no_headers (SignIn ''ada@x.io'' ''secret'') (snd demo2)
    = (Inr (Tokens (projr (fst demo3)) [refresh_cookie demo_token]), snd demo3)"
proof -
  have "singIn demo_env 6000 ''r1'' ''ada@x.io'' ''secret'' (snd demo2) = (Inr (projr (fst demo3)), snd demo3)"
    using demo3_result by (simp add: demo3_def [symmetric] prod_eq_iff)
  then show ?thesis
    by (simp add: authController_handler ctl_signIn_def sign_in_dto_ok_def demo_draws_def demo_token_def)
qed

theorem any_page_takes_the_session_witness:
  "\<exists>tok cookies st2. page_refresh mem_web ''https://evil.example'' ''api.evntfy.tech'' 1000 [refresh_cookie demo_token] (\<lambda>_. True)
      demo_env 7000 \<lparr>dr_salt = [], dr_uuid = ''r2'', dr_rnd = 0\<rparr> (snd demo3) = (Some (Inr (NewAccessToken tok cookies)), st2)"
proof -
  have f: "\<not> isl (findById (ae_users demo_env) i (as_users (snd demo3)))" for i
    by (simp add: findById_def demo_env_def mem_users_def)
  have s: "\<not> isl (signToken demo_env 7000 (Num ttl) c)" for ttl c
    by (simp add: signToken_def demo_env_def mem_jwt_def)
  have e: "refreshTokenTtl (ae_config demo_env) = Num 86400" "accessTokenTtl (ae_config demo_env) = Num 3600"
    by (simp_all add: demo_env_def)
  have n: "refreshToken (projr (fst demo3)) \<noteq> []"
    by (simp add: demo3_result enc_token_def enc_field_def)
  have h: "in_domain ''api.evntfy.tech'' ''.evntfy.tech''" by (simp add: in_domain_def suffix_def)
  from any_page_takes_the_session [OF demo_service memw.web_platform_axioms demo_sign_in e _ _ _ h _ n f s s,
      of "\<lparr>dr_salt = [], dr_uuid = ''r2'', dr_rnd = 0\<rparr>" "''https://evil.example''"]
  show ?thesis by (simp add: demo_draws_def) blast
qed

end
