(* ===== verification/Routes.thy ===== *)
theory Routes
  imports Accounts ApiKeyController
begin

text \<open>
  The HTTP surface: the routes the decorators of the controllers declare, under the prefix of src/src/main.ts, each with the
  authentication types of its handler and its class, and the way of a request: what the server and the middleware answer
  themselves, the pages of the API description, routing, then the global guard.
\<close>

section \<open>The table\<close>

record route =
  rt_method :: string
  rt_path :: "string list"
  rt_status :: nat
  rt_handler_auth :: "AuthType list option"
  rt_class_auth :: "AuthType list option"

text \<open>A route of a controller: a POST is answered with 201 unless \<^verbatim>\<open>HttpCode\<close> says otherwise.\<close>

definition route_of :: "string \<Rightarrow> AuthType list option \<Rightarrow> string \<Rightarrow> string list \<Rightarrow> route" where
  "route_of controller cls meth path =
     \<lparr>rt_method = meth, rt_path = (if controller = [] then [] else split_on CHR ''/'' controller) @ path,
      rt_status = (if meth = ''POST'' then 201 else 200), rt_handler_auth = None, rt_class_auth = cls\<rparr>"

definition auth_routes :: "route list" where
  "auth_routes =
     [route_of ''auth'' auth_class_auth ''POST'' [''sign-up''],
      (route_of ''auth'' auth_class_auth ''POST'' [''sign-in''])\<lparr>rt_status := 200\<rparr>,
      (route_of ''auth'' auth_class_auth ''POST'' [''refresh-token''])\<lparr>rt_status := 200\<rparr>,
      (route_of ''auth'' auth_class_auth ''POST'' [''verify-email''])\<lparr>rt_status := 200\<rparr>,
      (route_of ''auth'' auth_class_auth ''POST'' [''otp'', ''resend''])\<lparr>rt_status := 200\<rparr>]"

definition users_routes :: "route list" where
  "users_routes = [(route_of ''users'' None ''GET'' [])\<lparr>rt_handler_auth := get_all_auth\<rparr>]"

definition api_key_routes :: "route list" where
  "api_key_routes =
     [route_of ''api-key'' api_key_class_auth ''GET'' [],
      route_of ''api-key'' api_key_class_auth ''POST'' [],
      route_of ''api-key'' api_key_class_auth ''GET'' [''validate''],
      route_of ''api-key'' api_key_class_auth ''DELETE'' ['':key''],
      route_of ''api-key'' api_key_class_auth ''PATCH'' ['':key'']]"

definition events_routes :: "route list" where
  "events_routes =
     [route_of ''events'' None ''GET'' [],
      route_of ''events'' None ''DELETE'' ['':id''],
      route_of ''events'' None ''DELETE'' []]"

definition debug_routes :: "route list" where
  "debug_routes =
     [route_of ''debug/metrics'' None ''GET'' [''test'', '':userId''],
      route_of ''debug/metrics'' None ''POST'' [''simulate'', '':userId'']]"

definition health_class_auth :: "AuthType list option" where
  "health_class_auth = Some [AuthNone]"

definition health_routes :: "route list" where
  "health_routes =
     [route_of ''health'' health_class_auth ''GET'' [],
      route_of ''health'' health_class_auth ''GET'' [''simple'']]"

definition app_routes :: "route list" where
  "app_routes = [route_of [] None ''GET'' []]"

definition getHello :: string where
  "getHello = ''Hello World!''"

definition globalPrefix :: "string list" where
  "globalPrefix = [''api'', ''v1'']"

definition routes :: "route list" where
  "routes = map (\<lambda>r. r\<lparr>rt_path := globalPrefix @ rt_path r\<rparr>)
     (app_routes @ auth_routes @ users_routes @ api_key_routes @ events_routes @ debug_routes @ health_routes)"

section \<open>The way of a request\<close>





definition appController :: "jwt \<Rightarrow> jwt_params \<Rightarrow> int \<Rightarrow> request \<Rightarrow> string result" where
  "appController J P now rq =
     (case canActivate J P now None None rq of (Inl e, _) \<Rightarrow> Inl e | (Inr _, _) \<Rightarrow> Inr getHello)"








section \<open>What is open\<close>


lemmas route_tables = routes_def app_routes_def auth_routes_def users_routes_def api_key_routes_def events_routes_def
  debug_routes_def health_routes_def route_of_def








end
