(* ===== verification/SharedRedis.thy ===== *)
theory SharedRedis
  imports AuthProps EventsUsage MetricsActive
begin

text \<open>
  One Redis server for all: the module of src/src/integrations/redis provides a single client, which the sessions and codes of the
  authentication, the usage counters and the metrics share. The services of the other theories are put side by side on one
  keyspace, and their invariants shown to survive any interleaving.
\<close>

section \<open>The server\<close>

text \<open>
  The shared Redis state, the user collection and the mails, the ingestion, and the memory of the metrics service with the jobs it has
  processed. A service sees the shared Redis state in the place of its own.
\<close>

record ('s, 'u, 'd) server =
  sv_redis :: 's
  sv_users :: 'u
  sv_mails :: "mail_job list"
  sv_ingest :: "('s, 'd) ingest"
  sv_live :: "live_event list"
  sv_lastActivity :: int
  sv_taken :: nat
  sv_counted :: "job list"

record ('s, 'u, 'd) server_env =
  se_auth :: "('s, 'u) auth_env"
  se_ingest :: "('s, 'd) ingest_env"
  se_metrics :: "'s metrics_env"

definition auth_of :: "('s, 'u, 'd) server \<Rightarrow> ('s, 'u) auth_state" where
  "auth_of st = \<lparr>as_redis = sv_redis st, as_users = sv_users st, as_mails = sv_mails st\<rparr>"

definition ingest_of :: "('s, 'u, 'd) server \<Rightarrow> ('s, 'd) ingest" where
  "ingest_of st = (sv_ingest st)\<lparr>ig_usage := (ig_usage (sv_ingest st))\<lparr>us_redis := sv_redis st\<rparr>\<rparr>"

definition metrics_of :: "('s, 'u, 'd) server \<Rightarrow> 's metrics_state" where
  "metrics_of st = \<lparr>ms_redis = sv_redis st, ms_live = sv_live st, ms_lastActivity = sv_lastActivity st\<rparr>"

text \<open>
  A step: a request to the authentication service, a step of the ingestion, the metrics worker on the oldest job it has not taken, or the
  debug endpoint, which has an event counted without a stream.
\<close>

definition count_job :: "'s metrics_env \<Rightarrow> job \<Rightarrow> ('s, 'u, 'd) server \<Rightarrow> ('s, 'u, 'd) server" where
  "count_job M j st =
     (let m = run_job M j (metrics_of st) in
      st\<lparr>sv_redis := ms_redis m, sv_live := ms_live m, sv_lastActivity := ms_lastActivity m, sv_counted := sv_counted st @ [j]\<rparr>)"

inductive server_step :: "('s, 'u, 'd) server_env \<Rightarrow> int \<Rightarrow> ('s, 'u, 'd) server \<Rightarrow> ('s, 'u, 'd) server \<Rightarrow> bool"
  for V :: "('s, 'u, 'd) server_env" and now :: int where
  server_account: "auth_step (se_auth V) U (auth_of st) a \<Longrightarrow>
    server_step V now st (st\<lparr>sv_redis := as_redis a, sv_users := as_users a, sv_mails := as_mails a\<rparr>)"
| server_ingest: "ingest_step (se_ingest V) now op (ingest_of st) i \<Longrightarrow>
    server_step V now st (st\<lparr>sv_redis := us_redis (ig_usage i), sv_ingest := i\<rparr>)"
| server_metrics: "sv_taken st < length (ig_metrics (sv_ingest st)) \<Longrightarrow> jb_event j = snd (ig_metrics (sv_ingest st) ! sv_taken st) \<Longrightarrow>
    jb_now j = now \<Longrightarrow> server_step V now st ((count_job (se_metrics V) j st)\<lparr>sv_taken := Suc (sv_taken st)\<rparr>)"
| server_simulate: "jb_now j = now \<Longrightarrow> server_step V now st (count_job (se_metrics V) j st)"

inductive server_runs :: "('s, 'u, 'd) server_env \<Rightarrow> ('s, 'u, 'd) server \<Rightarrow> ('s, 'u, 'd) server \<Rightarrow> bool"
  for V :: "('s, 'u, 'd) server_env" where
  server_refl: "server_runs V st st"
| server_snoc: "server_runs V st st' \<Longrightarrow> server_step V now st' st'' \<Longrightarrow> server_runs V st st''"

section \<open>Each service keeps to its keys\<close>

definition auth_key :: "string \<Rightarrow> bool" where
  "auth_key k = (take 5 k = ''user-'' \<or> take 4 k = ''otp:'')"

definition usage_key :: "string \<Rightarrow> bool" where
  "usage_key k = (take 8 k = ''api_key:'')"

definition metrics_key :: "string \<Rightarrow> bool" where
  "metrics_key k = (take 8 k = ''metrics:'')"

lemma key_kinds [simp]:
  "auth_key (getKey u)" "auth_key (otpKey e)" "usage_key (getKeyName a)" "metrics_key (metric_key f t)" "metrics_key (family_key f m)"
  "\<not> auth_key (getKeyName a)" "\<not> auth_key (metric_key f t)" "\<not> auth_key (family_key f m)"
  "\<not> usage_key (getKey u)" "\<not> usage_key (metric_key f t)" "\<not> usage_key (family_key f m)"
  "\<not> metrics_key (getKey u)" "\<not> metrics_key (otpKey e)" "\<not> metrics_key (getKeyName a)"
  by (simp_all add: auth_key_def usage_key_def metrics_key_def getKey_def otpKey_def getKeyName_def metric_key_def family_key_def)

context auth_service
begin

lemma auth_step_frame: "auth_step E U st st' \<Longrightarrow> \<not> auth_key k \<Longrightarrow> ks (as_redis st') k = ks (as_redis st) k"
proof -
  assume k: "\<not> auth_key k"
  then have ne: "k \<noteq> getKey u" "k \<noteq> otpKey e" for u e by auto
  have g: "ks (as_redis s') k = ks (as_redis s) k" if "generateTokens E now uuid user s = (r, s')" for now uuid user s r s'
  proof (cases r)
    case (Inl e)
    with that have "s' = s" using generateTokens_Inl by blast
    then show ?thesis by simp
  next
    case (Inr p)
    with that have "s' = s\<lparr>as_redis := session_insert (ae_redis E) now (u_id user) uuid (as_redis s)\<rparr>"
      using generateTokens_Inr(1) by blast
    then show ?thesis by (simp add: service_defs ks_simps ne)
  qed
  assume "auth_step E U st st'"
  then show ?thesis
  proof cases
    case (step_singUp now salt rnd dto r)
    from step_singUp show ?thesis by (cases rule: singUp_cases) (simp_all add: service_defs ks_simps ne)
  next
    case (step_resendOtp now rnd email r)
    from step_resendOtp show ?thesis by (cases rule: resendOtp_cases) (auto simp: service_defs ks_simps ne)
  next
    case (step_verifyEmail now otp email r)
    from step_verifyEmail show ?thesis by (cases rule: verifyEmail_cases) (simp_all add: service_defs ks_simps ne)
  next
    case (step_singIn uuid now email password r)
    from step_singIn(2) show ?thesis by (cases rule: singIn_cases) (auto dest: g)
  next
    case (step_refresh uuid now tok r)
    from step_refresh(2) show ?thesis by (cases rule: refreshTokens_cases) (auto dest!: g simp: service_defs ks_simps ne)
  qed
qed

end

context usage_service
begin

lemma ingest_step_frame:
  assumes "ingest_step N now op st st'" and "ie_redis N = R" and "ie_keys N = M" and "\<not> usage_key k"
  shows "ks (us_redis (ig_usage st')) k = ks (us_redis (ig_usage st)) k"
proof -
  have ne: "k \<noteq> getKeyName a" for a using assms(4) by auto
  show ?thesis using assms(1)
  proof cases
    case (open_step md)
    then show ?thesis by (simp add: open_stream_def split: sum.split)
  next
    case (next_step i event)
    then show ?thesis
      using ne by (simp add: on_next_def Let_def assms(2,3) increment_parts(1) script_redis split: list.split)
  next
    case (task_step j)
    then show ?thesis using ne by (simp add: run_task_def Let_def assms(2) init_write_def rd_hset split: option.split)
  qed (simp_all add: on_error_def)
qed

end

context metrics_service
begin

lemma run_job_frame: "\<not> metrics_key k \<Longrightarrow> ks (ms_redis (run_job M j st)) k = ks (ms_redis st) k"
proof -
  assume k: "\<not> metrics_key k"
  then have ne: "k \<noteq> metric_key f t" for f t by auto
  have la: "k \<noteq> ''metrics:last_activity''" using k by (auto simp: metrics_key_def)
  have c: "ks (count_value (me_redis M) now (metric_key f t) args ttl s) k = ks s k" for now f t args ttl s
    by (simp add: count_value_def ks_simps ne split: list.split)
  have a: "ks (sadd_all (me_redis M) now (metric_key f t) xs s) k = ks s k" for now f t xs s
    using fold_sadd_other [OF ne] by (simp add: sadd_all_def)
  have u: "ks (updateLastActivityTime (me_redis M) now s) k = ks s k"
    "ks (updateVolumeMetrics (me_redis M) now t h dd event s) k = ks s k"
    "ks (updateUserMetrics (me_redis M) sn now t event payload s) k = ks s k"
    "ks (updateEventTypeMetrics (me_redis M) now t event s) k = ks s k"
    "ks (updateGeographicMetrics (me_redis M) sn pick now t payload s) k = ks s k"
    "ks (updateDeviceMetrics (me_redis M) sn now t payload s) k = ks s k"
    "ks (updateReferrerMetrics (me_redis M) sn now t payload s) k = ks s k"
    "ks (updatePerformanceMetrics (me_redis M) now t e s) k = ks s k" for now t h dd event sn payload pick e s
    by (simp_all add: updateLastActivityTime_def updateVolumeMetrics_def updateUserMetrics_def updateEventTypeMetrics_def
        updateGeographicMetrics_def updateDeviceMetrics_def updateReferrerMetrics_def updatePerformanceMetrics_def
        Let_def ks_simps la ne c a split: sum.split)
  show ?thesis by (simp add: run_job_redis count_event_def Let_def u split: jsnum.split)
qed

end

section \<open>The invariants side by side\<close>

text \<open>Each invariant looks at the keys of its service only.\<close>

lemma sessions_cong:
  assumes "redis_server (ae_redis E) ks" and "sessions_verified E docs a"
    and "\<And>u. ks (as_redis a') (getKey u) = ks (as_redis a) (getKey u)" and "as_users a' = as_users a"
  shows "sessions_verified E docs a'"
proof -
  have "rd_get (ae_redis E) t (getKey u) (as_redis a') = rd_get (ae_redis E) t (getKey u) (as_redis a)" for t u
    using live_other [of "ks (as_redis a')" "getKey u" "ks (as_redis a)" t] assms(3)
    by (simp add: redis_server.rd_get [OF assms(1)] ks_get_def)
  then show ?thesis using assms(2,4) by (simp add: sessions_verified_def session_validate_def)
qed

lemma own_hashes_cong: "own_hashes K \<Longrightarrow> (\<And>a. K' (getKeyName a) = K (getKeyName a)) \<Longrightarrow> own_hashes K'"
  by (simp add: own_hashes_def)

lemma family_inv_cong:
  "family_inv P ttl flds (family_key f) evs K \<Longrightarrow> (\<And>m. K' (family_key f m) = K (family_key f m)) \<Longrightarrow>
     family_inv P ttl flds (family_key f) evs K'"
  by (simp add: family_inv_def Let_def)

lemma metered_cong:
  "metered ks docs k k limit c0 n u \<Longrightarrow> ks s (getKeyName k) = ks (us_redis u) (getKeyName k) \<Longrightarrow>
     metered ks docs k k limit c0 n (u\<lparr>us_redis := s\<rparr>)"
  by (simp add: metered_def usage_hash_def sync_count_def)

lemma ingest_inv_redis: "ingest_inv ids docs (i\<lparr>ig_usage := (ig_usage i)\<lparr>us_redis := s\<rparr>\<rparr>) = ingest_inv ids docs i"
  by (simp add: ingest_inv_def streams_ok_def sinks_agree_def)

definition metrics_inv :: "'s metrics_env \<Rightarrow> job list \<Rightarrow> keyspace \<Rightarrow> bool" where
  "metrics_inv M jobs K = (\<forall>(f, P, ttl, flds) \<in> set (families (me_show_number M)).
     family_inv P ttl flds (family_key f) (history M jobs) K)"

context metrics_service
begin

lemma run_job_metrics:
  assumes "metrics_inv M jobs (ks (ms_redis st))"
  shows "metrics_inv M (jobs @ [j]) (ks (ms_redis (run_job M j st)))"
  unfolding metrics_inv_def
proof (intro ballI, clarify)
  fix f P ttl flds
  assume fam: "(f, P, ttl, flds) \<in> set (families (me_show_number M))"
  then have i: "family_inv P ttl flds (family_key f) (history M jobs) (ks (ms_redis st))"
    using assms by (auto simp: metrics_inv_def)
  show "family_inv P ttl flds (family_key f) (history M (jobs @ [j])) (ks (ms_redis (run_job M j st)))"
  proof (cases "date_of (me_legacy M) (er_timestamp (jb_event j))")
    case NaN
    with i show ?thesis by (simp add: history_def valid_job_def run_job_redis)
  next
    case (Num e)
    have "history M (jobs @ [j]) = history M jobs @ [recorded_of j]" using Num by (simp add: history_def valid_job_def)
    then show ?thesis
      unfolding recorded_of_def
      using i families_periods [OF fam] count_event_family [OF fam] Num
      by (auto intro!: family_step [OF i] simp: run_job_redis Let_def)
  qed
qed

end

section \<open>The invariant of the server\<close>

definition same_redis :: "('s, 'u, 'd) server_env \<Rightarrow> bool" where
  "same_redis V = (ae_redis (se_auth V) = ie_redis (se_ingest V) \<and> me_redis (se_metrics V) = ie_redis (se_ingest V))"

definition server_inv ::
  "('s, 'u, 'd) server_env \<Rightarrow> ('s \<Rightarrow> keyspace) \<Rightarrow> ('u \<Rightarrow> user list) \<Rightarrow> ('d \<Rightarrow> api_key list) \<Rightarrow> (string \<times> string \<times> bool) list
     \<Rightarrow> ('s, 'u, 'd) server \<Rightarrow> bool" where
  "server_inv V ks udocs kdocs ids st =
     (sessions_verified (se_auth V) udocs (auth_of st)
      \<and> ingest_inv ids kdocs (sv_ingest st) \<and> own_hashes (ks (sv_redis st))
      \<and> metrics_inv (se_metrics V) (sv_counted st) (ks (sv_redis st)))"

definition services :: "('s, 'u, 'd) server_env \<Rightarrow> ('s \<Rightarrow> keyspace) \<Rightarrow> ('u \<Rightarrow> user list) \<Rightarrow> ('d \<Rightarrow> api_key list) \<Rightarrow> bool" where
  "services V ks udocs kdocs =
     (auth_service (se_auth V) ks udocs \<and> usage_service (ie_redis (se_ingest V)) ks (ie_keys (se_ingest V)) kdocs
      \<and> metrics_service (se_metrics V) ks \<and> same_redis V)"

lemma ingest_of_redis [simp]: "us_redis (ig_usage (ingest_of st)) = sv_redis st" "ig_streams (ingest_of st) = ig_streams (sv_ingest st)"
  "ig_tasks (ingest_of st) = ig_tasks (sv_ingest st)"
  by (simp_all add: ingest_of_def)

lemma ingest_of_inv: "ingest_inv ids docs (ingest_of st) = ingest_inv ids docs (sv_ingest st)"
  by (simp add: ingest_of_def ingest_inv_redis)

lemma metrics_inv_cong: "metrics_inv M jobs K \<Longrightarrow> (\<And>f m. K' (family_key f m) = K (family_key f m)) \<Longrightarrow> metrics_inv M jobs K'"
  unfolding metrics_inv_def by (fastforce intro: family_inv_cong)

text \<open>What a step leaves alone: the keys of the services it does not run.\<close>

lemma account_step_inv:
  assumes "services V ks udocs kdocs" and "server_inv V ks udocs kdocs ids st" and "auth_step (se_auth V) U (auth_of st) a"
  shows "server_inv V ks udocs kdocs ids (st\<lparr>sv_redis := as_redis a, sv_users := as_users a, sv_mails := as_mails a\<rparr>)"
proof -
  have A: "auth_service (se_auth V) ks udocs" using assms(1) by (simp add: services_def)
  note fr = auth_service.auth_step_frame [OF A assms(3)]
  have "sessions_verified (se_auth V) udocs a"
    using auth_service.auth_step_sessions [OF A assms(3)] assms(2) by (simp add: server_inv_def)
  moreover have "own_hashes (ks (as_redis a))"
    using assms(2) fr by (auto simp: server_inv_def auth_of_def intro: own_hashes_cong)
  moreover have "metrics_inv (se_metrics V) (sv_counted st) (ks (as_redis a))"
    using assms(2) fr by (auto simp: server_inv_def auth_of_def intro: metrics_inv_cong)
  moreover have "auth_of (st\<lparr>sv_redis := as_redis a, sv_users := as_users a, sv_mails := as_mails a\<rparr>) = a"
    by (simp add: auth_of_def)
  ultimately show ?thesis using assms(2) by (simp add: server_inv_def)
qed

lemma ingest_step_shared:
  assumes "services V ks udocs kdocs" and "server_inv V ks udocs kdocs ids st" and "ingest_step (se_ingest V) now op (ingest_of st) i"
  shows "server_inv V ks udocs kdocs ids (st\<lparr>sv_redis := us_redis (ig_usage i), sv_ingest := i\<rparr>)"
proof -
  have A: "redis_server (ae_redis (se_auth V)) ks" and S: "usage_service (ie_redis (se_ingest V)) ks (ie_keys (se_ingest V)) kdocs"
    using assms(1) by (simp_all add: services_def auth_service_def)
  have fr: "\<not> usage_key k \<Longrightarrow> ks (us_redis (ig_usage i)) k = ks (sv_redis st) k" for k
    using usage_service.ingest_step_frame [OF S assms(3) refl refl, of k] by simp
  have u: "ks (us_redis (ig_usage i)) (getKey u) = ks (sv_redis st) (getKey u)"
    "ks (us_redis (ig_usage i)) (family_key f m) = ks (sv_redis st) (family_key f m)" for u f m
    by (rule fr; simp)+
  have old: "sessions_verified (se_auth V) udocs (auth_of st)" "metrics_inv (se_metrics V) (sv_counted st) (ks (sv_redis st))"
    using assms(2) by (simp_all add: server_inv_def)
  have inv: "ingest_inv ids kdocs (ingest_of st)" "own_hashes (ks (us_redis (ig_usage (ingest_of st))))"
    using assms(2) by (simp_all add: server_inv_def ingest_of_inv)
  then have "streams_ok (ingest_of st)" by (simp add: ingest_inv_def)
  from usage_service.step_own [OF S assms(3) refl refl this inv(2)]
  have "own_hashes (ks (us_redis (ig_usage i)))" .
  moreover have "ingest_inv ids kdocs i" 
    using api_key_collection.step_inv [OF usage_service.axioms(2) [OF S] assms(3) refl inv(1)] .
  moreover have "auth_of (st\<lparr>sv_redis := us_redis (ig_usage i), sv_ingest := i\<rparr>) = (auth_of st)\<lparr>as_redis := us_redis (ig_usage i)\<rparr>"
    by (simp add: auth_of_def)
  moreover have "sessions_verified (se_auth V) udocs ((auth_of st)\<lparr>as_redis := us_redis (ig_usage i)\<rparr>)"
    by (rule sessions_cong [OF A old(1)]) (simp_all add: u auth_of_def)
  moreover have "metrics_inv (se_metrics V) (sv_counted st) (ks (us_redis (ig_usage i)))"
    by (rule metrics_inv_cong [OF old(2) u(2)])
  ultimately show ?thesis by (simp add: server_inv_def)
qed

lemma count_job_inv:
  assumes "services V ks udocs kdocs" and "server_inv V ks udocs kdocs ids st"
  shows "server_inv V ks udocs kdocs ids (count_job (se_metrics V) j st)"
proof -
  have A: "redis_server (ae_redis (se_auth V)) ks" and S: "metrics_service (se_metrics V) ks"
    using assms(1) by (simp_all add: services_def auth_service_def)
  let ?s = "ms_redis (run_job (se_metrics V) j (metrics_of st))"
  have fr: "\<not> metrics_key k \<Longrightarrow> ks ?s k = ks (sv_redis st) k" for k
    using metrics_service.run_job_frame [OF S, of k j "metrics_of st"] by (simp add: metrics_of_def)
  have u: "ks ?s (getKey u) = ks (sv_redis st) (getKey u)" "ks ?s (getKeyName a) = ks (sv_redis st) (getKeyName a)" for u a
    by (rule fr; simp)+
  have i: "sessions_verified (se_auth V) udocs (auth_of st)" "own_hashes (ks (sv_redis st))"
    "metrics_inv (se_metrics V) (sv_counted st) (ks (ms_redis (metrics_of st)))" "ingest_inv ids kdocs (sv_ingest st)"
    using assms(2) by (simp_all add: server_inv_def metrics_of_def)
  have e: "auth_of (count_job (se_metrics V) j st) = (auth_of st)\<lparr>as_redis := ?s\<rparr>"
    "sv_redis (count_job (se_metrics V) j st) = ?s" "sv_counted (count_job (se_metrics V) j st) = sv_counted st @ [j]"
    "sv_ingest (count_job (se_metrics V) j st) = sv_ingest st"
    by (simp_all add: auth_of_def count_job_def Let_def)
  have "sessions_verified (se_auth V) udocs ((auth_of st)\<lparr>as_redis := ?s\<rparr>)"
    by (rule sessions_cong [OF A i(1)]) (simp_all add: u auth_of_def)
  moreover have "own_hashes (ks ?s)" by (rule own_hashes_cong [OF i(2) u(2)])
  moreover note metrics_service.run_job_metrics [OF S i(3)]
  ultimately show ?thesis using i(4) unfolding server_inv_def e by blast
qed

lemma server_step_inv:
  assumes "services V ks udocs kdocs" and "server_step V now st st'" and "server_inv V ks udocs kdocs ids st"
  shows "server_inv V ks udocs kdocs ids st'"
  using assms(2)
proof cases
  case (server_metrics j)
  then show ?thesis using count_job_inv [OF assms(1,3), of j] by (simp add: server_inv_def auth_of_def)
next
  case (server_simulate j)
  then show ?thesis using count_job_inv [OF assms(1,3), of j] by simp
qed (use account_step_inv [OF assms(1,3)] ingest_step_shared [OF assms(1,3)] in blast)+

lemma server_runs_inv:
  "server_runs V st st' \<Longrightarrow> services V ks udocs kdocs \<Longrightarrow> server_inv V ks udocs kdocs ids st \<Longrightarrow> server_inv V ks udocs kdocs ids st'"
  by (induction rule: server_runs.induct) (auto dest: server_step_inv)

section \<open>Metering\<close>

text \<open>The usage counter of a key, while the other services go about their business.\<close>

definition server_metered ::
  "('s \<Rightarrow> keyspace) \<Rightarrow> ('d \<Rightarrow> api_key list) \<Rightarrow> string \<Rightarrow> int \<Rightarrow> int \<Rightarrow> nat \<Rightarrow> nat \<Rightarrow> ('s, 'u, 'd) server \<Rightarrow> bool" where
  "server_metered ks kdocs k limit c0 n a st =
     (initialised k (ingest_of st) \<and> a \<le> acknowledged k (ingest_of st)
      \<and> metered ks kdocs k k limit c0 (n + (acknowledged k (ingest_of st) - a)) (ig_usage (ingest_of st)))"

lemma server_metered_frame:
  assumes "server_metered ks kdocs k limit c0 n a st" and "sv_ingest st' = sv_ingest st"
    and "ks (sv_redis st') (getKeyName k) = ks (sv_redis st) (getKeyName k)"
  shows "server_metered ks kdocs k limit c0 n a st'"
proof -
  have u: "ig_usage (ingest_of st') = (ig_usage (ingest_of st))\<lparr>us_redis := sv_redis st'\<rparr>"
    by (simp add: ingest_of_def assms(2))
  have e: "initialised k (ingest_of st') = initialised k (ingest_of st)" "acknowledged k (ingest_of st') = acknowledged k (ingest_of st)"
    by (simp_all add: initialised_def acknowledged_def assms(2))
  have "metered ks kdocs k k limit c0 (n + (acknowledged k (ingest_of st) - a)) ((ig_usage (ingest_of st))\<lparr>us_redis := sv_redis st'\<rparr>)"
    using assms(1,3) by (intro metered_cong) (simp_all only: server_metered_def ingest_of_redis)
  with assms(1) show ?thesis by (simp only: server_metered_def u e)
qed

lemma server_step_metered:
  assumes "services V ks udocs kdocs" and "server_step V now st st'" and "server_inv V ks udocs kdocs ids st"
    and "server_metered ks kdocs k limit c0 n a st"
  shows "server_metered ks kdocs k limit c0 n a st'"
  using assms(2)
proof cases
  case (server_account U b)
  have A: "auth_service (se_auth V) ks udocs" using assms(1) by (simp add: services_def)
  have "ks (as_redis b) (getKeyName k) = ks (sv_redis st) (getKeyName k)"
    using auth_service.auth_step_frame [OF A server_account(2), of "getKeyName k"] by (simp add: auth_of_def)
  then show ?thesis by (intro server_metered_frame [OF assms(4)]) (simp_all add: server_account(1))
next
  case (server_ingest op i)
  have S: "usage_service (ie_redis (se_ingest V)) ks (ie_keys (se_ingest V)) kdocs" using assms(1) by (simp add: services_def)
  have inv: "streams_ok (ingest_of st)" "own_hashes (ks (us_redis (ig_usage (ingest_of st))))"
    using assms(3) ingest_of_inv [of ids kdocs st] by (simp_all add: server_inv_def ingest_inv_def)
  have "ingest_of st' = i" by (simp add: server_ingest(1) ingest_of_def)
  then show ?thesis
    using usage_service.step_metered [OF S server_ingest(2) refl refl inv] assms(4) unfolding server_metered_def by blast
next
  case (server_metrics j)
  have M: "metrics_service (se_metrics V) ks" using assms(1) by (simp add: services_def)
  show ?thesis
    using metrics_service.run_job_frame [OF M, of "getKeyName k" j "metrics_of st"]
    by (intro server_metered_frame [OF assms(4)]) (simp_all add: server_metrics(1) count_job_def Let_def metrics_of_def)
next
  case (server_simulate j)
  have M: "metrics_service (se_metrics V) ks" using assms(1) by (simp add: services_def)
  show ?thesis
    using metrics_service.run_job_frame [OF M, of "getKeyName k" j "metrics_of st"]
    by (intro server_metered_frame [OF assms(4)]) (simp_all add: server_simulate(1) count_job_def Let_def metrics_of_def)
qed

lemma server_runs_metered:
  "server_runs V st st' \<Longrightarrow> services V ks udocs kdocs \<Longrightarrow> server_inv V ks udocs kdocs ids st \<Longrightarrow>
     server_metered ks kdocs k limit c0 n a st \<Longrightarrow> server_metered ks kdocs k limit c0 n a st'"
proof (induction rule: server_runs.induct)
  case (server_snoc st st' now st'')
  then show ?case using server_step_metered server_runs_inv by blast
qed

section \<open>Property\<close>

text \<open>The window total of a keyspace in which the metrics keys hold the counts of the jobs.\<close>

lemma shared_window_total:
  assumes "metrics_service M ks" and "metrics_inv M jobs (ks s)"
  shows "wm_totalEvents (getActiveWindowMetrics (me_redis M) t t s) = Num (volume_total (active_jobs M t jobs))"
proof -
  have E: "in_periods minute_ms (window_minutes t 0) (history M jobs) = map recorded_of (active_jobs M t jobs)"
    by (simp add: in_periods_history active_minutes active_jobs_def)
  have "family_inv minute_ms window_ttl volume_fields (family_key ''volume'') (history M jobs) (ks s)"
    using assms(2) minute_families(1) unfolding metrics_inv_def by blast
  note vol = metrics_service.window_merged [OF assms(1) minute_families(1) this, of t, unfolded E]
  show ?thesis
    using field_or_zero_tally [OF vol total_not_inherited] by (simp add: getActiveWindowMetrics_def Let_def count_volume)
qed

text \<open>
  C5: The services share one Redis without disturbing each other. Start with an empty log and a Redis without sessions and metrics, and
  let requests, streams, their initialisations and write-backs, metrics jobs and simulated events interleave as they like. Then
  still only verified accounts have sessions, the dashboard's window total is exactly that of the events counted so far, and from the
  moment the hash of a key is in place its count grows by one per acknowledged event, the count in the database being the last
  multiple of 1000 below it.
\<close>

theorem services_share_one_redis:
  assumes "services V ks udocs kdocs" and "\<And>u. ks (sv_redis st0) (getKey u) = None"
    and "\<And>f m. ks (sv_redis st0) (family_key f m) = None" and "own_hashes (ks (sv_redis st0))"
    and "sv_ingest st0 = ingest_start u" and "sv_counted st0 = []"
    and "server_runs V st0 st" and "initialised k (ingest_of st)"
    and "metered ks kdocs k k limit c0 n (ig_usage (ingest_of st))" and "server_runs V st st'"
    and "m = n + (acknowledged k (ingest_of st') - acknowledged k (ingest_of st))"
  shows "(session_validate (ae_redis (se_auth V)) t uid x (sv_redis st') \<longrightarrow> uid \<in> verified_ids (udocs (sv_users st')))
    \<and> wm_totalEvents (getActiveWindowMetrics (me_redis (se_metrics V)) t t (sv_redis st'))
        = Num (volume_total (active_jobs (se_metrics V) t (sv_counted st')))
    \<and> acknowledged k (ingest_of st) \<le> acknowledged k (ingest_of st')
    \<and> usage_hash (ks (sv_redis st')) (getKeyName k) k limit (c0 + int m)
    \<and> db_usage (kdocs (us_db (ig_usage (ingest_of st')))) k = Some (c0 + int (1000 * (m div 1000)))"
proof -
  have A: "auth_service (se_auth V) ks udocs" and M: "metrics_service (se_metrics V) ks"
    using assms(1) by (simp_all add: services_def)
  have "server_inv V ks udocs kdocs (map key_id (kdocs (us_db u))) st0"
    using auth_service.no_session_start [OF A, of "auth_of st0"] inv_start [of kdocs u] assms(2-6)
    by (auto simp: server_inv_def auth_of_def metrics_inv_def history_def family_start)
  from server_runs_inv [OF assms(7,1) this] have i: "server_inv V ks udocs kdocs (map key_id (kdocs (us_db u))) st" .
  from server_runs_inv [OF assms(10,1) this] have i': "server_inv V ks udocs kdocs (map key_id (kdocs (us_db u))) st'" .
  have "server_metered ks kdocs k limit c0 n (acknowledged k (ingest_of st)) st"
    using assms(8,9) by (simp add: server_metered_def)
  from server_runs_metered [OF assms(10,1) i this]
  have "acknowledged k (ingest_of st) \<le> acknowledged k (ingest_of st')
    \<and> usage_hash (ks (sv_redis st')) (getKeyName k) k limit (c0 + int m)
    \<and> db_usage (kdocs (us_db (ig_usage (ingest_of st')))) k = Some (c0 + int (1000 * (m div 1000)))"
    unfolding server_metered_def metered_def ingest_of_redis assms(11) [symmetric] sync_interval_def by blast
  moreover have "wm_totalEvents (getActiveWindowMetrics (me_redis (se_metrics V)) t t (sv_redis st'))
        = Num (volume_total (active_jobs (se_metrics V) t (sv_counted st')))"
    using shared_window_total [OF M] i' by (simp add: server_inv_def)
  moreover have "session_validate (ae_redis (se_auth V)) t uid x (sv_redis st') \<longrightarrow> uid \<in> verified_ids (udocs (sv_users st'))"
    using i' by (auto simp: server_inv_def sessions_verified_def auth_of_def)
  ultimately show ?thesis by blast
qed

text \<open>In the witness the stream of \<open>demo_ready\<close> sends an event, which the metrics worker then counts.\<close>

definition demo_server_env :: "(keyspace, user_db, key_db) server_env" where
  "demo_server_env = \<lparr>se_auth = demo_env, se_ingest = demo_ingest_env, se_metrics = demo_menv\<rparr>"

definition demo_server :: "(keyspace, key_db) ingest \<Rightarrow> (keyspace, user_db, key_db) server" where
  "demo_server i = \<lparr>sv_redis = us_redis (ig_usage i), sv_users = db_empty, sv_mails = [], sv_ingest = i, sv_live = [],
     sv_lastActivity = 0, sv_taken = 0, sv_counted = []\<rparr>"

lemma ingest_of_demo_server: "ingest_of (demo_server i) = i"
  by (simp add: ingest_of_def demo_server_def)

lemma demo_server_runs: "ingest_runs demo_ingest_env ops i i' \<Longrightarrow> server_runs demo_server_env (demo_server i) (demo_server i')"
proof (induction rule: ingest_runs.induct)
  case (runs_snoc ops st st' now op st'')
  have "server_step demo_server_env now (demo_server st') ((demo_server st')\<lparr>sv_redis := us_redis (ig_usage st''), sv_ingest := st''\<rparr>)"
    using runs_snoc.hyps(2) by (intro server_step.server_ingest) (simp add: demo_server_env_def ingest_of_demo_server)
  then have "server_step demo_server_env now (demo_server st') (demo_server st'')" by (simp add: demo_server_def)
  with runs_snoc.IH show ?case by (rule server_snoc)
qed (rule server_refl)

definition demo_shared :: "(keyspace, user_db, key_db) server" where
  "demo_shared = (count_job demo_menv (demo_job 3000 ''a'' ''{}'') (demo_server demo_first))\<lparr>sv_taken := 1\<rparr>"

lemma demo_services: "services demo_server_env (\<lambda>K. K) db_docs key_docs"
  using demo_service demo_usage_service demo_metrics_service
  by (simp add: services_def demo_server_env_def same_redis_def demo_ingest_env_def) (simp add: demo_env_def demo_menv_def)

lemma demo_shared_runs: "server_runs demo_server_env (demo_server demo_ready) demo_shared"
proof (rule server_snoc [OF demo_server_runs [OF demo_ready_next]])
  have m: "ig_metrics demo_first = [(''u1'', demo_event ''a'' ''{}'')]"
    by (simp add: demo_first_def on_next_def demo_ready_eq demo_opened_eq md_set_def API_KEY_ID_def OWNER_ID_def ingest_start_def)
  show "server_step demo_server_env 3000 (demo_server demo_first) demo_shared"
    using server_step.server_metrics [of "demo_server demo_first" "demo_job 3000 ''a'' ''{}''" 3000 demo_server_env]
    by (simp add: demo_server_def m demo_job_def demo_server_env_def demo_shared_def)
qed

theorem services_share_one_redis_witness:
  "wm_totalEvents (getActiveWindowMetrics mem_redis 3000 3000 (sv_redis demo_shared)) = Num 1
    \<and> usage_hash (sv_redis demo_shared) (getKeyName ''k1'') ''k1'' 999 999
    \<and> db_usage (key_docs (us_db (ig_usage (ingest_of demo_shared)))) ''k1'' = Some 998"
proof -
  have s: "sv_redis (demo_server (ingest_start demo_usage)) = Map.empty" "sv_counted (demo_server i) = []"
    "sv_ingest (demo_server i) = i" for i
    by (simp_all add: demo_server_def ingest_start_def demo_usage_def)
  have i: "initialised ''k1'' (ingest_of (demo_server demo_ready))" by (simp add: ingest_of_demo_server initialised_def demo_ready_eq)
  have c: "sv_counted demo_shared = [demo_job 3000 ''a'' ''{}'']" "ingest_of demo_shared = demo_first\<lparr>ig_usage := (ig_usage demo_first)\<lparr>us_redis := sv_redis demo_shared\<rparr>\<rparr>"
    by (simp_all add: demo_shared_def count_job_def Let_def s) (simp add: ingest_of_def demo_server_def)
  have js: "active_jobs demo_menv 3000 [demo_job 3000 ''a'' ''{}''] = [demo_job 3000 ''a'' ''{}'']"
    by (simp add: active_jobs_def jobs_in_def demo_valid minute_ms_def) (simp add: demo_job_def)
  have v: "volume_total [demo_job 3000 ''a'' ''{}''] = 1"
    by (simp add: volume_total_def named_def demo_job_def demo_event_def)
  have a: "acknowledged ''k1'' (ingest_of demo_shared) = 1"
    using demo_acks(2) by (simp add: c acknowledged_def)
  have m: "metered (\<lambda>K. K) key_docs ''k1'' ''k1'' 999 998 0 (ig_usage (ingest_of (demo_server demo_ready)))"
    by (simp add: ingest_of_demo_server demo_ready_metered)
  let ?s0 = "demo_server (ingest_start demo_usage)"
  have e: "sv_redis ?s0 (getKey u) = None" "sv_redis ?s0 (family_key f t) = None" "own_hashes (sv_redis ?s0)" for u f t
    by (simp_all add: s(1) own_hashes_def own_hash_def)
  have "se_metrics demo_server_env = demo_menv" by (simp add: demo_server_env_def)
  with services_share_one_redis [OF demo_services e s(3) s(2) demo_server_runs [OF demo_ready_runs] i m demo_shared_runs refl,
      of 3000 "[]" None]
  show ?thesis by (simp add: ingest_of_demo_server demo_acks a c(1) js v demo_redis)
qed

end
