(* ===== verification/UsageScript.thy ===== *)
theory UsageScript
  imports EventsUsage ErrorsProps MailText
begin

text \<open>
  The usage counter's script and where it lives: \<^verbatim>\<open>onModuleInit\<close> of api-key-usage.service.ts has Redis cache the text of
  lua-scripts.constant.ts, and every increment names it by its SHA-1. Redis forgets its scripts when it restarts. The server of
  \<^verbatim>\<open>Events\<close> is extended by that cache, the rejected increments nobody awaits, and the process they are reported to.
\<close>

section \<open>The script\<close>

definition INCREMENT_USAGE_SCRIPT :: string where
  "INCREMENT_USAGE_SCRIPT = lines_text
    [[],
     ''  local key = KEYS[1]'',
     ''  local usageCount = redis.call(\"HINCRBY\", key, \"usageCount\", 1)'',
     ''  local data = redis.call(\"HMGET\", key, \"usageLimit\", \"active\", \"key\", \"ownerId\")'',
     ''  return {data[3], data[4], tostring(usageCount), data[1], data[2]}'',
     []]"

text \<open>
  The SHA-1 of a text and the execution of one, with a time and a key, on the keyspace; the translation of the one script
  the program has is \<open>increment_usage_script\<close>.
\<close>

record 's script_env =
  sc_sha1 :: "string \<Rightarrow> string"
  sc_lua :: "string \<Rightarrow> int \<Rightarrow> string \<Rightarrow> 's \<Rightarrow> string option list \<times> 's"

definition runs_script :: "'s script_env \<Rightarrow> 's redis \<Rightarrow> bool" where
  "runs_script L R = (sc_lua L INCREMENT_USAGE_SCRIPT = increment_usage_script R)"

definition noscript :: exn where
  "noscript = JsError ''NOSCRIPT No matching script. Please use EVAL.''"

text \<open>\<^verbatim>\<open>EVALSHA\<close>; the driver sends an undefined argument as the empty text.\<close>

definition evalsha ::
  "'s script_env \<Rightarrow> (string \<rightharpoonup> string) \<Rightarrow> string option \<Rightarrow> int \<Rightarrow> string \<Rightarrow> 's \<Rightarrow> string option list result \<times> 's" where
  "evalsha L scripts sha now key s =
     (case scripts (case sha of None \<Rightarrow> [] | Some h \<Rightarrow> h) of
        None \<Rightarrow> (Inl noscript, s)
      | Some t \<Rightarrow> (let (reply, s1) = sc_lua L t now key s in (Inr reply, s1)))"

text \<open>\<open>incrementUsage\<close> of \<^verbatim>\<open>ApiKey\<close> with the script looked up: a rejection leaves the counter and the database alone.\<close>

definition incrementUsage_sha ::
  "'s script_env \<Rightarrow> (string \<rightharpoonup> string) \<Rightarrow> string option \<Rightarrow> 'd api_key_model \<Rightarrow> int \<Rightarrow> string \<Rightarrow> ('s, 'd) usage_state
     \<Rightarrow> usage_report result \<times> ('s, 'd) usage_state" where
  "incrementUsage_sha L scripts sha M now apiKeyId st =
     (case evalsha L scripts sha now (getKeyName apiKeyId) (us_redis st) of
        (Inl e, s1) \<Rightarrow> (Inl e, st\<lparr>us_redis := s1\<rparr>)
      | (Inr reply, s1) \<Rightarrow> (let (report, st') = account_usage M apiKeyId reply (st\<lparr>us_redis := s1\<rparr>) in (Inr report, st')))"

lemma incrementUsage_sha_cached:
  "runs_script L R \<Longrightarrow> scripts h = Some INCREMENT_USAGE_SCRIPT \<Longrightarrow>
     incrementUsage_sha L scripts (Some h) M now k u = (let (report, u') = incrementUsage R M now k u in (Inr report, u'))"
  by (simp add: incrementUsage_sha_def evalsha_def runs_script_def incrementUsage_def split: prod.split)

lemma incrementUsage_sha_forgotten: "incrementUsage_sha L Map.empty sha M now k u = (Inl noscript, u)"
  by (simp add: incrementUsage_sha_def evalsha_def)

section \<open>The server with its script and its process\<close>

record ('s, 'd) counting_server =
  cs_ingest :: "('s, 'd) ingest"
  cs_scriptSha :: "string option"
  cs_scripts :: "string \<rightharpoonup> string"
  cs_rejections :: nat
  cs_process :: process

definition onModuleInit :: "'s script_env \<Rightarrow> ('s, 'd) counting_server \<Rightarrow> ('s, 'd) counting_server" where
  "onModuleInit L cs =
     (let sha = sc_sha1 L INCREMENT_USAGE_SCRIPT in
      cs\<lparr>cs_scripts := (cs_scripts cs)(sha \<mapsto> INCREMENT_USAGE_SCRIPT), cs_scriptSha := Some sha\<rparr>)"

definition counting_start :: "('s, 'd) usage_state \<Rightarrow> ('s, 'd) counting_server" where
  "counting_start u = \<lparr>cs_ingest = ingest_start u, cs_scriptSha = None, cs_scripts = Map.empty, cs_rejections = 0,
     cs_process = running\<rparr>"

text \<open>The handler of an event is that of \<^verbatim>\<open>Events\<close> but for the increment, whose promise is dropped.\<close>

definition next_event ::
  "'s script_env \<Rightarrow> ('s, 'd) ingest_env \<Rightarrow> int \<Rightarrow> nat \<Rightarrow> event_request \<Rightarrow> ('s, 'd) counting_server \<Rightarrow> ('s, 'd) counting_server" where
  "next_event L N now i event cs =
     (let st = cs_ingest cs; apiKeyId = stream_key (ig_streams st ! i);
          (r, u) = incrementUsage_sha L (cs_scripts cs) (cs_scriptSha cs) (ie_keys N) now apiKeyId (ig_usage st)
      in cs\<lparr>cs_ingest := (snd (on_next N now i event st))\<lparr>ig_usage := u\<rparr>,
            cs_rejections := cs_rejections cs + (if isl r then 1 else 0)\<rparr>)"

datatype counting_op = Ingest ingest_op | RedisRestart | ReportRejection

fun is_event :: "counting_op \<Rightarrow> bool" where
  "is_event (Ingest (Next i event)) = True"
| "is_event _ = False"

text \<open>
  Steps of a process that has not exited. A restart of Redis keeps the data but not the scripts; a rejected increment is
  reported to the process, which in production shuts down.
\<close>

inductive counting_step ::
  "'s script_env \<Rightarrow> ('s, 'd) ingest_env \<Rightarrow> bool \<Rightarrow> int \<Rightarrow> counting_op \<Rightarrow> ('s, 'd) counting_server \<Rightarrow> ('s, 'd) counting_server \<Rightarrow> bool"
  for L :: "'s script_env" and N :: "('s, 'd) ingest_env" and production :: bool and now :: int where
  count_event: "pr_exit (cs_process cs) = None \<Longrightarrow> i < length (ig_streams (cs_ingest cs)) \<Longrightarrow>
    sm_error (ig_streams (cs_ingest cs) ! i) = None \<Longrightarrow>
    counting_step L N production now (Ingest (Next i event)) cs (next_event L N now i event cs)"
| count_other: "pr_exit (cs_process cs) = None \<Longrightarrow> \<not> is_event (Ingest op) \<Longrightarrow> ingest_step N now op (cs_ingest cs) st \<Longrightarrow>
    counting_step L N production now (Ingest op) cs (cs\<lparr>cs_ingest := st\<rparr>)"
| count_restart: "pr_exit (cs_process cs) = None \<Longrightarrow>
    counting_step L N production now RedisRestart cs (cs\<lparr>cs_scripts := Map.empty\<rparr>)"
| count_report: "pr_exit (cs_process cs) = None \<Longrightarrow> cs_rejections cs = Suc n \<Longrightarrow>
    counting_step L N production now ReportRejection cs (cs\<lparr>cs_rejections := n,
      cs_process := turn production (now, UnhandledRejection (exn_message noscript)) (cs_process cs)\<rparr>)"

inductive counting_runs ::
  "'s script_env \<Rightarrow> ('s, 'd) ingest_env \<Rightarrow> bool \<Rightarrow> (int \<times> counting_op) list \<Rightarrow> ('s, 'd) counting_server \<Rightarrow> ('s, 'd) counting_server \<Rightarrow> bool"
  for L :: "'s script_env" and N :: "('s, 'd) ingest_env" and production :: bool where
  counting_nil: "counting_runs L N production [] cs cs"
| counting_snoc: "counting_runs L N production ops cs cs' \<Longrightarrow> counting_step L N production now op cs' cs'' \<Longrightarrow>
    counting_runs L N production (ops @ [(now, op)]) cs cs''"

fun ingest_ops :: "(int \<times> counting_op) list \<Rightarrow> (int \<times> ingest_op) list" where
  "ingest_ops [] = []"
| "ingest_ops ((now, Ingest op) # ops) = (now, op) # ingest_ops ops"
| "ingest_ops (_ # ops) = ingest_ops ops"

lemma ingest_ops_append [simp]: "ingest_ops (xs @ ys) = ingest_ops xs @ ingest_ops ys"
  by (induction xs rule: ingest_ops.induct) simp_all

section \<open>While Redis keeps the script\<close>

definition script_ready :: "'s script_env \<Rightarrow> ('s, 'd) counting_server \<Rightarrow> bool" where
  "script_ready L cs = (cs_scriptSha cs = Some (sc_sha1 L INCREMENT_USAGE_SCRIPT)
     \<and> cs_scripts cs (sc_sha1 L INCREMENT_USAGE_SCRIPT) = Some INCREMENT_USAGE_SCRIPT
     \<and> cs_rejections cs = 0 \<and> cs_process cs = running)"

lemma ready_start: "script_ready L (onModuleInit L (counting_start u))"
  by (simp add: script_ready_def onModuleInit_def counting_start_def Let_def)

lemma ready_event:
  assumes "runs_script L (ie_redis N)" and "script_ready L cs" and "streams_ok (cs_ingest cs)" and "i < length (ig_streams (cs_ingest cs))"
  shows "next_event L N now i event cs = cs\<lparr>cs_ingest := snd (on_next N now i event (cs_ingest cs))\<rparr>"
  using assms(2)
  by (simp add: next_event_def script_ready_def incrementUsage_sha_cached [OF assms(1)] on_next_open [OF assms(3,4)] Let_def
      split_beta)

lemma ready_step:
  assumes "runs_script L (ie_redis N)" and "counting_step L N production now op cs cs'" and "op \<noteq> RedisRestart"
    and "script_ready L cs" and "streams_ok (cs_ingest cs)"
  shows "script_ready L cs' \<and> (\<exists>op'. op = Ingest op' \<and> ingest_step N now op' (cs_ingest cs) (cs_ingest cs'))"
  using assms(2)
proof cases
  case (count_event i event)
  then show ?thesis
    using ready_event [OF assms(1,4,5) count_event(4)] assms(4) next_step [of i "cs_ingest cs" N now event]
    by (simp add: script_ready_def)
qed (use assms(3,4) in \<open>simp_all add: script_ready_def\<close>)

lemma ready_runs:
  assumes "counting_runs L N production ops (onModuleInit L (counting_start u)) cs" and "RedisRestart \<notin> snd ` set ops"
    and "runs_script L (ie_redis N)" and "usage_service (ie_redis N) ks (ie_keys N) docs" and "own_hashes (ks (us_redis u))"
  shows "script_ready L cs \<and> ingest_runs N (ingest_ops ops) (ingest_start u) (cs_ingest cs)"
  using assms(1,2)
proof (induction ops "onModuleInit L (counting_start u)" cs rule: counting_runs.induct)
  case counting_nil
  show ?case using ready_start [of L u] runs_nil [of N "ingest_start u"] by (simp add: onModuleInit_def counting_start_def Let_def)
next
  case (counting_snoc ops cs' now op cs'')
  then have IH: "script_ready L cs'" "ingest_runs N (ingest_ops ops) (ingest_start u) (cs_ingest cs')" by simp_all
  have "streams_ok (cs_ingest cs')"
    using usage_service.runs_own [OF assms(4) IH(2) refl refl assms(5)] by (simp add: ingest_inv_def)
  from ready_step [OF assms(3) counting_snoc(3) _ IH(1) this] counting_snoc.prems
  obtain op' where "script_ready L cs''" "op = Ingest op'" "ingest_step N now op' (cs_ingest cs') (cs_ingest cs'')" by auto
  then show ?case using runs_snoc [OF IH(2)] by simp
qed

section \<open>After Redis has forgotten it\<close>

definition forgotten :: "('s, 'd) counting_server \<Rightarrow> bool" where
  "forgotten cs = (cs_scripts cs = Map.empty \<and> pr_timers (cs_process cs) = [] \<and> pr_pending (cs_process cs) = 0)"

definition responses :: "('s, 'd) ingest \<Rightarrow> nat" where
  "responses st = sum_list (map (\<lambda>s. length (sm_responses s)) (ig_streams st))"

text \<open>Only an event adds to the log, the responses and the acknowledged events of a key.\<close>

lemma quiet_step:
  assumes "ingest_step N now op st st'" and "\<not> is_event (Ingest op)"
  shows "acknowledged k st' = acknowledged k st \<and> ig_metrics st' = ig_metrics st"
  using assms
  by cases
    (auto simp: open_stream_def on_error_def run_task_def Let_def acknowledged_def acks_of_def stream_key_def
      map_update_same split: sum.split option.split)

lemma inv_responses: "ingest_inv ids docs st \<Longrightarrow> responses st = length (ig_metrics st)"
  by (simp add: ingest_inv_def sinks_agree_def responses_def)

lemma forgotten_event:
  fixes L :: "'s script_env" and N :: "('s, 'd) ingest_env" and now :: int and event :: event_request
  assumes "forgotten cs" and "ingest_inv ids docs (cs_ingest cs)" and "i < length (ig_streams (cs_ingest cs))"
  defines "st' \<equiv> cs_ingest (next_event L N now i event cs)"
  shows "cs_scripts (next_event L N now i event cs) = cs_scripts cs" "cs_process (next_event L N now i event cs) = cs_process cs"
      "cs_rejections (next_event L N now i event cs) = Suc (cs_rejections cs)"
    and "ig_usage st' = ig_usage (cs_ingest cs)" and "ig_tasks st' = ig_tasks (cs_ingest cs)"
    and "length (ig_metrics st') = Suc (length (ig_metrics (cs_ingest cs)))" and "ingest_inv ids docs st'"
proof -
  let ?st = "cs_ingest cs"
  have ok: "streams_ok ?st" "sinks_agree ?st" using assms(2) by (simp_all add: ingest_inv_def)
  have st': "st' = (snd (on_next N now i event ?st))\<lparr>ig_usage := ig_usage ?st\<rparr>"
    using assms(1) by (simp add: st'_def next_event_def forgotten_def incrementUsage_sha_forgotten Let_def)
  show "cs_scripts (next_event L N now i event cs) = cs_scripts cs" "cs_process (next_event L N now i event cs) = cs_process cs"
      "cs_rejections (next_event L N now i event cs) = Suc (cs_rejections cs)"
    using assms(1) by (simp_all add: next_event_def forgotten_def incrementUsage_sha_forgotten Let_def)
  show "ig_usage st' = ig_usage ?st" "ig_tasks st' = ig_tasks ?st" "length (ig_metrics st') = Suc (length (ig_metrics ?st))"
    by (simp_all add: st' on_next_open [OF ok(1) assms(3)])
  have "streams_ok (snd (on_next N now i event ?st))"
    using ok(1) assms(3) by (auto simp: on_next_open [OF ok(1) assms(3)] streams_ok_def map_update_same simp flip: set_map)
  moreover have "sinks_agree (snd (on_next N now i event ?st))" using next_sinks [OF ok assms(3)] .
  ultimately show "ingest_inv ids docs st'"
    using assms(2) by (simp add: st' ingest_inv_def streams_ok_def sinks_agree_def)
qed

definition number_of :: "(counting_op \<Rightarrow> bool) \<Rightarrow> (int \<times> counting_op) list \<Rightarrow> nat" where
  "number_of p ops = length (filter (\<lambda>x. p (snd x)) ops)"

context usage_service
begin

lemma forgotten_step:
  assumes "counting_step L N production now op cs cs'" and "ie_redis N = R" and "ie_keys N = M" and "forgotten cs"
    and "ingest_inv ids docs (cs_ingest cs)" and "own_hashes (ks (us_redis (ig_usage (cs_ingest cs))))"
    and "initialised k (cs_ingest cs)" and "metered ks docs k k limit c0 n (ig_usage (cs_ingest cs))"
  shows "(pr_exit (cs_process cs') = None \<longrightarrow> forgotten cs') \<and> ingest_inv ids docs (cs_ingest cs')
    \<and> own_hashes (ks (us_redis (ig_usage (cs_ingest cs')))) \<and> initialised k (cs_ingest cs')
    \<and> metered ks docs k k limit c0 n (ig_usage (cs_ingest cs'))
    \<and> length (ig_metrics (cs_ingest cs')) = length (ig_metrics (cs_ingest cs)) + (if is_event op then 1 else 0)
    \<and> cs_rejections cs' + (if op = ReportRejection then 1 else 0) = cs_rejections cs + (if is_event op then 1 else 0)
    \<and> pr_exit (cs_process cs') = (if production \<and> op = ReportRejection then Some 0 else None)"
  using assms(1)
proof cases
  case (count_event i event)
  note e = forgotten_event [OF assms(4,5) count_event(4), of L N now event]
  have "forgotten cs'" using assms(4) by (simp add: count_event(2) e(1,2) forgotten_def)
  then show ?thesis
    using assms(6-8) e(7) count_event(3) by (simp add: count_event(1,2) initialised_def e(2-6))
next
  case (count_other op' st)
  have ok: "streams_ok (cs_ingest cs)" using assms(5) by (simp add: ingest_inv_def)
  have m: "metered ks docs k k limit c0 (n + (acknowledged k (cs_ingest cs) - acknowledged k (cs_ingest cs))) (ig_usage (cs_ingest cs))"
    using assms(8) by simp
  note q = quiet_step [OF count_other(5,4), of k]
  have "forgotten (cs\<lparr>cs_ingest := st\<rparr>)" using assms(4) by (simp add: forgotten_def)
  then show ?thesis
    using step_own [OF count_other(5) assms(2,3) ok assms(6)] step_inv [OF count_other(5) assms(3,5)]
      step_metered [OF count_other(5) assms(2,3) ok assms(6,7) m order_refl] q count_other(3,4)
    by (simp add: count_other(1,2))
next
  case count_restart
  then show ?thesis using assms(4-8) by (simp add: forgotten_def)
next
  case (count_report j)
  have p: "pr_timers (cs_process cs) = []" "pr_pending (cs_process cs) = 0" using assms(4) by (simp_all add: forgotten_def)
  let ?x = "(now, UnhandledRejection (exn_message noscript))"
  have "pr_exit (turn production ?x (cs_process cs)) = (if production then Some 0 else None)"
    using turn_running(1) [OF count_report(3) p, of production ?x] by (simp add: shuts_down_def)
  moreover have "\<not> production \<Longrightarrow> turn production ?x (cs_process cs) = cs_process cs"
    using turn_running(2) [OF count_report(3) p, of production ?x] by (simp add: shuts_down_def)
  ultimately show ?thesis using assms(4-8) by (auto simp: count_report(1,2,4) forgotten_def)
qed

lemma forgotten_runs:
  assumes "counting_runs L N production ops cs cs'" and "ie_redis N = R" and "ie_keys N = M" and "forgotten cs"
    and "pr_exit (cs_process cs) = None" and "ingest_inv ids docs (cs_ingest cs)"
    and "own_hashes (ks (us_redis (ig_usage (cs_ingest cs))))"
    and "initialised k (cs_ingest cs)" and "metered ks docs k k limit c0 n (ig_usage (cs_ingest cs))"
  shows "(pr_exit (cs_process cs') = None \<longrightarrow> forgotten cs') \<and> ingest_inv ids docs (cs_ingest cs')
    \<and> own_hashes (ks (us_redis (ig_usage (cs_ingest cs')))) \<and> initialised k (cs_ingest cs')
    \<and> metered ks docs k k limit c0 n (ig_usage (cs_ingest cs'))
    \<and> length (ig_metrics (cs_ingest cs')) = length (ig_metrics (cs_ingest cs)) + number_of is_event ops
    \<and> cs_rejections cs' + number_of ((=) ReportRejection) ops = cs_rejections cs + number_of is_event ops
    \<and> pr_exit (cs_process cs') = (if production \<and> ReportRejection \<in> snd ` set ops then Some 0 else None)"
  using assms
proof (induction rule: counting_runs.induct)
  case counting_nil
  then show ?case by (simp add: number_of_def)
next
  case (counting_snoc ops cs cs' now op cs'')
  note IH = counting_snoc.IH [OF counting_snoc.prems]
  have run: "pr_exit (cs_process cs') = None" using counting_snoc.hyps(2) by (cases rule: counting_step.cases) simp_all
  then have no: "\<not> (production \<and> ReportRejection \<in> snd ` set ops)" using IH by (auto split: if_splits)
  have "forgotten cs'" "ingest_inv ids docs (cs_ingest cs')" "own_hashes (ks (us_redis (ig_usage (cs_ingest cs'))))"
    "initialised k (cs_ingest cs')" "metered ks docs k k limit c0 n (ig_usage (cs_ingest cs'))"
    using IH run by blast+
  from forgotten_step [OF counting_snoc.hyps(2) counting_snoc.prems(1,2) this] IH no
  show ?case by (auto simp: number_of_def split: if_splits)
qed

end

section \<open>Property\<close>

text \<open>
  C7: A restart of Redis ends the metering. Until then, with the script loaded at the start, the server is that of \<open>Events\<close> and its
  process runs. From then on every event of an open stream is still acknowledged and handed to the consumers, but each increment
  is rejected: whatever happens, the count of a key in Redis and in the database stays what it was. In production the first rejection to
  be reported ends the process, with code 0; otherwise it goes on like this.
\<close>

theorem redis_restart_ends_the_metering:
  assumes "usage_service (ie_redis N) ks (ie_keys N) docs" and "runs_script L (ie_redis N)" and "own_hashes (ks (us_redis u))"
    and "counting_runs L N production ops (onModuleInit L (counting_start u)) cs" and "RedisRestart \<notin> snd ` set ops"
    and "initialised k (cs_ingest cs)" and "metered ks docs k k limit c0 n (ig_usage (cs_ingest cs))"
    and "counting_step L N production now RedisRestart cs cs1" and "counting_runs L N production ops' cs1 cs'"
  shows "ingest_runs N (ingest_ops ops) (ingest_start u) (cs_ingest cs) \<and> pr_exit (cs_process cs) = None
    \<and> metered ks docs k k limit c0 n (ig_usage (cs_ingest cs'))
    \<and> responses (cs_ingest cs') = responses (cs_ingest cs) + number_of is_event ops'
    \<and> length (ig_metrics (cs_ingest cs')) = length (ig_metrics (cs_ingest cs)) + number_of is_event ops'
    \<and> cs_rejections cs' + number_of ((=) ReportRejection) ops' = number_of is_event ops'
    \<and> pr_exit (cs_process cs') = (if production \<and> ReportRejection \<in> snd ` set ops' then Some 0 else None)"
proof -
  have r: "script_ready L cs" "ingest_runs N (ingest_ops ops) (ingest_start u) (cs_ingest cs)"
    using ready_runs [OF assms(4,5,2,1,3)] by simp_all
  have cs1: "cs1 = cs\<lparr>cs_scripts := Map.empty\<rparr>" using assms(8) by cases simp
  have p: "pr_exit (cs_process cs1) = None" "forgotten cs1" "cs_rejections cs1 = 0" "cs_ingest cs1 = cs_ingest cs"
    using r(1) by (simp_all add: cs1 script_ready_def running_def forgotten_def)
  note i = usage_service.runs_own [OF assms(1) r(2) refl refl assms(3), folded p(4)]
  note f = usage_service.forgotten_runs [OF assms(1,9) refl refl p(2,1) conjunct2 [OF i] conjunct1 [OF i],
      unfolded p(4), OF assms(6,7)]
  have "responses (cs_ingest cs') = length (ig_metrics (cs_ingest cs'))" "responses (cs_ingest cs) = length (ig_metrics (cs_ingest cs))"
    using inv_responses f conjunct2 [OF i] p(4) by (metis, metis)
  with f r(2) p show ?thesis by (simp add: cs1)
qed

text \<open>In the witness the stream of \<open>demo_ready\<close> is open at count 998 when Redis restarts, and sends an event.\<close>

definition demo_script_env :: "keyspace script_env" where
  "demo_script_env = \<lparr>sc_sha1 = (\<lambda>t. ''sha''), sc_lua = (\<lambda>t. increment_usage_script mem_redis)\<rparr>"

definition demo_counting :: "(keyspace, key_db) ingest \<Rightarrow> (keyspace, key_db) counting_server" where
  "demo_counting i = (onModuleInit demo_script_env (counting_start demo_usage))\<lparr>cs_ingest := i\<rparr>"

lemma demo_counting_start: "demo_counting (ingest_start demo_usage) = onModuleInit demo_script_env (counting_start demo_usage)"
  by (simp add: demo_counting_def onModuleInit_def counting_start_def Let_def)

lemma demo_counting_fields: "cs_ingest (demo_counting i) = i" "pr_exit (cs_process (demo_counting i)) = None"
  by (simp_all add: demo_counting_def onModuleInit_def counting_start_def running_def Let_def)

lemma demo_counting_runs:
  "ingest_runs demo_ingest_env ops i i' \<Longrightarrow> \<forall>x \<in> set ops. \<not> is_event (Ingest (snd x)) \<Longrightarrow>
     counting_runs demo_script_env demo_ingest_env True (map (\<lambda>(t, op). (t, Ingest op)) ops) (demo_counting i) (demo_counting i')"
proof (induction rule: ingest_runs.induct)
  case (runs_snoc ops st st' now op st'')
  then have "counting_step demo_script_env demo_ingest_env True now (Ingest op) (demo_counting st') (demo_counting st'\<lparr>cs_ingest := st''\<rparr>)"
    by (intro count_other) (simp_all add: demo_counting_fields)
  moreover have "demo_counting st'\<lparr>cs_ingest := st''\<rparr> = demo_counting st''" by (simp add: demo_counting_def)
  ultimately show ?case using runs_snoc by (auto intro: counting_snoc)
qed (simp add: counting_nil)

theorem redis_restart_ends_the_metering_witness:
  "\<exists>cs :: (keyspace, key_db) counting_server. usage_hash (us_redis (ig_usage (cs_ingest cs))) (getKeyName ''k1'') ''k1'' 999 998
    \<and> responses (cs_ingest cs) = Suc (responses demo_ready) \<and> pr_exit (cs_process cs) = Some 0"
proof -
  let ?e = "Next 0 (demo_event ''a'' ''{}'')"
  define cs0 cs1 where "cs0 = demo_counting demo_ready" and "cs1 = cs0\<lparr>cs_scripts := Map.empty\<rparr>"
  define cs2 where "cs2 = next_event demo_script_env demo_ingest_env 4 0 (demo_event ''a'' ''{}'') cs1"
  have s: "usage_service (ie_redis demo_ingest_env) (\<lambda>K. K) (ie_keys demo_ingest_env) key_docs"
    by (simp add: demo_ingest_env_def demo_usage_service)
  have l: "runs_script demo_script_env (ie_redis demo_ingest_env)"
    by (simp add: runs_script_def demo_script_env_def demo_ingest_env_def)
  have o: "own_hashes (us_redis demo_usage)" by (simp add: own_hashes_def own_hash_def demo_usage_def)
  have r: "counting_runs demo_script_env demo_ingest_env True [(1, Ingest (OpenStream demo_md)), (2, Ingest (TaskStep 0)), (2, Ingest (TaskStep 0))]
      (onModuleInit demo_script_env (counting_start demo_usage)) cs0"
    using demo_counting_runs [OF demo_ready_runs] by (simp add: demo_counting_start cs0_def)
  have i: "initialised ''k1'' (cs_ingest cs0)" "metered (\<lambda>K. K) key_docs ''k1'' ''k1'' 999 998 0 (ig_usage (cs_ingest cs0))"
    using demo_ready_metered by (simp_all add: cs0_def demo_counting_fields) (simp add: initialised_def demo_ready_eq)
  have c: "cs_ingest cs1 = demo_ready" "pr_exit (cs_process cs1) = None" "cs_scripts cs1 = Map.empty" "cs_rejections cs1 = 0"
    by (simp_all add: cs1_def cs0_def demo_counting_def onModuleInit_def counting_start_def running_def Let_def)
  have d: "cs_rejections cs2 = Suc 0" "pr_exit (cs_process cs2) = None"
    by (simp_all add: cs2_def next_event_def c incrementUsage_sha_forgotten Let_def)
  have t: "counting_step demo_script_env demo_ingest_env True 3 RedisRestart cs0 cs1"
    unfolding cs1_def by (rule count_restart) (simp add: cs0_def demo_counting_fields)
  have n: "counting_step demo_script_env demo_ingest_env True 4 (Ingest ?e) cs1 cs2"
    unfolding cs2_def by (rule count_event) (simp_all add: c demo_ready_eq demo_opened_eq)
  note p = count_report [OF d(2,1), of demo_script_env demo_ingest_env True 5]
  have r': "counting_runs demo_script_env demo_ingest_env True [(4, Ingest ?e), (5, ReportRejection)] cs1
      (cs2\<lparr>cs_rejections := 0, cs_process := turn True (5, UnhandledRejection (exn_message noscript)) (cs_process cs2)\<rparr>)"
    using counting_snoc [OF counting_snoc [OF counting_nil n] p] by simp
  from redis_restart_ends_the_metering [OF s l o r _ i t r']
  show ?thesis
    by - (rule exI [of _ "cs2\<lparr>cs_rejections := 0, cs_process := turn True (5, UnhandledRejection (exn_message noscript)) (cs_process cs2)\<rparr>"],
      simp add: number_of_def metered_def cs0_def demo_counting_fields)
qed

end
