(* ===== verification/UsageRestart.thy ===== *)
theory UsageRestart
  imports EventsUsage
begin

text \<open>
  The usage counter over restarts of the server. The hash of a key and the key itself outlive the process; the map that counts the
  uses since the last write-back (\<^verbatim>\<open>syncCounter\<close> of api-key-usage.service.ts) does not.
\<close>

section \<open>Lifetimes of the server\<close>

definition usage_constructor :: "'s \<Rightarrow> 'd \<Rightarrow> ('s, 'd) usage_state" where
  "usage_constructor redis apiKeyRepository = \<lparr>us_redis = redis, us_sync = Map.empty, us_db = apiKeyRepository\<rparr>"

text \<open>A lifetime: a stream is opened with the key as the database has it, and sends events at the times \<open>ts\<close>.\<close>

definition lifetime ::
  "'s redis \<Rightarrow> 'd api_key_model \<Rightarrow> string \<Rightarrow> int \<times> api_key \<times> int list \<Rightarrow> ('s, 'd) usage_state \<Rightarrow> ('s, 'd) usage_state" where
  "lifetime R M k l st =
     (let (now, a, ts) = l; u = usage_constructor (us_redis st) (us_db st)
      in increments R M k ts (u\<lparr>us_redis := initializeApiKeyUsage R now k (status_of a) (us_redis u)\<rparr>))"

definition uses :: "int \<times> api_key \<times> int list \<Rightarrow> nat" where
  "uses l = length (snd (snd l))"

text \<open>The count last written back: the last multiple of 1000, counted from a restart, that a lifetime reaches.\<close>

fun last_written :: "int \<Rightarrow> int \<Rightarrow> nat list \<Rightarrow> int" where
  "last_written d c [] = d"
| "last_written d c (n # ns) = last_written (if n < 1000 then d else c + int (1000 * (n div 1000))) (c + int n) ns"

lemma last_written_none: "\<forall>n \<in> set ns. n < 1000 \<Longrightarrow> last_written d c ns = d"
  by (induction ns arbitrary: c) simp_all

context usage_service
begin

lemma increments_counted:
  "counted ks docs k key limit c n d st \<Longrightarrow> n < sync_interval \<Longrightarrow>
     counted ks docs k key limit (c + int (length ts)) ((n + length ts) mod sync_interval)
       (if n + length ts < sync_interval then d else c - int n + int (sync_interval * ((n + length ts) div sync_interval)))
       (increments R M k ts st)"
proof (induction ts arbitrary: c n d st)
  case (Cons now ts)
  let ?st = "snd (incrementUsage R M now k st)"
  note i = increment_counted(1) [OF Cons.prems, of now]
  show ?case
  proof (cases "Suc n = sync_interval")
    case True
    then have z: "(n + length (now # ts)) mod sync_interval = length ts mod sync_interval"
      "(n + length (now # ts)) div sync_interval = Suc (length ts div sync_interval)"
      "\<not> n + length (now # ts) < sync_interval"
      using div_add_self1 [of sync_interval "length ts"] by (simp_all add: sync_interval_def)
    have "counted ks docs k key limit (c + 1) 0 (c + 1) ?st" using i True by simp
    from Cons.IH [OF this] have
      "counted ks docs k key limit (c + 1 + int (length ts)) (length ts mod sync_interval)
         (c + 1 + int (sync_interval * (length ts div sync_interval))) (increments R M k ts ?st)"
      by (cases "length ts < sync_interval") (simp_all add: sync_interval_def)
    moreover have "c + 1 + int (sync_interval * (length ts div sync_interval))
        = c - int n + int (sync_interval * ((n + length (now # ts)) div sync_interval))"
    proof -
      have "int sync_interval = int n + 1" using True by simp
      then show ?thesis unfolding z(2) mult_Suc_right of_nat_add by linarith
    qed
    moreover have "c + int (length (now # ts)) = c + 1 + int (length ts)" by simp
    ultimately show ?thesis using z(1,3) by (simp only: increments.simps if_False)
  next
    case False
    with Cons.prems(2) have n: "Suc n < sync_interval" "Suc n mod sync_interval = Suc n" by simp_all
    have "counted ks docs k key limit (c + 1) (Suc n) d ?st" using i False n(2) by simp
    from Cons.IH [OF this n(1)] show ?thesis
      by (cases "Suc (n + length ts) < sync_interval") (simp_all add: algebra_simps)
  qed
qed simp

lemma lifetime_counted:
  assumes "counted ks docs k key limit c n d st"
  shows "\<exists>n'. counted ks docs k key limit (c + int (uses l)) n' (if uses l < 1000 then d else c + int (1000 * (uses l div 1000)))
    (lifetime R M k l st)"
proof -
  obtain now a ts where l: "l = (now, a, ts)" by (cases l)
  let ?u = "usage_constructor (us_redis st) (us_db st)"
  have "init_check R now k (us_redis st)"
    using assms usage_hash_live [of "us_redis st" "getKeyName k" key limit c now]
    by (auto simp: counted_def init_check_def rd_exists)
  then have e: "lifetime R M k l st = increments R M k ts ?u"
    by (simp add: lifetime_def l usage_constructor_def initializeApiKeyUsage_def init_write_def)
  have "counted ks docs k key limit c 0 d ?u" using assms by (simp add: counted_def usage_constructor_def sync_count_def)
  from increments_counted [OF this, of ts] show ?thesis
    unfolding e by (auto simp: uses_def l sync_interval_def)
qed

lemma lifetimes_counted:
  "counted ks docs k key limit c n d st \<Longrightarrow>
     \<exists>n'. counted ks docs k key limit (c + int (sum_list (map uses ls))) n' (last_written d c (map uses ls)) (fold (lifetime R M k) ls st)"
proof (induction ls arbitrary: c n d st)
  case (Cons l ls)
  from lifetime_counted [OF Cons.prems, of l] Cons.IH show ?case by (fastforce simp: add.assoc)
qed auto

lemma first_lifetime:
  assumes "ks (us_redis st) (getKeyName (ak_key a)) = None" and "find (has_key (ak_key a)) (docs (us_db st)) = Some a"
  shows "lifetime R M (ak_key a) (now, a, ts) st
    = lifetime R M (ak_key a) (now, a, ts) ((usage_constructor (us_redis st) (us_db st))\<lparr>us_redis :=
        initializeApiKeyUsage R now (ak_key a) (status_of a) (us_redis st)\<rparr>)"
    and "counted ks docs (ak_key a) (ak_key a) (ak_usageLimit a) (ak_usageCount a) 0 (ak_usageCount a)
      ((usage_constructor (us_redis st) (us_db st))\<lparr>us_redis := initializeApiKeyUsage R now (ak_key a) (status_of a) (us_redis st)\<rparr>)"
proof -
  let ?u = "usage_constructor (us_redis st) (us_db st)"
  let ?s = "initializeApiKeyUsage R now (ak_key a) (status_of a) (us_redis st)"
  have m: "metered ks docs (ak_key a) (ak_key a) (ak_usageLimit a) (ak_usageCount a) 0 (?u\<lparr>us_redis := ?s\<rparr>)"
    using initialize_metered [of ?u "ak_key a" a now] assms by (simp add: usage_constructor_def)
  then show "counted ks docs (ak_key a) (ak_key a) (ak_usageLimit a) (ak_usageCount a) 0 (ak_usageCount a) (?u\<lparr>us_redis := ?s\<rparr>)"
    by (simp add: metered_counted)
  have "init_check R now (ak_key a) ?s"
    using m usage_hash_live [of ?s "getKeyName (ak_key a)" "ak_key a" "ak_usageLimit a" "ak_usageCount a" now]
    by (auto simp: metered_def init_check_def rd_exists)
  then have "initializeApiKeyUsage R now (ak_key a) (status_of a) ?s = ?s"
    by (subst initializeApiKeyUsage_def) (simp add: init_write_def)
  then show "lifetime R M (ak_key a) (now, a, ts) st = lifetime R M (ak_key a) (now, a, ts) (?u\<lparr>us_redis := ?s\<rparr>)"
    by (simp add: lifetime_def usage_constructor_def)
qed

end

section \<open>Property\<close>

text \<open>
  C33: Restarts can hide all use of a key. A key is stored and not yet in Redis; the server lives through any number of lifetimes, each
  with a stream of the key and any number of events. Then Redis counts all of them, but the database, and with it the check that a new
  stream has to pass, only knows the last multiple of 1000 that some lifetime reached: if each lifetime has fewer than 1000, the
  database still has the count of the beginning, and the key validates exactly as at the beginning, however often it was used.
\<close>

theorem restarts_hide_use:
  assumes "usage_service R ks M docs" and "ks (us_redis st) (getKeyName (ak_key a)) = None"
    and "find (has_key (ak_key a)) (docs (us_db st)) = Some a"
    and "st' = fold (lifetime R M (ak_key a)) ((now, a, ts) # ls) st" and "ns = map uses ((now, a, ts) # ls)"
    and "repo_findApiKey M (ak_key a) (us_db st') = Inr (Some b)" and "ak_active b" and "ak_usageLimit b = ak_usageLimit a"
  shows "usage_hash (ks (us_redis st')) (getKeyName (ak_key a)) (ak_key a) (ak_usageLimit a) (ak_usageCount a + int (sum_list ns))
    \<and> db_usage (docs (us_db st')) (ak_key a) = Some (last_written (ak_usageCount a) (ak_usageCount a) ns)
    \<and> (validateApiKey M (ak_key a) (us_db st') = Inr b
         \<longleftrightarrow> last_written (ak_usageCount a) (ak_usageCount a) ns < ak_usageLimit a)
    \<and> ((\<forall>n \<in> set ns. n < 1000) \<longrightarrow>
         (validateApiKey M (ak_key a) (us_db st') = Inr b \<longleftrightarrow> ak_usageCount a < ak_usageLimit a))"
proof -
  note f = usage_service.first_lifetime [OF assms(1-3)]
  from usage_service.lifetimes_counted [OF assms(1) f(2) [of now], of "(now, a, ts) # ls"]
  have c: "usage_hash (ks (us_redis st')) (getKeyName (ak_key a)) (ak_key a) (ak_usageLimit a) (ak_usageCount a + int (sum_list ns))"
    "db_usage (docs (us_db st')) (ak_key a) = Some (last_written (ak_usageCount a) (ak_usageCount a) ns)"
    unfolding assms(4,5) fold_simps f(1) [of now ts] counted_def by (auto simp: o_def)
  have "find (has_key (ak_key a)) (docs (us_db st')) = Some b"
    using usage_service.axioms(2) [OF assms(1), THEN api_key_collection.akm_findOne] assms(6) by (metis repo_findApiKey_def)
  with c(2) have "ak_usageCount b = last_written (ak_usageCount a) (ak_usageCount a) ns" by (simp add: db_usage_def)
  then have v: "validateApiKey M (ak_key a) (us_db st') = Inr b \<longleftrightarrow> last_written (ak_usageCount a) (ak_usageCount a) ns < ak_usageLimit a"
    using assms(6-8) by (simp add: validateApiKey_def)
  show ?thesis using c v last_written_none [of ns "ak_usageCount a" "ak_usageCount a"] by auto
qed

text \<open>In the witness the stored count is 998 of 999; after two lifetimes with five uses the key still validates.\<close>

theorem restarts_hide_use_witness:
  "\<exists>b. validateApiKey mem_keys ''k1''
     (us_db (fold (lifetime mem_redis mem_keys ''k1'') [(0, demo_key, [1, 2]), (3, demo_key, [4, 5, 6])] demo_usage)) = Inr b"
proof -
  let ?ls = "[(0, demo_key, [1, 2]), (3, demo_key, [4, 5, 6])]"
  let ?st = "fold (lifetime mem_redis mem_keys (ak_key demo_key)) ?ls demo_usage"
  have db: "us_db ?st = us_db demo_usage"
    by (simp add: lifetime_def usage_constructor_def incrementUsage_defs Let_def sync_interval_def split: prod.split)
  have f: "repo_findApiKey mem_keys (ak_key demo_key) (us_db ?st) = Inr (Some demo_key)"
    unfolding db by (simp add: repo_findApiKey_def mem_keys_def demo_usage_docs has_key_def)
  have "(\<forall>n \<in> set (map uses ?ls). n < 1000) \<longrightarrow>
      (validateApiKey mem_keys (ak_key demo_key) (us_db ?st) = Inr demo_key \<longleftrightarrow> ak_usageCount demo_key < ak_usageLimit demo_key)"
    by (rule restarts_hide_use [OF demo_usage_service _ _ refl refl f, THEN conjunct2, THEN conjunct2, THEN conjunct2])
      (simp_all add: demo_usage_docs demo_key_fields has_key_def, simp add: demo_usage_def)
  then show ?thesis by (auto simp: demo_key_fields uses_def)
qed

end
