(* ===== verification/ModuleGraph.thy ===== *)
theory ModuleGraph
  imports Notification
begin

text \<open>
  How the application is put together: the modules (the files *.module.ts) with their imports, controllers, providers and exports, the
  constructors of the classes they provide, and the rules by which the framework resolves a constructor's parameters. A parameter is
  named by its injection token. The dynamic modules of the libraries are imports with the tokens they are documented to export.
\<close>

section \<open>Tokens\<close>

definition queue_token :: "string \<Rightarrow> string" where
  "queue_token name = ''BullQueue_'' @ name"

definition model_token :: "string \<Rightarrow> string" where
  "model_token name = name @ ''Model''"

definition config_token :: "string \<Rightarrow> string" where
  "config_token name = ''CONFIGURATION('' @ name @ '')''"

definition METRIC_AGGREGATION_QUEUE :: string where "METRIC_AGGREGATION_QUEUE = ''metrics_aggregation_queue''"
definition EVENT_PROCESS_QUEUE :: string where "EVENT_PROCESS_QUEUE = ''event_process''"
definition API_USAGE_TRACKER_QUEUE :: string where "API_USAGE_TRACKER_QUEUE = ''api-usage-tracker-queue''"
definition WEBSOCKET_EVENTS_QUEUE :: string where "WEBSOCKET_EVENTS_QUEUE = ''WEBSOCKET_EVENTS_QUEUE''"
definition NOTIFICATION_QUEUE :: string where "NOTIFICATION_QUEUE = ''NOTIFICATION_QUEUE''"
definition NOTIFICATION_CLIENT :: string where "NOTIFICATION_CLIENT = ''NOTIFICATION_CLIENT''"
definition REDIS_CLIENT :: string where "REDIS_CLIENT = ''REDIS_CLIENT''"

section \<open>The classes\<close>

text \<open>A class, the tokens of its constructor's parameters, the queue it works for, and how many jobs of it at a time.\<close>

record nest_class =
  cl_name :: string
  cl_deps :: "string list"
  cl_queue :: "string option"
  cl_concurrency :: nat

definition service :: "string \<Rightarrow> string list \<Rightarrow> nest_class" where
  "service name deps = \<lparr>cl_name = name, cl_deps = deps, cl_queue = None, cl_concurrency = 0\<rparr>"

definition processor :: "string \<Rightarrow> string \<Rightarrow> string list \<Rightarrow> nest_class" where
  "processor queue name deps = \<lparr>cl_name = name, cl_deps = deps, cl_queue = Some queue, cl_concurrency = 1\<rparr>"

definition AppController_class where "AppController_class = service ''AppController'' [''AppService'']"
definition AppService_class where "AppService_class = service ''AppService'' []"

definition UserRepository_class where "UserRepository_class = service ''UserRepository'' [model_token ''User'']"
definition UsersService_class where "UsersService_class = service ''UsersService'' [model_token ''User'']"
definition UsersController_class where "UsersController_class = service ''UsersController'' [''UsersService'']"

definition RedisService_class where "RedisService_class = service ''RedisService'' [REDIS_CLIENT]"

definition NotificationService_class where
  "NotificationService_class = service ''NotificationService'' [NOTIFICATION_CLIENT]"
definition GmailNotificationClient_class where
  "GmailNotificationClient_class = service ''GmailNotificationClient'' [config_token ''notification'']"
definition NotificatationProcessor_class where
  "NotificatationProcessor_class = processor NOTIFICATION_QUEUE ''NotificatationProcessor'' [''NotificationService'']"

definition BcryptService_class where "BcryptService_class = service ''BcryptService'' []"
definition AccessTokenGuard_class where
  "AccessTokenGuard_class = service ''AccessTokenGuard'' [''JwtService'', config_token ''jwt'']"
definition AuthenticationGuard_class where
  "AuthenticationGuard_class = service ''AuthenticationGuard'' [''Reflector'', ''AccessTokenGuard'']"
definition AuthenticationService_class where
  "AuthenticationService_class = service ''AuthenticationService''
     [''UserRepository'', ''HashingService'', ''JwtService'', ''RedisService'', queue_token NOTIFICATION_QUEUE, config_token ''jwt'']"
definition AuthenticationController_class where
  "AuthenticationController_class = service ''AuthenticationController'' [''AuthenticationService'']"

definition ApiKeyRepository_class where "ApiKeyRepository_class = service ''ApiKeyRepository'' [model_token ''ApiKey'']"
definition ApiKeyService_class where "ApiKeyService_class = service ''ApiKeyService'' [''ApiKeyRepository'']"
definition ApiKeyUsageService_class where
  "ApiKeyUsageService_class = service ''ApiKeyUsageService'' [REDIS_CLIENT, ''ApiKeyRepository'']"
definition ApiKeyConttroller_class where "ApiKeyConttroller_class = service ''ApiKeyConttroller'' [''ApiKeyService'']"

definition EventHttpRepository_class where "EventHttpRepository_class = service ''EventHttpRepository'' [model_token ''Event'']"
definition EventsHttpService_class where "EventsHttpService_class = service ''EventsHttpService'' [''EventHttpRepository'']"
definition EventsHttpController_class where "EventsHttpController_class = service ''EventsHttpController'' [''EventsHttpService'']"
definition EventHttpProcessor_class where
  "EventHttpProcessor_class = (processor EVENT_PROCESS_QUEUE ''EventHttpProcessor'' [''EventsHttpService''])\<lparr>cl_concurrency := 10\<rparr>"

definition EventWebSocketGateway_class where
  "EventWebSocketGateway_class = service ''EventWebSocketGateway'' [''JwtService'', config_token ''jwt'']"
definition StreamWebSocketBatcher_class where
  "StreamWebSocketBatcher_class = service ''StreamWebSocketBatcher'' [queue_token WEBSOCKET_EVENTS_QUEUE]"
definition WebSocketEventProcessor_class where
  "WebSocketEventProcessor_class = processor WEBSOCKET_EVENTS_QUEUE ''WebSocketEventProcessor'' [''EventWebSocketGateway'']"

definition MetricsAggregationService_class where
  "MetricsAggregationService_class = service ''MetricsAggregationService'' [REDIS_CLIENT, ''EventWebSocketGateway'']"
definition MetricsAggregationProcessor_class where
  "MetricsAggregationProcessor_class = processor METRIC_AGGREGATION_QUEUE ''MetricsAggregationProcessor'' [''MetricsAggregationService'']"
definition MetricsDebugController_class where
  "MetricsDebugController_class = service ''MetricsDebugController'' [''MetricsAggregationService'']"

definition EventInterceptor_class where "EventInterceptor_class = service ''EventInterceptor'' [''ApiKeyService'', ''ApiKeyUsageService'']"
definition ApiUsageTrackerProcessor_class where
  "ApiUsageTrackerProcessor_class = processor API_USAGE_TRACKER_QUEUE ''ApiUsageTrackerProcessor'' [''ApiKeyService'']"
definition StreamEventBatcher_class where
  "StreamEventBatcher_class = service ''StreamEventBatcher'' [queue_token EVENT_PROCESS_QUEUE]"
definition EventsService_class where
  "EventsService_class = service ''EventsService''
     [''ApiKeyUsageService'', queue_token METRIC_AGGREGATION_QUEUE, ''StreamEventBatcher'', ''StreamWebSocketBatcher'']"
definition EventsController_class where "EventsController_class = service ''EventsController'' [''EventsService'']"

definition HealthService_class where "HealthService_class = service ''HealthService'' [REDIS_CLIENT]"
definition HealthController_class where "HealthController_class = service ''HealthController'' [''HealthService'']"

definition GlobalExceptionFilter_class where "GlobalExceptionFilter_class = service ''GlobalExceptionFilter'' []"
definition ErrorLoggingInterceptor_class where "ErrorLoggingInterceptor_class = service ''ErrorLoggingInterceptor'' []"
definition UnhandledExceptionService_class where "UnhandledExceptionService_class = service ''UnhandledExceptionService'' []"

section \<open>Modules\<close>

text \<open>The connection of app.module.ts to the database.\<close>

record mongoose_options =
  mo_uri :: string
  mo_autoIndex :: bool
  mo_autoCreate :: bool
  mo_maxPoolSize :: nat
  mo_minPoolSize :: nat
  mo_readPreference :: string
  mo_writeConcern_w :: nat

definition mongoose_connection :: "environment \<Rightarrow> mongoose_options" where
  "mongoose_connection env =
     \<lparr>mo_uri = databaseConfig env, mo_autoIndex = True, mo_autoCreate = True, mo_maxPoolSize = 100, mo_minPoolSize = 10,
      mo_readPreference = ''primary'', mo_writeConcern_w = 0\<rparr>"

text \<open>
  A provider is a class, a class under another token, or a factory with the tokens it injects and what it constructs. Imports are
  modules of the program, possibly as forward references, or dynamic modules: the model of a schema, a queue, the token service with
  its configuration, a configuration, and the three roots.
\<close>

datatype provider =
    Provide nest_class
  | UseClass string nest_class
  | UseFactory string "string list" "string list"

datatype nest_import =
    Import string
  | ForwardRef string
  | ForFeature string
  | RegisterQueue string
  | RegisterJwt string
  | ConfigFeature string
  | ConfigRoot "string list"
  | MongooseRoot "environment \<Rightarrow> mongoose_options" "string list"
  | BullRoot "redis_config \<Rightarrow> connection_options" "string list"

datatype nest_export = ExportToken string | ExportModule string

record nest_module =
  nm_name :: string
  nm_imports :: "nest_import list"
  nm_controllers :: "nest_class list"
  nm_providers :: "provider list"
  nm_exports :: "nest_export list"

definition UsersModule :: nest_module where
  "UsersModule = \<lparr>nm_name = ''UsersModule'', nm_imports = [ForFeature ''User''], nm_controllers = [UsersController_class],
     nm_providers = [Provide UsersService_class, Provide UserRepository_class], nm_exports = [ExportToken ''UserRepository'']\<rparr>"

definition RedisModule :: nest_module where
  "RedisModule = \<lparr>nm_name = ''RedisModule'', nm_imports = [ConfigFeature ''redis''], nm_controllers = [],
     nm_providers = [UseFactory REDIS_CLIENT [config_token ''redis''] [''Redis''], Provide RedisService_class],
     nm_exports = [ExportToken ''RedisService'', ExportToken REDIS_CLIENT]\<rparr>"

definition BullmqModule :: nest_module where
  "BullmqModule = \<lparr>nm_name = ''BullmqModule'',
     nm_imports = [ConfigFeature ''bullmq'', BullRoot bullmq_connection [config_token ''bullmq'']],
     nm_controllers = [], nm_providers = [], nm_exports = []\<rparr>"

definition NotificationModule :: nest_module where
  "NotificationModule = \<lparr>nm_name = ''NotificationModule'',
     nm_imports = [ConfigFeature ''notification'', RegisterQueue NOTIFICATION_QUEUE], nm_controllers = [],
     nm_providers = [UseFactory NOTIFICATION_CLIENT [config_token ''notification''] [''GmailNotificationClient''],
       Provide NotificationService_class, Provide GmailNotificationClient_class, Provide NotificatationProcessor_class],
     nm_exports = [ExportToken ''NotificationService'', ExportModule ''BullModule'']\<rparr>"

definition IamModule :: nest_module where
  "IamModule = \<lparr>nm_name = ''IamModule'',
     nm_imports = [Import ''UsersModule'', RegisterJwt ''jwt'', ConfigFeature ''jwt'', Import ''RedisModule'',
       Import ''NotificationModule'', Import ''BullmqModule''],
     nm_controllers = [AuthenticationController_class],
     nm_providers = [UseClass ''HashingService'' BcryptService_class, UseClass ''APP_GUARD'' AuthenticationGuard_class,
       Provide AuthenticationGuard_class, Provide AccessTokenGuard_class, Provide AuthenticationService_class, Provide (service ''Reflector'' [])],
     nm_exports = []\<rparr>"

definition ApiKeyModule :: nest_module where
  "ApiKeyModule = \<lparr>nm_name = ''ApiKeyModule'', nm_imports = [ForFeature ''ApiKey'', Import ''RedisModule''],
     nm_controllers = [ApiKeyConttroller_class],
     nm_providers = [Provide ApiKeyService_class, Provide ApiKeyRepository_class, Provide ApiKeyUsageService_class],
     nm_exports = [ExportToken ''ApiKeyService'', ExportToken ''ApiKeyRepository'', ExportToken ''ApiKeyUsageService'']\<rparr>"

definition EventsHttpModule :: nest_module where
  "EventsHttpModule = \<lparr>nm_name = ''EventsHttpModule'', nm_imports = [ForFeature ''Event'', RegisterQueue EVENT_PROCESS_QUEUE],
     nm_controllers = [EventsHttpController_class],
     nm_providers = [Provide EventsHttpService_class, Provide EventHttpRepository_class, Provide EventHttpProcessor_class],
     nm_exports = [ExportToken ''EventsHttpService'', ExportModule ''BullModule'', ExportToken ''EventHttpProcessor'']\<rparr>"

definition EventWebSocketModule :: nest_module where
  "EventWebSocketModule = \<lparr>nm_name = ''EventWebSocketModule'',
     nm_imports = [RegisterJwt ''jwt'', ConfigFeature ''jwt'', RegisterQueue WEBSOCKET_EVENTS_QUEUE], nm_controllers = [],
     nm_providers = [Provide EventWebSocketGateway_class, Provide StreamWebSocketBatcher_class, Provide WebSocketEventProcessor_class],
     nm_exports = [ExportToken ''StreamWebSocketBatcher'', ExportToken ''EventWebSocketGateway'']\<rparr>"

definition MetricsAggregationModule :: nest_module where
  "MetricsAggregationModule = \<lparr>nm_name = ''MetricsAggregationModule'',
     nm_imports = [Import ''RedisModule'', ForwardRef ''EventWebSocketModule'', RegisterQueue METRIC_AGGREGATION_QUEUE],
     nm_controllers = [MetricsDebugController_class],
     nm_providers = [Provide MetricsAggregationService_class, Provide MetricsAggregationProcessor_class],
     nm_exports = [ExportToken ''MetricsAggregationService'', ExportToken ''MetricsAggregationProcessor'', ExportModule ''BullModule'']\<rparr>"

definition EventsModule :: nest_module where
  "EventsModule = \<lparr>nm_name = ''EventsModule'',
     nm_imports = [Import ''ApiKeyModule'', Import ''EventsHttpModule'', Import ''EventWebSocketModule'',
       RegisterQueue API_USAGE_TRACKER_QUEUE, Import ''MetricsAggregationModule''],
     nm_controllers = [EventsController_class],
     nm_providers = [Provide EventsService_class, Provide EventInterceptor_class, Provide ApiUsageTrackerProcessor_class,
       Provide StreamEventBatcher_class],
     nm_exports = []\<rparr>"

definition HealthModule :: nest_module where
  "HealthModule = \<lparr>nm_name = ''HealthModule'', nm_imports = [Import ''RedisModule''], nm_controllers = [HealthController_class],
     nm_providers = [Provide HealthService_class], nm_exports = [ExportToken ''HealthService'']\<rparr>"

definition CommonModule :: nest_module where
  "CommonModule = \<lparr>nm_name = ''CommonModule'', nm_imports = [], nm_controllers = [],
     nm_providers = [Provide GlobalExceptionFilter_class, Provide UnhandledExceptionService_class, Provide ErrorLoggingInterceptor_class],
     nm_exports = [ExportToken ''GlobalExceptionFilter'', ExportToken ''UnhandledExceptionService'', ExportToken ''ErrorLoggingInterceptor'']\<rparr>"

definition AppModule :: nest_module where
  "AppModule = \<lparr>nm_name = ''AppModule'',
     nm_imports = [ConfigRoot [''database'', ''notification'', ''redis'', ''bullmq''], ConfigFeature ''database'',
       MongooseRoot mongoose_connection [''ConfigService''],
       Import ''IamModule'', Import ''UsersModule'', Import ''RedisModule'', Import ''NotificationModule'', Import ''BullmqModule'',
       Import ''ApiKeyModule'', Import ''EventsModule'', Import ''EventsHttpModule'', Import ''EventWebSocketModule'',
       Import ''MetricsAggregationModule'', Import ''CommonModule'', Import ''HealthModule''],
     nm_controllers = [AppController_class], nm_providers = [Provide AppService_class], nm_exports = []\<rparr>"

definition program_modules :: "nest_module list" where
  "program_modules = [AppModule, IamModule, UsersModule, RedisModule, NotificationModule, BullmqModule, ApiKeyModule, EventsModule,
     EventsHttpModule, EventWebSocketModule, MetricsAggregationModule, CommonModule, HealthModule]"

section \<open>Resolution\<close>

fun pv_token :: "provider \<Rightarrow> string" where
  "pv_token (Provide c) = cl_name c"
| "pv_token (UseClass t c) = t"
| "pv_token (UseFactory t inject made) = t"

fun pv_deps :: "provider \<Rightarrow> string list" where
  "pv_deps (Provide c) = cl_deps c"
| "pv_deps (UseClass t c) = cl_deps c"
| "pv_deps (UseFactory t inject made) = inject"

text \<open>The classes a provider makes an instance of.\<close>

fun pv_makes :: "provider \<Rightarrow> string list" where
  "pv_makes (Provide c) = [cl_name c]"
| "pv_makes (UseClass t c) = [cl_name c]"
| "pv_makes (UseFactory t inject made) = made"

fun pv_classes :: "provider \<Rightarrow> nest_class list" where
  "pv_classes (Provide c) = [c]"
| "pv_classes (UseClass t c) = [c]"
| "pv_classes (UseFactory t inject made) = []"

text \<open>
  What the dynamic modules of the libraries are documented to export, under which module they are exported again, and which tokens
  the roots need from the global ones.
\<close>

fun lib_exports :: "nest_import \<Rightarrow> string list" where
  "lib_exports (ForFeature n) = [model_token n]"
| "lib_exports (RegisterQueue q) = [queue_token q]"
| "lib_exports (RegisterJwt c) = [''JwtService'']"
| "lib_exports (ConfigFeature c) = [config_token c]"
| "lib_exports _ = []"

fun lib_name :: "nest_import \<Rightarrow> string" where
  "lib_name (ForFeature n) = ''MongooseModule''"
| "lib_name (MongooseRoot f deps) = ''MongooseModule''"
| "lib_name (RegisterQueue q) = ''BullModule''"
| "lib_name (BullRoot f deps) = ''BullModule''"
| "lib_name (RegisterJwt c) = ''JwtModule''"
| "lib_name (ConfigFeature c) = ''ConfigModule''"
| "lib_name (ConfigRoot cs) = ''ConfigModule''"
| "lib_name (Import m) = m"
| "lib_name (ForwardRef m) = m"

fun root_deps :: "nest_import \<Rightarrow> string list" where
  "root_deps (MongooseRoot f deps) = deps"
| "root_deps (BullRoot f deps) = deps"
| "root_deps _ = []"

fun global_exports :: "nest_import \<Rightarrow> string list" where
  "global_exports (ConfigRoot cs) = ''ConfigService'' # map config_token cs"
| "global_exports _ = []"

definition global_tokens :: "nest_module list \<Rightarrow> string list" where
  "global_tokens ms = concat (map (\<lambda>m. concat (map global_exports (nm_imports m))) ms)"

definition provided :: "nest_module \<Rightarrow> string list" where
  "provided m = map pv_token (nm_providers m)"

text \<open>A module exports providers of its own and dynamic modules it imports.\<close>

fun exported :: "nest_module \<Rightarrow> nest_export \<Rightarrow> string list" where
  "exported m (ExportToken t) = (if t \<in> set (provided m) then [t] else [])"
| "exported m (ExportModule n) = concat (map lib_exports (filter (\<lambda>i. lib_name i = n) (nm_imports m)))"

definition exports_of :: "nest_module list \<Rightarrow> string \<Rightarrow> string list" where
  "exports_of ms n = (case find (\<lambda>m. nm_name m = n) ms of None \<Rightarrow> [] | Some m \<Rightarrow> concat (map (exported m) (nm_exports m)))"

fun import_tokens :: "nest_module list \<Rightarrow> nest_import \<Rightarrow> string list" where
  "import_tokens ms (Import n) = exports_of ms n"
| "import_tokens ms (ForwardRef n) = exports_of ms n"
| "import_tokens ms i = lib_exports i"

definition visible :: "nest_module list \<Rightarrow> nest_module \<Rightarrow> string list" where
  "visible ms m = provided m @ concat (map (import_tokens ms) (nm_imports m)) @ global_tokens ms"

text \<open>
  A module resolves if its exports exist and the parameters of all its constructors and factories are visible in it.
\<close>

definition resolves :: "nest_module list \<Rightarrow> nest_module \<Rightarrow> bool" where
  "resolves ms m =
     (list_all (\<lambda>e. exported m e \<noteq> []) (nm_exports m)
      \<and> list_all (\<lambda>t. t \<in> set (visible ms m)) (concat (map pv_deps (nm_providers m)) @ concat (map cl_deps (nm_controllers m)))
      \<and> list_all (\<lambda>t. t \<in> set (global_tokens ms)) (concat (map root_deps (nm_imports m))))"

fun module_imports :: "nest_import \<Rightarrow> string list" where
  "module_imports (Import n) = [n]"
| "module_imports (ForwardRef n) = [n]"
| "module_imports _ = []"

text \<open>The modules found from the root by following imports \<open>n\<close> times.\<close>

fun reachable :: "nest_module list \<Rightarrow> nat \<Rightarrow> string list \<Rightarrow> string list" where
  "reachable ms 0 names = names"
| "reachable ms (Suc n) names =
     reachable ms n (remdups (names @ concat (map (\<lambda>m. concat (map module_imports (nm_imports m))) (filter (\<lambda>m. nm_name m \<in> set names) ms))))"

text \<open>
  Construction: in each round every class or factory whose parameters exist is made. \<open>n\<close> rounds are enough if as many
  entries are waiting, since a round without progress is the last.
\<close>

fun construct :: "nat \<Rightarrow> string list \<Rightarrow> (string \<times> string list) list \<Rightarrow> (string \<times> string list) list" where
  "construct 0 ready waiting = waiting"
| "construct (Suc n) ready waiting =
     (let (now, later) = partition (\<lambda>x. list_all (\<lambda>t. t \<in> set ready) (snd x)) waiting
      in if now = [] then waiting else construct n (ready @ map fst now) later)"

definition library_tokens :: "nest_module list \<Rightarrow> string list" where
  "library_tokens ms = global_tokens ms @ concat (map (\<lambda>m. concat (map lib_exports (nm_imports m))) ms)"

definition to_construct :: "nest_module list \<Rightarrow> (string \<times> string list) list" where
  "to_construct ms = concat (map (\<lambda>m. map (\<lambda>p. (pv_token p, pv_deps p)) (nm_providers m)
     @ map (\<lambda>c. (cl_name c, cl_deps c)) (nm_controllers m)) ms)"

text \<open>Queues: who registers them, who works for them, who adds to them.\<close>

fun registered_queue :: "nest_import \<Rightarrow> string list" where
  "registered_queue (RegisterQueue q) = [q]"
| "registered_queue _ = []"

definition module_classes :: "nest_module \<Rightarrow> nest_class list" where
  "module_classes m = concat (map pv_classes (nm_providers m)) @ nm_controllers m"

definition registered_queues :: "nest_module list \<Rightarrow> string list" where
  "registered_queues ms = concat (map (\<lambda>m. concat (map registered_queue (nm_imports m))) ms)"

definition worked_queues :: "nest_module list \<Rightarrow> string list" where
  "worked_queues ms = List.map_filter cl_queue (concat (map module_classes ms))"

definition fed_queues :: "nest_module list \<Rightarrow> string list" where
  "fed_queues ms = filter (\<lambda>q. list_ex (\<lambda>c. queue_token q \<in> set (cl_deps c)) (concat (map module_classes ms))) (registered_queues ms)"

text \<open>
  An interceptor named at a method is made once more, for the module of the controller, beside a provider of the same class: only
  \<^verbatim>\<open>EventsController\<close> names one. Instances the code itself makes with \<^verbatim>\<open>new\<close> in main.ts are not counted.
\<close>

definition used_interceptors :: "nest_class \<Rightarrow> string list" where
  "used_interceptors c = (if cl_name c = ''EventsController'' then [''EventInterceptor''] else [])"

definition made_twice :: "nest_module list \<Rightarrow> string list" where
  "made_twice ms = (let cs = concat (map (\<lambda>m. concat (map pv_makes (nm_providers m)) @ concat (map used_interceptors (nm_controllers m))) ms)
     in filter (\<lambda>c. 1 < count_list cs c) (remdups cs))"

section \<open>The whole graph\<close>

lemma all_modules_resolve: "list_all (resolves program_modules) program_modules"
  by code_simp

lemma all_modules_reachable: "set (reachable program_modules 3 [''AppModule'']) = set (map nm_name program_modules)"
  by code_simp

lemma provided_once: "distinct (concat (map provided program_modules))"
  by code_simp

lemma all_constructed: "construct (length (to_construct program_modules)) (library_tokens program_modules) (to_construct program_modules) = []"
  by code_simp

lemma only_twice: "set (made_twice program_modules) = {''AuthenticationGuard'', ''GmailNotificationClient'', ''EventInterceptor''}"
  by code_simp

lemma queues_wired:
  "distinct (registered_queues program_modules)" "distinct (worked_queues program_modules)"
  "set (worked_queues program_modules) = set (registered_queues program_modules)"
  "set (fed_queues program_modules) = set (registered_queues program_modules) - {API_USAGE_TRACKER_QUEUE}"
  by code_simp+

text \<open>
  The application can be put together, and everyone shares the same services. All modules are reached from \<^verbatim>\<open>AppModule\<close>; in each, the
  parameters of all constructors and factories are visible and the exports exist; the constructions need each other in no cycle, so all
  are made. A token has one provider only: whoever injects a batcher, the gateway or the metrics service gets the same instance (of the
  classes of the modules only the guard, the mail client and the interceptor of the stream are made twice). Each queue is registered once and has one worker, and all but the tracker's are fed.
\<close>

theorem application_is_wired:
  "list_all (resolves program_modules) program_modules
    \<and> set (reachable program_modules 3 [''AppModule'']) = set (map nm_name program_modules)
    \<and> construct (length (to_construct program_modules)) (library_tokens program_modules) (to_construct program_modules) = []
    \<and> distinct (concat (map provided program_modules))
    \<and> set (made_twice program_modules) = {''AuthenticationGuard'', ''GmailNotificationClient'', ''EventInterceptor''}
    \<and> distinct (registered_queues program_modules) \<and> distinct (worked_queues program_modules)
    \<and> set (worked_queues program_modules) = set (registered_queues program_modules)
    \<and> set (fed_queues program_modules) = set (registered_queues program_modules) - {API_USAGE_TRACKER_QUEUE}"
  using all_modules_resolve all_modules_reachable all_constructed provided_once only_twice queues_wired by blast

end
