(* ===== verification/Indexes.thy ===== *)
theory Indexes
  imports JS
begin

text \<open>
  The indexes the schemas declare (user.schema.ts, api-key.schema.ts, event.schema.ts) and what becomes of them. With \<^verbatim>\<open>autoIndex\<close> the
  connection asks MongoDB for each at the start, first those of the properties, then those of the schema, in the order of their
  declaration; MongoDB refuses an index whose keys are already indexed under another name. The option \<^verbatim>\<open>background\<close>, which MongoDB ignores, is left out.
\<close>

section \<open>Declarations\<close>

record index_spec =
  ix_keys :: "(string \<times> int) list"
  ix_unique :: bool
  ix_name :: "string option"

definition prop_index :: "string \<Rightarrow> bool \<Rightarrow> index_spec" where
  "prop_index f unique = \<lparr>ix_keys = [(f, 1)], ix_unique = unique, ix_name = None\<rparr>"

definition user_prop_indexes :: "index_spec list" where
  "user_prop_indexes = [prop_index ''email'' True, prop_index ''isEmailVerified'' False, prop_index ''role'' False]"

definition user_schema_indexes :: "index_spec list" where
  "user_schema_indexes =
     [\<lparr>ix_keys = [(''email'', 1)], ix_unique = True, ix_name = Some ''idx_email_unique''\<rparr>,
      \<lparr>ix_keys = [(''email'', 1), (''isEmailVerified'', 1)], ix_unique = False, ix_name = Some ''idx_email_verified''\<rparr>,
      \<lparr>ix_keys = [(''role'', 1)], ix_unique = False, ix_name = Some ''idx_role''\<rparr>,
      \<lparr>ix_keys = [(''role'', 1), (''isEmailVerified'', 1)], ix_unique = False, ix_name = Some ''idx_role_verified''\<rparr>]"

definition api_key_indexes :: "index_spec list" where
  "api_key_indexes = [prop_index ''key'' True, prop_index ''ownerId'' False]"

definition event_indexes :: "index_spec list" where
  "event_indexes = map (\<lambda>f. prop_index f False) [''ownerId'', ''eventName'', ''category'', ''tags'', ''severity'', ''timestamp'']"

section \<open>Creation\<close>

text \<open>The name MongoDB gives an index without one: its keys and directions.\<close>

fun default_name :: "(string \<times> int) list \<Rightarrow> string" where
  "default_name [] = []"
| "default_name [(f, d)] = f @ ''_'' @ show_int d"
| "default_name ((f, d) # ks) = f @ ''_'' @ show_int d @ ''_'' @ default_name ks"

definition index_name :: "index_spec \<Rightarrow> string" where
  "index_name ix = (case ix_name ix of None \<Rightarrow> default_name (ix_keys ix) | Some n \<Rightarrow> n)"

text \<open>The indexes of the collection and the refused ones.\<close>

definition create_index :: "index_spec \<Rightarrow> index_spec list \<times> index_spec list \<Rightarrow> index_spec list \<times> index_spec list" where
  "create_index ix c =
     (let (created, refused) = c in
      if list_ex (\<lambda>x. ix_keys x = ix_keys ix \<and> index_name x \<noteq> index_name ix) created then (created, refused @ [ix])
      else if list_ex (\<lambda>x. index_name x = index_name ix) created then (created, refused)
      else (created @ [ix], refused))"

definition create_indexes :: "index_spec list \<Rightarrow> index_spec list \<times> index_spec list" where
  "create_indexes ixs = fold create_index ixs ([], [])"

text \<open>No keys are indexed twice.\<close>

lemma create_indexes_distinct: "distinct (map ix_keys (fst (create_indexes ixs)))"
proof -
  have "distinct (map ix_keys (fst (fold create_index ixs c)))" if "distinct (map ix_keys (fst c))" for c
    using that
  proof (induction ixs arbitrary: c)
    case (Cons ix ixs)
    have "distinct (map ix_keys (fst (create_index ix c)))"
      using Cons.prems by (cases c) (auto simp: create_index_def list_ex_iff)
    from Cons.IH [OF this] show ?case by simp
  qed simp
  then show ?thesis by (simp add: create_indexes_def)
qed

text \<open>
  Of the users' indexes two are refused, those the schema names though the property already declares them; the email is unique all the
  same. The events have an index for each of six properties, and none over several.
\<close>

lemma user_indexes:
  "map index_name (fst (create_indexes (user_prop_indexes @ user_schema_indexes)))
     = [''email_1'', ''isEmailVerified_1'', ''role_1'', ''idx_email_verified'', ''idx_role_verified'']"
  "map index_name (snd (create_indexes (user_prop_indexes @ user_schema_indexes))) = [''idx_email_unique'', ''idx_role'']"
  "list_ex (\<lambda>ix. ix_keys ix = [(''email'', 1)] \<and> ix_unique ix) (fst (create_indexes (user_prop_indexes @ user_schema_indexes)))"
  by code_simp+

lemma event_indexes_single: "list_all (\<lambda>ix. length (ix_keys ix) = 1) (fst (create_indexes event_indexes))"
  by code_simp

end
