(* ===== verification/Spec2Isabelle.thy ===== *)
theory Spec2Isabelle
  imports AuthProps ApiKeyProps ApiKeyController ErrorsProps EventsUsage Accounts Health ProtoStruct PipelineProps Debug
    CrossOrigin Routes SharedRedis UsageScript UsageRestart ModuleGraph Indexes
begin

text \<open>
  Eventify: a NestJS server that ingests events over gRPC and serves accounts, API keys, stored events and live
  dashboards over HTTP and websockets. This library models its services as HOL functions and step relations,
  translated from the TypeScript under src/src, and proves what they do; file names below are relative to src/src.

  \<^bold>\<open>The parts and how they interact.\<close> A user signs up, verifies a mailed code and signs in (iam/authentication), and
  gets an access and a refresh token. HTTP requests pass the guards (iam/authentication/guards), which attach the token's
  claims; behind them are the API keys (api-key), the stored events (events-http) and the debug endpoints. A gRPC
  stream (events) is opened with an API key; each of its events is counted in Redis (api-key-usage.service.ts) and handed
  to three consumers: the batcher of the database (stream-event-batcher.service.ts), the batcher of the websocket
  (stream-websocket-batcher.service.ts) and the metrics queue. Workers (the *.processor.ts files) take the jobs: events
  are stored in MongoDB, pushed to the rooms of the websocket gateway (websocket), or counted under Redis keys from which
  the dashboard is computed (metrics-aggregation.service.ts). Around them are the exception filter and the
  shutdown (common), the health checks (health), the mails (integrations/notification) and the configuration.

  \<^bold>\<open>Theories.\<close>
  \<^item> \<^verbatim>\<open>Prelude\<close>: exceptions (\<open>exn\<close>), \<open>'a result = exn + 'a\<close>, list lemmas. \<^verbatim>\<open>JS\<close>: numbers with NaN, decimal printing and
    \<^verbatim>\<open>parseInt\<close>, JSON values with truthiness and property access, plain objects with inherited names, the stable descending sort,
    \<^verbatim>\<open>split\<close>. \<^verbatim>\<open>Json\<close>: \<^verbatim>\<open>JSON.parse\<close>; \<^verbatim>\<open>JsonText\<close>: \<^verbatim>\<open>JSON.stringify\<close>, and that the one undoes the other.
    \<^verbatim>\<open>Dates\<close>: the calendar, \<^verbatim>\<open>toISOString\<close>, \<^verbatim>\<open>new Date(text)\<close>, and their round trip.
  \<^item> \<^verbatim>\<open>Redis\<close>: the keyspace with expiry, the commands on it, the locale \<open>redis_server\<close> and the reference server \<open>mem_redis\<close>.
    \<^verbatim>\<open>RedisService\<close>: integrations/redis/redis.service.ts (sessions and one-time passwords).
  \<^item> \<^verbatim>\<open>Users\<close>: users (schema, repository, service) over the locale \<open>user_collection\<close>. \<^verbatim>\<open>Jwt\<close>: jwt.config.ts and the locale
    \<open>jwt_service\<close>. \<^verbatim>\<open>MailText\<close>: the mail of verify-email.templete.ts. \<^verbatim>\<open>Auth\<close>: authentication.service.ts; \<^verbatim>\<open>AuthProps\<close>: its step relation and properties. \<^verbatim>\<open>Guards\<close>: the guards, the
    decorators, the handlers with cookies; \<^verbatim>\<open>Accounts\<close>: all routes of
    authentication.controller.ts and users.controller.ts with their DTOs, from a sign-up to its mail.
  \<^item> \<^verbatim>\<open>ApiKey\<close>: api-key (schema, repository, service, the usage counter with its Lua script) over \<open>api_key_collection\<close>;
    \<^verbatim>\<open>ApiKeyProps\<close>: its properties; \<^verbatim>\<open>ApiKeyController\<close>: api-key.controller.ts behind the guard.
  \<^item> \<^verbatim>\<open>Batchers\<close>: both batchers against the locale \<open>batcher\<close>. \<^verbatim>\<open>Events\<close>: event.interceptor.ts and events.service.ts as
    steps of a server, and the specification \<open>log_step\<close>; \<^verbatim>\<open>EventsProps\<close>: the simulation; \<^verbatim>\<open>EventsUsage\<close>: the usage
    counter of a key under all steps of that server.
  \<^item> \<^verbatim>\<open>EventStore\<close>: event.schema.ts and event-http.repository.ts over \<open>event_collection\<close>; \<^verbatim>\<open>EventsHttp\<close>: events-http.service.ts,
    its DTOs and controller; \<^verbatim>\<open>EventsHttpProps\<close>: their properties.
  \<^item> \<^verbatim>\<open>Metrics\<close> and \<^verbatim>\<open>Dashboard\<close>: the write and the read side of metrics-aggregation.service.ts; \<^verbatim>\<open>Tally\<close>, \<^verbatim>\<open>MetricsEffects\<close>,
    \<^verbatim>\<open>MetricsProps\<close>: what the commands make of a history of jobs; \<^verbatim>\<open>MetricsCounts\<close>, \<^verbatim>\<open>MetricsViews\<close>, \<^verbatim>\<open>MetricsActive\<close>: what the
    dashboard shows.
  \<^item> \<^verbatim>\<open>Gateway\<close>, \<^verbatim>\<open>GatewayProps\<close>: events-websocket.gateway.ts as a step relation. \<^verbatim>\<open>Jobs\<close>, \<^verbatim>\<open>JobsProps\<close>: the queue workers and the
    properties from the stream to the database and the dashboard; \<^verbatim>\<open>Debug\<close>: metrics-debug.controller.ts.
  \<^item> \<^verbatim>\<open>Pipeline\<close>, \<^verbatim>\<open>PipelineProps\<close>: streams, queues, workers, database and gateway composed to one step relation, and what becomes of an
    acknowledged event in it.
  \<^item> \<^verbatim>\<open>SharedRedis\<close>: authentication, ingestion and metrics side by side on the one Redis of integrations/redis.
  \<^item> \<^verbatim>\<open>UsageScript\<close>: the Lua script of the usage counter, its cache in Redis, and the server and process once Redis has forgotten it.
    \<^verbatim>\<open>UsageRestart\<close>: the usage counter over restarts of the server.
  \<^item> \<^verbatim>\<open>ModuleGraph\<close>: the modules (*.module.ts), the constructors of all classes, and how the framework resolves them; the connection of
    app.module.ts to MongoDB. \<^verbatim>\<open>Indexes\<close>: the indexes the schemas declare, and which of them are created.
  \<^item> \<^verbatim>\<open>Bootstrap\<close>: main.ts; \<^verbatim>\<open>CrossOrigin\<close>: what its cross-origin policy and the refresh cookie mean in a browser, over the locale
    \<open>web_platform\<close>; \<^verbatim>\<open>Routes\<close>: the routes of all controllers, what answers before them (\<open>front_end\<close>), and what is open without a token.
  \<^item> \<^verbatim>\<open>Errors\<close>, \<^verbatim>\<open>ErrorsProps\<close>: common; \<^verbatim>\<open>Health\<close>, \<^verbatim>\<open>Notification\<close>: health, the mails and the configuration; \<^verbatim>\<open>ProtoStruct\<close>:
    generated/google/protobuf/struct.ts. This theory: the properties of guarded requests.

  \<^bold>\<open>State and operations.\<close> A service's fields are a record, a method a definition of the same name that takes what the
  method reads from outside (the time, random draws) as arguments and returns its result with the new state. A thrown
  exception is \<open>Inl\<close>. Awaited calls follow one another; a call the code does not await is either a step of its own
  (\<open>init_task\<close> in \<^verbatim>\<open>Events\<close>, the verification in \<^verbatim>\<open>Gateway\<close>) or its outcome is kept apart (\<open>repo_insertBatch\<close>).
  MongoDB, Redis, the token library, bcrypt and nodemailer are parameters; the first three have their documented behaviour as
  the assumptions of a locale, and each locale is interpreted on a concrete instance (\<open>mem_redis\<close>, \<open>mem_users\<close>,
  \<open>mem_keys\<close>, \<open>mem_events\<close>, \<open>mem_jwt\<close>, \<open>mem_web\<close>, \<open>mem_front\<close>), which the witnesses compute with. Insertions of events are not
  acknowledged (the connection's \<^verbatim>\<open>w: 0\<close>): \<open>event_collection\<close> only says that some of the documents sent are stored. That all are is the
  hypothesis \<open>stores_accepted\<close>, of a server that is up and of documents it accepts, where a property speaks of it.

  \<^bold>\<open>What the lemmas show.\<close> Sessions and codes: invariants over all reachable states of the service. Usage: the relation
  \<open>metered\<close> between Redis, the counter and the database, kept by every increment. Ingestion: \<open>ingest_inv\<close> and a
  forward simulation of the event log, from which agreement of the consumers and delivery follow. Metrics: \<open>family_inv\<close> relates each
  family of keys to the events of its periods; merging hashes adds counts (\<open>merge_tally\<close>). Stored events: the unique order of a
  listing with distinct sort values, cut into pages and put together. Gateway: rooms, user data and open connections agree.
  Pipeline: \<open>pipe_inv\<close> says that the jobs done, the jobs waiting and the buffers together are the log, whatever the interleaving, and that
  what is stored comes from what the done jobs sent (\<open>pipe_sent\<close>); the queues
  can always be drained, by induction on what waits. Shared Redis: a step of a service writes only keys of its own prefix (the lemmas
  named \<open>_frame\<close>), so that all these invariants hold together (\<open>server_inv\<close>). Usage over restarts: \<open>counted\<close>, of which
  \<open>metered\<close> is the case without a restart. Modules: all conditions are computed on the table of the modules.

  \<^bold>\<open>Bounds and fuel.\<close> \<^verbatim>\<open>json_parse\<close> has as fuel twice the length of its text plus two; \<^verbatim>\<open>json_parse_fuel\<close> shows that more never
  changes the answer. \<open>decimal_places\<close> of \<^verbatim>\<open>JsonText\<close> looks for a power of ten up to the denominator, enough by \<open>dvd_pow_self\<close>.
  \<open>construct\<close> of \<^verbatim>\<open>ModuleGraph\<close> has as many rounds as classes to make. \<open>show_nat\<close> recurses on a smaller number, everything else on data. Dates
  are exact between the years 1 and 9999, for which the round trip is proved. Batch sizes, lifetimes and windows are the code's constants.

  \<^bold>\<open>Idealisations.\<close> Numbers of JSON and ratios of the dashboard are rationals where the code has binary64; integers are unbounded (the code's
  stay far below the 53 bits it has). Texts are lists of characters. The local time zone of the server is UTC. The
  commands of one operation on Redis are not interleaved with those of another, except where a property is about that
  interleaving: so the increment of the usage that a stream does not await runs with its event (\<open>on_next\<close>). Likewise the insertion that a
  database job does not await ends with the job, and a job is taken once (\<open>store_worker\<close>): the queue's second try of a job whose worker
  stalled is left out. Texts that \<^verbatim>\<open>new Date\<close> reads outside the ISO format are left to the argument \<open>legacy\<close>. Ids of documents are compared as
  texts, which Mongoose casts before. The ingestion has no steps that create, deactivate or delete a key while a stream is open (C32
  is about any state of the keys). The event name in a body of the debug endpoint is a text. The url of a request is its path, without a query.

  \<^bold>\<open>Not modelled.\<close> The framework itself, including the delivery of stream messages that arrive before the interceptor has
  finished; the hooks that close the connections (\<^verbatim>\<open>onModuleDestroy\<close> of redis.service.ts), which nothing calls; log lines (but for
  the exception filter's).
\<close>

section \<open>Requests behind the guards\<close>

text \<open>
  C19: Who gets through the guard. With the route's authentication types \<open>ts\<close> (the handler's, else the
  class's, else bearer), a request is admitted exactly if \<open>None\<close> is among them or \<open>Bearer\<close> is and its
  token verifies; otherwise it is refused with 401. An admitted request carries a user only if its
  own token verified, and then that token's claims; the scheme before the token is not looked at.
\<close>

theorem guard_admits_iff:
  fixes J P now handler cls rq
  defines "ts \<equiv> authTypesOf handler cls"
    and "valid \<equiv> {c. \<exists>tok. extractTokenFromHeader rq = Some tok \<and> tok \<noteq> [] \<and> jw_verify J P now tok = Inr c}"
  assumes "rq_user rq = None" and "canActivate J P now handler cls rq = (r, rq')"
  shows "isl r = (AuthNone \<notin> set ts \<and> (Bearer \<notin> set ts \<or> valid = {}))
    \<and> (isl r \<longrightarrow> (\<exists>m. r = Inl (HttpException Unauthorized m)) \<and> rq' = rq)
    \<and> (\<forall>c. rq_user rq' = Some c \<longrightarrow> c \<in> valid)"
proof -
  have v: "valid = (case bearer J P now rq of Inl e \<Rightarrow> {} | Inr c \<Rightarrow> {c})"
    by (auto simp: valid_def bearer_def split: option.split sum.split)
  have c: "(r, rq') = (case bearer J P now rq of
        Inr c \<Rightarrow> (case ts of [] \<Rightarrow> (Inl (HttpException Unauthorized ''Unauthorized''), rq)
                   | Bearer # _ \<Rightarrow> (Inr (), rq\<lparr>rq_user := Some c\<rparr>) | AuthNone # _ \<Rightarrow> (Inr (), rq))
      | Inl e \<Rightarrow> (if AuthNone \<in> set ts then Inr ()
                  else if ts = [] then Inl (HttpException Unauthorized ''Unauthorized'') else Inl e, rq))"
    using assms(4) by (simp only: canActivate_def run_guards_types ts_def)
  show ?thesis
  proof (cases "bearer J P now rq")
    case (Inl e)
    with bearer_error [OF Inl] c v assms(3) show ?thesis
      by (cases ts) auto
  next
    case (Inr u)
    show ?thesis
    proof (cases ts)
      case Nil
      with Inr c v assms(3) show ?thesis by simp
    next
      case (Cons t us)
      with Inr c v assms(3) show ?thesis by (cases t) simp_all
    qed
  qed
qed

theorem guard_admits_iff_witness:
  "isl (fst (canActivate mem_jwt (jwt_params.truncate (ae_config demo_env)) 8000 None api_key_class_auth
     \<lparr>rq_authorization = Some ''Bearer x'', rq_cookies = [], rq_user = None\<rparr>))"
proof -
  let ?P = "jwt_params.truncate (ae_config demo_env)"
  let ?rq = "\<lparr>rq_authorization = Some ''Bearer x'', rq_cookies = [], rq_user = None\<rparr>"
  have bad: "isl (jw_verify mem_jwt ?P 8000 ''x'')"
    by (simp add: mem_jwt_def dec_token_def dec_field_def)
  then have none: "jw_verify mem_jwt ?P 8000 ''x'' \<noteq> Inr c" for c by auto
  have x: "extractTokenFromHeader ?rq = Some ''x''"
    by (simp add: extractTokenFromHeader_def)
  show ?thesis
    using guard_admits_iff [of ?rq mem_jwt ?P 8000 None api_key_class_auth, OF _ prod.collapse [symmetric],
        THEN conjunct1] none
    by (simp add: x api_key_class_auth_def authTypesOf_def)
qed

text \<open>
  C26: API keys over HTTP. Without a valid bearer token no handler of the API-key controller runs: the
  answer is 401 and the collection is unchanged. With one, whatever is requested, the keys of
  all owners but the token's subject stay as they are, and a listing returns the subject's keys only.
\<close>

theorem api_key_requests_act_as_their_subject:
  assumes "api_key_collection M docs" and "apiKeyController J P now M rnd rq req d = (r, d')"
  shows "(case bearer J P now rq of
      Inl e \<Rightarrow> d' = d \<and> (\<exists>m. r = Inl (HttpException Unauthorized m))
    | Inr c \<Rightarrow> others (c_sub c) (docs d') = others (c_sub c) (docs d)
        \<and> (\<forall>ks. r = Inr (ApiKeys ks) \<longrightarrow> (\<forall>a \<in> set ks. ak_ownerId a = c_sub c \<and> a \<in> set (docs d))))"
proof (cases "bearer J P now rq")
  case (Inl e)
  with bearer_error [OF Inl] assms(2) show ?thesis by (auto simp: apiKeyController_cases)
next
  case (Inr c)
  with assms(2) have h: "api_key_handler M rnd (c_sub c) req d = (r, d')"
    by (simp add: apiKeyController_cases)
  have "\<forall>a \<in> set ks. ak_ownerId a = c_sub c \<and> a \<in> set (docs d)" if "r = Inr (ApiKeys ks)" for ks
  proof -
    have "akm_find M (c_sub c) d = Inr ks"
      using h that by (cases req) (auto simp: findUserApiKeys_def repo_defs split: sum.splits prod.splits)
    from api_key_collection.akm_find [OF assms(1) this] show ?thesis by auto
  qed
  then show ?thesis
    using api_key_collection.handler_others [OF assms(1) h] by (simp add: Inr)
qed

theorem api_key_requests_act_as_their_subject_witness:
  "snd (apiKeyController mem_jwt (jwt_params.truncate (ae_config demo_env)) 8000 mem_keys []
     \<lparr>rq_authorization = Some ''Bearer'', rq_cookies = [], rq_user = None\<rparr> (DeleteApiKey ''k1'') (us_db demo_usage))
   = us_db demo_usage"
proof -
  let ?P = "jwt_params.truncate (ae_config demo_env)"
  let ?rq = "\<lparr>rq_authorization = Some ''Bearer'', rq_cookies = [], rq_user = None\<rparr>"
  have b: "bearer mem_jwt ?P 8000 ?rq
      = Inl (HttpException Unauthorized ''Authentication token is missing. Please log in to continue'')"
    by (simp add: bearer_def extractTokenFromHeader_def)
  show ?thesis
    using api_key_requests_act_as_their_subject [OF memk.api_key_collection_axioms prod.collapse [symmetric],
        of mem_jwt ?P 8000 "[]" ?rq "DeleteApiKey ''k1''" "us_db demo_usage"]
    by (simp add: b)
qed

text \<open>
  C27: Both tokens of a sign-in open the guarded routes. On a bearer route the access token admits the
  request as the signed-in user until its expiry and is refused from then on; the refresh token,
  signed with the same secret and not marked as such, is admitted too for its own, longer
  lifetime, as a user with the same subject but no email and no role.
\<close>

theorem sign_in_tokens_pass_the_guard:
  assumes "auth_service E ks docs" and "singIn E now uuid email password st = (Inr p, st')"
    and "accessTokenTtl (ae_config E) = Num a" and "refreshTokenTtl (ae_config E) = Num b"
    and "extractTokenFromHeader rq = Some tok" and "tok \<noteq> []" and "authTypesOf handler cls = [Bearer]"
  shows "\<exists>user \<in> set (docs (as_users st)). \<forall>t.
      (let gate = canActivate (ae_jwt E) (jwt_params.truncate (ae_config E)) t handler cls rq in
        (tok = accessToken p \<longrightarrow>
          gate = (if t div 1000 < now div 1000 + a
                  then (Inr (), rq\<lparr>rq_user := Some \<lparr>c_sub = u_id user, c_email = Some (u_email user),
                          c_role = Some (if u_role user = [] then ''user'' else u_role user), c_refreshTokenId = None\<rparr>\<rparr>)
                  else (Inl (HttpException Unauthorized ''Invalid token: jwt expired''), rq)))
      \<and> (tok = refreshToken p \<longrightarrow> t div 1000 < now div 1000 + b \<longrightarrow>
          gate = (Inr (), rq\<lparr>rq_user := Some \<lparr>c_sub = u_id user, c_email = None, c_role = None,
                          c_refreshTokenId = Some uuid\<rparr>\<rparr>)))"
proof -
  obtain user where u: "user \<in> set (docs (as_users st))" and g: "generateTokens E now uuid user st = (Inr p, st')"
    using assms(2) auth_service.axioms(2) [OF assms(1), THEN user_collection.findByEmail_Some]
    by (cases rule: singIn_cases) auto
  note sign = generateTokens_Inr(2,3) [OF g, unfolded signToken_def assms(3,4)]
  note law = auth_service.axioms(3) [OF assms(1)]
  have gate: "canActivate (ae_jwt E) P t handler cls rq =
      (case jw_verify (ae_jwt E) P t tok of
         Inl e \<Rightarrow> (Inl (HttpException Unauthorized (''Invalid token: '' @ exn_message e)), rq)
       | Inr c \<Rightarrow> (Inr (), rq\<lparr>rq_user := Some c\<rparr>))" for P t
    using assms(5-7) by (simp add: canActivate_def run_guards_types bearer_def del: list.map split: sum.split)
  show ?thesis
    using jwt_service.verify_signed [OF law sign(1)] jwt_service.verify_signed [OF law sign(2)]
      jwt_service.verify_expired [OF law sign(2)]
    by (intro bexI [OF _ u] allI) (simp add: gate Let_def)
qed

theorem sign_in_tokens_pass_the_guard_witness:
  "\<exists>c. canActivate mem_jwt (jwt_params.truncate (ae_config demo_env)) 50000000 None None
     \<lparr>rq_authorization = Some (''Bearer '' @ demo_token), rq_cookies = [], rq_user = None\<rparr>
   = (Inr (), \<lparr>rq_authorization = Some (''Bearer '' @ demo_token), rq_cookies = [], rq_user = Some c\<rparr>)
   \<and> c_email c = None"
proof -
  let ?rq = "\<lparr>rq_authorization = Some (''Bearer '' @ demo_token), rq_cookies = [], rq_user = None\<rparr>"
  have s: "singIn demo_env 6000 ''r1'' ''ada@x.io'' ''secret'' (snd demo2) = (Inr (projr (fst demo3)), snd demo3)"
    using demo3_result by (simp add: demo3_def [symmetric] prod_eq_iff)
  have n: "CHR '' '' \<notin> set demo_token" "demo_token \<noteq> []"
    by (simp_all add: demo_token_eq enc_token_def enc_field_def enc_opt_def show_int_def show_nat.simps
        digit_char_def char_of_def bit_0)
  have x: "extractTokenFromHeader ?rq = Some demo_token"
    using extract_any_scheme [OF _ n(1), of "''Bearer''" ?rq] by simp
  have ty: "authTypesOf None None = [Bearer]" by (simp add: authTypesOf_def)
  have e: "ae_jwt demo_env = mem_jwt" "accessTokenTtl (ae_config demo_env) = Num 3600"
      "refreshTokenTtl (ae_config demo_env) = Num 86400"
    by (simp_all add: demo_env_def)
  show ?thesis
    using sign_in_tokens_pass_the_guard [OF demo_service s e(2,3) x n(2) ty]
    by (fastforce simp: e(1) demo_token_def Let_def)
qed

end
